(* ===== verification/Prelude.thy ===== *)
theory Prelude
  imports Main "HOL-Library.Word"
begin

text \<open>
  Shared vocabulary of the development: the Go notions every component uses (byte strings, the
  error results of fallible functions, the few functions of \<open>strings\<close>, \<open>bytes\<close>, \<open>strconv\<close> and
  \<open>fmt\<close> the sources call) and the generic lemmas about them.

  A Go \<open>string\<close> and a Go \<open>[]byte\<close> are both byte sequences and are modelled by \<^typ>\<open>string\<close>: a
  \<^typ>\<open>char\<close> of HOL is exactly one byte. A nil \<open>sql.RawBytes\<close> (SQL NULL) is told from an empty one
  by an option. \<open>uint64\<close> is \<^typ>\<open>64 word\<close>, so that sums wrap as they do in Go; \<open>int\<close> counters that
  only count loop iterations are \<^typ>\<open>nat\<close>.
\<close>

section \<open>Types\<close>

type_synonym u64 = "64 word"
type_synonym bytes = string
type_synonym raw_bytes = "bytes option"

named_theorems bytes_simps \<open>equations that evaluate the byte-level helpers\<close>
named_theorems result_iff \<open>when a chain of fallible calls returns without error\<close>

text \<open>
  Errors: \<open>errors.Errorf(format, args)\<close> and \<open>errors.New\<close> (no arguments), \<open>errors.Annotate(f)\<close>, and an
  error that comes from outside the program (the database, the storage, the file system), which
  carries its message. \<open>errors.Trace\<close> only attaches a stack and is transparent. A run-time panic of
  the Go program is \<open>Panic\<close>.
\<close>

datatype error =
    Errorf string "string list"
  | Annotatef error string "string list"
  | External string
  | Panic string

text \<open>Punctuation bytes that cannot be written inside a string literal.\<close>

abbreviation "SQ \<equiv> CHR 0x27" \<comment> \<open>single quote\<close>
abbreviation "DQ \<equiv> CHR 0x22" \<comment> \<open>double quote\<close>
abbreviation "BT \<equiv> CHR 0x60" \<comment> \<open>backquote\<close>
abbreviation "BS \<equiv> CHR 0x5C" \<comment> \<open>backslash\<close>
abbreviation "NL \<equiv> CHR 0x0A" \<comment> \<open>line feed\<close>
abbreviation "CR \<equiv> CHR 0x0D" \<comment> \<open>carriage return\<close>

text \<open>Fallible Go functions return \<open>(value, error)\<close>; the error is \<^const>\<open>Inl\<close>.\<close>

definition bindR :: "'e + 'a \<Rightarrow> ('a \<Rightarrow> 'e + 'b) \<Rightarrow> 'e + 'b" where
  "bindR m f = (case m of Inl e \<Rightarrow> Inl e | Inr x \<Rightarrow> f x)"

lemma bindR_simps [simp]: "bindR (Inl e) f = Inl e" "bindR (Inr x) f = f x"
  by (simp_all add: bindR_def)

lemma bindR_Inr_iff [result_iff]: "bindR m f = Inr y \<longleftrightarrow> (\<exists>x. m = Inr x \<and> f x = Inr y)"
  by (cases m) auto

lemma bindR_Inl_iff [result_iff]:
  "bindR m f = Inl e \<longleftrightarrow> m = Inl e \<or> (\<exists>x. m = Inr x \<and> f x = Inl e)"
  by (cases m) auto

text \<open>The loop \<open>for _, x := range xs { y, err := f(x); if err != nil { return err }; \<dots> }\<close>.\<close>

fun mapR :: "('a \<Rightarrow> 'e + 'b) \<Rightarrow> 'a list \<Rightarrow> 'e + 'b list" where
  "mapR f [] = Inr []"
| "mapR f (x # xs) = bindR (f x) (\<lambda>y. bindR (mapR f xs) (\<lambda>ys. Inr (y # ys)))"

lemma mapR_Inr_iff [result_iff]: "mapR f xs = Inr ys \<longleftrightarrow> list_all2 (\<lambda>x y. f x = Inr y) xs ys"
  by (induction xs arbitrary: ys) (auto simp: result_iff list_all2_Cons1)

section \<open>Bytes\<close>

abbreviation byte :: "char \<Rightarrow> nat" where
  "byte c \<equiv> of_char c"

definition is_ascii :: "string \<Rightarrow> bool" where
  "is_ascii s \<longleftrightarrow> list_all (\<lambda>c. byte c < 0x80) s"

definition lower_byte :: "char \<Rightarrow> char" where
  "lower_byte c = (if byte c \<ge> 0x41 \<and> byte c \<le> 0x5A then char_of (byte c + 0x20) else c)"

definition upper_byte :: "char \<Rightarrow> char" where
  "upper_byte c = (if byte c \<ge> 0x61 \<and> byte c \<le> 0x7A then char_of (byte c - 0x20) else c)"

text \<open>
  \<open>strings.ToLower\<close>: an all-ASCII string is lowered byte by byte; any other string goes through
  the Unicode tables, which are the parameter \<open>uni\<close> (\<open>strings.Map(unicode.ToLower, s)\<close>).
\<close>

definition ToLower :: "(string \<Rightarrow> string) \<Rightarrow> string \<Rightarrow> string" where
  "ToLower uni s = (if is_ascii s then map lower_byte s else uni s)"

lemma lower_byte_ascii: "byte c < 0x80 \<Longrightarrow> byte (lower_byte c) < 0x80"
  by (simp add: lower_byte_def)

lemma lower_byte_idem [simp]: "lower_byte (lower_byte c) = lower_byte c"
  by (simp add: lower_byte_def)

lemma ToLower_ascii: "is_ascii s \<Longrightarrow> ToLower uni s = map lower_byte s"
  by (simp add: ToLower_def)

lemma is_ascii_lower: "is_ascii s \<Longrightarrow> is_ascii (map lower_byte s)"
  by (auto simp: is_ascii_def list_all_iff lower_byte_ascii)

lemma ToLower_idem_ascii [simp]: "is_ascii s \<Longrightarrow> ToLower uni (ToLower uni s) = ToLower uni s"
  by (simp add: ToLower_ascii is_ascii_lower)


section \<open>Functions of the Go library\<close>

text \<open>\<open>strings.Join\<close>, \<open>strings.HasPrefix\<close>, \<open>strings.HasSuffix\<close>, \<open>strings.Contains\<close>.\<close>

fun join :: "string \<Rightarrow> string list \<Rightarrow> string" where
  "join sep [] = []"
| "join sep [x] = x"
| "join sep (x # y # ys) = x @ sep @ join sep (y # ys)"

definition has_prefix :: "string \<Rightarrow> string \<Rightarrow> bool" where
  "has_prefix p s \<longleftrightarrow> take (length p) s = p"

definition has_suffix :: "string \<Rightarrow> string \<Rightarrow> bool" where
  "has_suffix p s \<longleftrightarrow> has_prefix (rev p) (rev s)"

fun contains_str :: "string \<Rightarrow> string \<Rightarrow> bool" where
  "contains_str p [] = (p = [])"
| "contains_str p (c # cs) = (has_prefix p (c # cs) \<or> contains_str p cs)"

text \<open>\<open>strings.ReplaceAll\<close> / \<open>bytes.ReplaceAll\<close> with a non-empty pattern: leftmost, not overlapping.\<close>

function replace_all :: "string \<Rightarrow> string \<Rightarrow> string \<Rightarrow> string" where
  "replace_all old new [] = []"
| "replace_all old new (c # cs) =
     (if old \<noteq> [] \<and> has_prefix old (c # cs)
      then new @ replace_all old new (drop (length old) (c # cs))
      else c # replace_all old new cs)"
  by pat_completeness auto
termination
  by (relation "measure (\<lambda>(old, new, s). length s)") auto

text \<open>\<open>strings.SplitN(s, sep, 2)\<close> for a one-byte separator: one part when the separator is absent.\<close>

fun split2 :: "char \<Rightarrow> string \<Rightarrow> string \<times> string option" where
  "split2 sep [] = ([], None)"
| "split2 sep (c # cs) =
     (if c = sep then ([], Some cs) else (let (a, b) = split2 sep cs in (c # a, b)))"

text \<open>\<open>strings.Trim(s, cutset)\<close>.\<close>

definition trim_set :: "char list \<Rightarrow> string \<Rightarrow> string" where
  "trim_set cutset s =
     rev (dropWhile (\<lambda>c. c \<in> set cutset) (rev (dropWhile (\<lambda>c. c \<in> set cutset) s)))"

text \<open>
  \<open>strings.TrimSpace\<close>: the UTF-8 encodings of the runes with \<open>unicode.IsSpace\<close> are stripped from
  both ends. No encoding is a proper prefix of another, so the first that fits is the rune.
\<close>

definition space_runes :: "string list" where
  "space_runes = map (map char_of)
     ([[9], [10], [11], [12], [13], [32], [0xC2, 0x85], [0xC2, 0xA0], [0xE1, 0x9A, 0x80],
       [0xE2, 0x80, 0xA8], [0xE2, 0x80, 0xA9], [0xE2, 0x80, 0xAF], [0xE2, 0x81, 0x9F],
       [0xE3, 0x80, 0x80]] @ map (\<lambda>i. [0xE2, 0x80, i]) [0x80 ..< 0x8B :: nat])"

function strip_runes :: "string list \<Rightarrow> string \<Rightarrow> string" where
  "strip_runes rs s =
     (case find (\<lambda>r. r \<noteq> [] \<and> has_prefix r s) rs of
        None \<Rightarrow> s
      | Some r \<Rightarrow> if s = [] then s else strip_runes rs (drop (length r) s))"
  by pat_completeness auto
termination
  by (relation "measure (\<lambda>(rs, s). length s)") (auto simp: find_Some_iff)

declare strip_runes.simps [simp del]

definition TrimSpace :: "string \<Rightarrow> string" where
  "TrimSpace s = rev (strip_runes (map rev space_runes) (rev (strip_runes space_runes s)))"

text \<open>\<open>fmt\<close> verbs: \<open>%d\<close>, \<open>%0wd\<close>, \<open>%02X\<close>, \<open>%x\<close> and \<open>%X\<close> on a byte slice.\<close>

definition digit :: "nat \<Rightarrow> char" where
  "digit d = char_of (48 + d)"

fun fmt_nat :: "nat \<Rightarrow> string" where
  "fmt_nat n = (if n < 10 then [digit n] else fmt_nat (n div 10) @ [digit (n mod 10)])"

declare fmt_nat.simps [simp del]

definition fmt_int :: "int \<Rightarrow> string" where
  "fmt_int i = (if i < 0 then CHR ''-'' # fmt_nat (nat (- i)) else fmt_nat (nat i))"

definition fmt_pad :: "nat \<Rightarrow> nat \<Rightarrow> string" where
  "fmt_pad w n = replicate (w - length (fmt_nat n)) CHR ''0'' @ fmt_nat n"

definition hex_upper :: "nat \<Rightarrow> char" where
  "hex_upper d = (if d < 10 then char_of (48 + d) else char_of (55 + d))"

definition hex_lower :: "nat \<Rightarrow> char" where
  "hex_lower d = (if d < 10 then char_of (48 + d) else char_of (87 + d))"

definition fmt_02X :: "char \<Rightarrow> string" where
  "fmt_02X c = [hex_upper (byte c div 16), hex_upper (byte c mod 16)]"

definition fmt_02x :: "char \<Rightarrow> string" where
  "fmt_02x c = [hex_lower (byte c div 16), hex_lower (byte c mod 16)]"

definition fmt_X :: "bytes \<Rightarrow> string" where
  "fmt_X b = concat (map fmt_02X b)"

definition fmt_x :: "bytes \<Rightarrow> string" where
  "fmt_x b = concat (map fmt_02x b)"

subsection \<open>Joining and prefixes\<close>

lemma has_prefix_append [simp]: "has_prefix p (p @ s)"
  by (simp add: has_prefix_def)

lemma has_prefix_iff: "has_prefix p s \<longleftrightarrow> (\<exists>r. s = p @ r)"
  by (metis append_take_drop_id has_prefix_append has_prefix_def)

lemma has_prefix_Nil [simp]: "has_prefix [] s"
  by (simp add: has_prefix_def)

lemma has_prefix_Cons_Nil [simp]: "\<not> has_prefix (c # p) []"
  by (simp add: has_prefix_def)

lemma has_prefix_Cons [simp]: "has_prefix (c # p) (d # s) \<longleftrightarrow> c = d \<and> has_prefix p s"
  by (auto simp: has_prefix_def)

lemma has_suffix_iff: "has_suffix p s \<longleftrightarrow> (\<exists>r. s = r @ p)"
  unfolding has_suffix_def has_prefix_iff by (metis rev_append rev_rev_ident)

lemma join_Cons: "join sep (x # xs) = x @ (if xs = [] then [] else sep @ join sep xs)"
  by (cases xs) auto

lemma join_append:
  "xs \<noteq> [] \<Longrightarrow> ys \<noteq> [] \<Longrightarrow> join sep (xs @ ys) = join sep xs @ sep @ join sep ys"
  by (induction xs) (auto simp: join_Cons)

lemma split2_absent: "sep \<notin> set s \<Longrightarrow> split2 sep s = (s, None)"
  by (induction s) auto

lemma split2_append: "sep \<notin> set a \<Longrightarrow> split2 sep (a @ sep # b) = (a, Some b)"
  by (induction a) auto

subsection \<open>Digits\<close>

fun parse_nat :: "string \<Rightarrow> nat" where
  "parse_nat s = foldl (\<lambda>a c. 10 * a + (byte c - 48)) 0 s"

fun unhex_digit :: "char \<Rightarrow> nat option" where
  "unhex_digit c =
     (if 48 \<le> byte c \<and> byte c \<le> 57 then Some (byte c - 48)
      else if 65 \<le> byte c \<and> byte c \<le> 70 then Some (byte c - 55)
      else if 97 \<le> byte c \<and> byte c \<le> 102 then Some (byte c - 87)
      else None)"

fun unhex :: "string \<Rightarrow> bytes option" where
  "unhex [] = Some []"
| "unhex [c] = None"
| "unhex (c # d # r) =
     (case (unhex_digit c, unhex_digit d, unhex r) of
        (Some h, Some l, Some bs) \<Rightarrow> Some (char_of (16 * h + l) # bs)
      | _ \<Rightarrow> None)"

declare parse_nat.simps [simp del] unhex_digit.simps [simp del]

lemma byte_digit [simp]: "d < 10 \<Longrightarrow> byte (digit d) = 48 + d"
  by (simp add: digit_def)

lemma parse_nat_snoc: "parse_nat (s @ [c]) = 10 * parse_nat s + (byte c - 48)"
  by (simp add: parse_nat.simps)

lemma parse_fmt_nat [simp]: "parse_nat (fmt_nat n) = n"
proof (induction n rule: fmt_nat.induct)
  case (1 n)
  show ?case
  proof (cases "n < 10")
    case True
    then show ?thesis by (simp add: fmt_nat.simps [of n] parse_nat.simps)
  next
    case False
    with 1 show ?thesis by (simp add: fmt_nat.simps [of n] parse_nat_snoc)
  qed
qed

lemma parse_nat_zeros: "parse_nat (replicate k CHR ''0'' @ s) = parse_nat s"
  by (induction k) (simp_all add: parse_nat.simps)

lemma parse_fmt_pad [simp]: "parse_nat (fmt_pad w n) = n"
  by (simp add: fmt_pad_def parse_nat_zeros)

lemma fmt_nat_inj [simp]: "fmt_nat m = fmt_nat n \<longleftrightarrow> m = n"
  by (metis parse_fmt_nat)

lemma fmt_pad_inj [simp]: "fmt_pad w m = fmt_pad w n \<longleftrightarrow> m = n"
  by (metis parse_fmt_pad)

lemma fmt_nat_digits: "c \<in> set (fmt_nat n) \<Longrightarrow> 48 \<le> byte c \<and> byte c \<le> 57"
proof (induction n rule: fmt_nat.induct)
  case (1 n)
  show ?case
  proof (cases "n < 10")
    case True
    with 1(2) show ?thesis by (simp add: fmt_nat.simps [of n])
  next
    case False
    with 1(2) consider "c \<in> set (fmt_nat (n div 10))" | "c = digit (n mod 10)"
      by (auto simp: fmt_nat.simps [of n])
    then show ?thesis using 1(1) [OF False] by cases auto
  qed
qed

lemma fmt_nat_nonempty [simp]: "fmt_nat n \<noteq> []"
  by (simp add: fmt_nat.simps [of n])

lemma fmt_pad_digits: "c \<in> set (fmt_pad w n) \<Longrightarrow> 48 \<le> byte c \<and> byte c \<le> 57"
  by (auto simp: fmt_pad_def dest: fmt_nat_digits)

lemma length_fmt_nat_le: "n < 10 ^ k \<Longrightarrow> 0 < k \<Longrightarrow> length (fmt_nat n) \<le> k"
proof (induction n arbitrary: k rule: fmt_nat.induct)
  case (1 n)
  show ?case
  proof (cases "n < 10")
    case True
    with 1(3) show ?thesis by (simp add: fmt_nat.simps [of n])
  next
    case False
    with 1(2,3) obtain j where k: "k = Suc j" "0 < j"
      by (cases k; cases "k - 1") (auto simp: Suc_le_eq)
    with 1(2) have "n div 10 < 10 ^ j" by (simp add: less_mult_imp_div_less mult.commute)
    with 1(1) [OF False] k have "length (fmt_nat (n div 10)) \<le> j" by blast
    with False k show ?thesis by (simp add: fmt_nat.simps [of n])
  qed
qed

lemma length_fmt_pad: "n < 10 ^ w \<Longrightarrow> 0 < w \<Longrightarrow> length (fmt_pad w n) = w"
  using length_fmt_nat_le [of n w] by (simp add: fmt_pad_def)

lemma unhex_digit_upper [simp]: "d < 16 \<Longrightarrow> unhex_digit (hex_upper d) = Some d"
  by (auto simp: unhex_digit.simps hex_upper_def)

lemma unhex_digit_lower [simp]: "d < 16 \<Longrightarrow> unhex_digit (hex_lower d) = Some d"
  by (auto simp: unhex_digit.simps hex_lower_def)

lemma byte_nibbles: "char_of (16 * (byte c div 16) + byte c mod 16) = c"
  by (metis char_of_char mult.commute div_mult_mod_eq)

lemma byte_div_16 [simp]: "byte c div 16 < 16"
  by (simp add: div_less_iff_less_mult)

lemma unhex_fmt_X [simp]: "unhex (fmt_X b) = Some b"
  by (induction b) (simp_all add: fmt_X_def fmt_02X_def byte_nibbles)

lemma unhex_fmt_x [simp]: "unhex (fmt_x b) = Some b"
  by (induction b) (simp_all add: fmt_x_def fmt_02x_def byte_nibbles)

lemma hex_digit_not_quote [simp]:
  "d < 16 \<Longrightarrow> hex_upper d \<noteq> CHR 0x27" "d < 16 \<Longrightarrow> hex_lower d \<noteq> CHR 0x27"
  using unhex_digit_upper [of d] unhex_digit_lower [of d] by (auto simp: unhex_digit.simps)

lemma fmt_X_quote_free: "CHR 0x27 \<notin> set (fmt_X b)"
  by (induction b) (simp_all add: fmt_X_def fmt_02X_def eq_sym_conv [of "CHR 0x27"])

lemma fmt_x_quote_free: "CHR 0x27 \<notin> set (fmt_x b)"
  by (induction b) (simp_all add: fmt_x_def fmt_02x_def eq_sym_conv [of "CHR 0x27"])

lemma split2_Some_iff: "split2 c x = (a, Some b) \<longleftrightarrow> x = a @ c # b \<and> c \<notin> set a"
proof
  show "split2 c x = (a, Some b) \<Longrightarrow> x = a @ c # b \<and> c \<notin> set a"
    by (induction x arbitrary: a) (auto split: prod.splits if_splits)
qed (auto intro: split2_append)

section \<open>Messages and integers\<close>

text \<open>
  \<open>err.Error()\<close>: the verbs of the format are replaced by the arguments, which the model holds already
  rendered; an annotation stands before the error it annotates.
\<close>

fun subst_verbs :: "string \<Rightarrow> string list \<Rightarrow> string" where
  "subst_verbs [] args = []"
| "subst_verbs [c] args = [c]"
| "subst_verbs (c # d # ds) args =
     (if c \<noteq> CHR ''%'' then c # subst_verbs (d # ds) args
      else if d = CHR ''%'' then CHR ''%'' # subst_verbs ds args
      else (case args of [] \<Rightarrow> c # subst_verbs (d # ds) args | a # as \<Rightarrow> a @ subst_verbs ds as))"

fun error_text :: "error \<Rightarrow> string" where
  "error_text (Errorf f args) = subst_verbs f args"
| "error_text (Annotatef e f args) = subst_verbs f args @ '': '' @ error_text e"
| "error_text (External m) = m"
| "error_text (Panic m) = m"

text \<open>\<open>strconv.ParseUint(s, 10, 64)\<close>: digits only, at least one, and a value below \<open>2^64\<close>.\<close>

definition ParseUint :: "string \<Rightarrow> u64 option" where
  "ParseUint s =
     (if s \<noteq> [] \<and> list_all (\<lambda>c. 48 \<le> byte c \<and> byte c \<le> 57) s \<and> parse_nat s < 2 ^ 64
      then Some (word_of_nat (parse_nat s)) else None)"

lemma ParseUint_fmt_nat: "n < 2 ^ 64 \<Longrightarrow> ParseUint (fmt_nat n) = Some (word_of_nat n)"
  using fmt_nat_digits by (auto simp: ParseUint_def list_all_iff)

text \<open>\<open>int64\<close> arithmetic: results are brought back into the range of the type.\<close>

definition wrap_int64 :: "int \<Rightarrow> int" where
  "wrap_int64 x = (x + 2 ^ 63) mod 2 ^ 64 - 2 ^ 63"

lemma wrap_int64_id: "- (2 ^ 63) \<le> x \<Longrightarrow> x < 2 ^ 63 \<Longrightarrow> wrap_int64 x = x"
  by (simp add: wrap_int64_def)

text \<open>A sequence of fallible updates of one state, stopped by the first error.\<close>

fun runR :: "('s \<Rightarrow> 'e + 's) list \<Rightarrow> 's \<Rightarrow> 'e + 's" where
  "runR [] s = Inr s"
| "runR (f # fs) s = bindR (f s) (runR fs)"

lemma runR_append: "runR (fs @ gs) s = bindR (runR fs s) (runR gs)"
  by (induction fs arbitrary: s) (auto simp: bindR_def split: sum.splits)

lemma runR_invariant:
  assumes "\<And>f s s'. f \<in> set fs \<Longrightarrow> P s \<Longrightarrow> f s = Inr s' \<Longrightarrow> P s'" "P s" "runR fs s = Inr s'"
  shows "P s'"
  using assms
proof (induction fs arbitrary: s)
  case (Cons f fs)
  then obtain t where t: "f s = Inr t" "runR fs t = Inr s'" by (auto simp: result_iff)
  then have "P t" using Cons.prems(1,2) by (meson list.set_intros(1))
  with Cons t show ?case by (meson list.set_intros(2))
qed simp

end
