(* ===== verification/Codec.thy ===== *)
theory Codec
  imports Prelude
begin

text \<open>
  The interface every textual encoding of the dump satisfies, as a locale: an encoder \<open>enc\<close> and a
  reader \<open>dec\<close> that peels one encoded value off the front of a text and returns the rest. The client
  lemmas (unique reading, separated lists) are proved once inside it; identifiers, string and binary
  literals, CSV cells and whole rows are interpretations in the theories that model them. The readers
  are the lexical rules of the systems the dump is loaded into, not code of the program.
\<close>

section \<open>Quoting by doubling\<close>

definition double_char :: "char \<Rightarrow> string \<Rightarrow> string" where
  "double_char q s = concat (map (\<lambda>c. if c = q then [q, q] else [c]) s)"

text \<open>The standard lexer of a quoted token: a doubled quote stands for one, a single one ends it.\<close>

fun scan_body :: "char \<Rightarrow> string \<Rightarrow> (string \<times> string) option" where
  "scan_body q [] = None"
| "scan_body q (c # cs) =
     (if c = q
      then (case cs of
              [] \<Rightarrow> Some ([], [])
            | d # ds \<Rightarrow> if d = q then map_option (apfst (Cons q)) (scan_body q ds) else Some ([], cs))
      else map_option (apfst (Cons c)) (scan_body q cs))"

definition scan_quoted :: "char \<Rightarrow> string \<Rightarrow> (string \<times> string) option" where
  "scan_quoted q s = (case s of [] \<Rightarrow> None | c # cs \<Rightarrow> if c = q then scan_body q cs else None)"

definition not_starting :: "char \<Rightarrow> string \<Rightarrow> bool" where
  "not_starting q r \<longleftrightarrow> (case r of [] \<Rightarrow> True | c # _ \<Rightarrow> c \<noteq> q)"

lemma not_starting_simps [simp]: "not_starting q []" "not_starting q (c # r) \<longleftrightarrow> c \<noteq> q"
  by (simp_all add: not_starting_def)

lemma double_char_simps [simp]:
  "double_char q [] = []"
  "double_char q (c # s) = (if c = q then [q, q] else [c]) @ double_char q s"
  by (simp_all add: double_char_def)

lemma scan_body_double:
  "not_starting q r \<Longrightarrow> scan_body q (double_char q s @ q # r) = Some (s, r)"
  by (induction s) (auto simp: not_starting_def split: list.splits)

lemma scan_quoted_double:
  "not_starting q r \<Longrightarrow> scan_quoted q (q # double_char q s @ q # r) = Some (s, r)"
  by (simp add: scan_quoted_def scan_body_double)

lemma replace_all_double: "replace_all [q] [q, q] s = double_char q s"
  by (induction s) (auto simp: has_prefix_def)

section \<open>Separated lists\<close>

text \<open>
  Reader of \<open>x\<^sub>1 sep x\<^sub>2 sep \<dots>\<close>: it goes on while a separator follows. \<open>n\<close> bounds the number of
  items; any bound that is not below the number of items written gives the same result.
\<close>

fun scan_list :: "(string \<Rightarrow> ('a \<times> string) option) \<Rightarrow> string \<Rightarrow> nat \<Rightarrow> string \<Rightarrow> ('a list \<times> string) option"
where
  "scan_list dec sep 0 s = None"
| "scan_list dec sep (Suc n) s =
     (case dec s of
        None \<Rightarrow> None
      | Some (x, r) \<Rightarrow>
          if has_prefix sep r
          then map_option (apfst (Cons x)) (scan_list dec sep n (drop (length sep) r))
          else Some ([x], r))"

section \<open>The interface\<close>

locale token_codec =
  fixes enc :: "'a \<Rightarrow> string"
    and dec :: "string \<Rightarrow> ('a \<times> string) option"
    and ok :: "'a \<Rightarrow> bool"
    and stop :: "string \<Rightarrow> bool"
  assumes dec_enc: "ok x \<Longrightarrow> stop r \<Longrightarrow> dec (enc x @ r) = Some (x, r)"
begin

lemma enc_unique:
  assumes "ok x" "ok y" "stop r" "stop t" "enc x @ r = enc y @ t"
  shows "x = y \<and> r = t"
proof -
  have "dec (enc x @ r) = Some (x, r)" using assms(1,3) by (rule dec_enc)
  moreover have "dec (enc x @ r) = Some (y, t)" unfolding assms(5) using assms(2,4) by (rule dec_enc)
  ultimately show ?thesis by simp
qed

lemma scan_list_join:
  assumes sep: "\<And>t. stop (sep @ t)" and r: "stop r" "\<not> has_prefix sep r"
  shows "xs \<noteq> [] \<Longrightarrow> list_all ok xs \<Longrightarrow> length xs \<le> n \<Longrightarrow>
    scan_list dec sep n (join sep (map enc xs) @ r) = Some (xs, r)"
proof (induction xs arbitrary: n)
  case Nil
  then show ?case by simp
next
  case (Cons x xs)
  then obtain m where n: "n = Suc m" by (cases n) auto
  show ?case
  proof (cases "xs = []")
    case True
    with Cons.prems n r show ?thesis by (simp add: dec_enc)
  next
    case False
    with Cons n sep show ?thesis by (simp add: join_Cons dec_enc)
  qed
qed

lemma join_unique:
  assumes sep: "\<And>t. stop (sep @ t)"
    and "stop r" "\<not> has_prefix sep r" "stop t" "\<not> has_prefix sep t"
    and "xs \<noteq> []" "ys \<noteq> []" "list_all ok xs" "list_all ok ys"
    and eq: "join sep (map enc xs) @ r = join sep (map enc ys) @ t"
  shows "xs = ys \<and> r = t"
proof -
  let ?n = "max (length xs) (length ys)"
  have "scan_list dec sep ?n (join sep (map enc xs) @ r) = Some (xs, r)"
    by (rule scan_list_join [OF sep]) (use assms in auto)
  moreover have "scan_list dec sep ?n (join sep (map enc xs) @ r) = Some (ys, t)"
    unfolding eq by (rule scan_list_join [OF sep]) (use assms in auto)
  ultimately show ?thesis by simp
qed

end

end
