(* ===== verification/Dialect.thy ===== *)
theory Dialect
  imports Codec
begin

text \<open>
  The output dialects (\<open>export/dialect.go\<close>) and the quoting helpers of \<open>export/sql.go\<close> and
  \<open>export/consistency.go\<close>. The interface \<open>SQLDialect\<close> is a datatype with one constructor per
  implementation and one function per method. The theorems: quoted identifiers and qualified names
  read back to what was quoted, binary literals read back to the bytes, and the target names parse
  to the target they name.
\<close>

section \<open>Targets\<close>

datatype SQLTarget = TargetPg | TargetMySQL | TargetTiDB | OtherTarget int

fun SQLTarget_String :: "SQLTarget \<Rightarrow> string" where
  "SQLTarget_String TargetPg = ''pg''"
| "SQLTarget_String TargetMySQL = ''mysql''"
| "SQLTarget_String TargetTiDB = ''tidb''"
| "SQLTarget_String (OtherTarget i) = ''unknown('' @ fmt_int i @ '')''"

definition ParseSQLTarget :: "(string \<Rightarrow> string) \<Rightarrow> string \<Rightarrow> error + SQLTarget" where
  "ParseSQLTarget uni s =
     (let v = ToLower uni (TrimSpace s) in
      if v = '''' \<or> v = ''mysql'' then Inr TargetMySQL
      else if v = ''tidb'' then Inr TargetTiDB
      else if v = ''pg'' \<or> v = ''postgres'' \<or> v = ''postgresql'' then Inr TargetPg
      else Inl (Errorf ''unknown --target value %q (want pg|mysql|tidb)'' [s]))"

section \<open>Quoting helpers\<close>

text \<open>\<open>pgQuoteIdent\<close> and \<open>pgQuoteQName\<close> of \<open>sql.go\<close>: the byte loop doubles each double quote.\<close>

definition pgQuoteIdent :: "string \<Rightarrow> string" where
  "pgQuoteIdent name = [DQ] @ double_char DQ name @ [DQ]"

definition pgQuoteQName :: "string \<Rightarrow> string \<Rightarrow> string" where
  "pgQuoteQName schema name =
     (if schema = '''' then pgQuoteIdent name
      else pgQuoteIdent schema @ ''.'' @ pgQuoteIdent name)"

text \<open>\<open>escapeStringLiteral\<close> of \<open>consistency.go\<close>: the body of a string literal.\<close>

fun escapeStringLiteral :: "string \<Rightarrow> string" where
  "escapeStringLiteral [] = []"
| "escapeStringLiteral (c # s) =
     (if c = SQ then [SQ, SQ] @ escapeStringLiteral s else c # escapeStringLiteral s)"

section \<open>The dialects\<close>

datatype SQLDialect = pgDialect | mysqlDialect string

fun Name :: "SQLDialect \<Rightarrow> string" where
  "Name pgDialect = ''pg''"
| "Name (mysqlDialect name) = (if name = '''' then ''mysql'' else name)"

fun QuoteIdent :: "SQLDialect \<Rightarrow> string \<Rightarrow> string" where
  "QuoteIdent pgDialect name = [DQ] @ double_char DQ name @ [DQ]"
| "QuoteIdent (mysqlDialect _) name = [BT] @ double_char BT name @ [BT]"

fun QuoteQName :: "SQLDialect \<Rightarrow> string \<Rightarrow> string \<Rightarrow> string" where
  "QuoteQName d schema name =
     (if schema = '''' then QuoteIdent d name
      else QuoteIdent d schema @ ''.'' @ QuoteIdent d name)"

fun Preamble :: "SQLDialect \<Rightarrow> string list" where
  "Preamble pgDialect =
     [''SET standard_conforming_strings = on;'',
      ''SET client_encoding = '' @ [SQ] @ ''UTF8'' @ [SQ] @ '';'',
      ''SET search_path = pg_catalog;'']"
| "Preamble (mysqlDialect _) =
     [''/*!40101 SET NAMES utf8mb4 */;'',
      ''/*!40014 SET FOREIGN_KEY_CHECKS=0 */;'',
      ''/*!40014 SET UNIQUE_CHECKS=0 */;'',
      ''SET sql_mode='' @ [SQ] @ ''NO_BACKSLASH_ESCAPES'' @ [SQ] @ '';'']"

fun CreateDatabaseStmt :: "SQLDialect \<Rightarrow> string \<Rightarrow> string" where
  "CreateDatabaseStmt pgDialect name =
     ''CREATE SCHEMA IF NOT EXISTS '' @ QuoteIdent pgDialect name"
| "CreateDatabaseStmt (mysqlDialect n) name =
     ''CREATE DATABASE IF NOT EXISTS '' @ QuoteIdent (mysqlDialect n) name"

fun BytesLiteral :: "SQLDialect \<Rightarrow> bytes \<Rightarrow> string" where
  "BytesLiteral pgDialect b = [SQ, BS, CHR ''x''] @ fmt_x b @ [SQ]"
| "BytesLiteral (mysqlDialect _) b =
     (if length b = 0 then [CHR ''X'', SQ, SQ] else [CHR ''X'', SQ] @ fmt_X b @ [SQ])"

fun WantMigrationCasts :: "SQLDialect \<Rightarrow> string \<Rightarrow> bool" where
  "WantMigrationCasts pgDialect filetype = (filetype = ''csv'')"
| "WantMigrationCasts (mysqlDialect _) filetype = True"

fun DialectFor :: "SQLTarget \<Rightarrow> SQLDialect" where
  "DialectFor TargetMySQL = mysqlDialect (SQLTarget_String TargetMySQL)"
| "DialectFor TargetTiDB = mysqlDialect (SQLTarget_String TargetTiDB)"
| "DialectFor _ = pgDialect"

section \<open>Readers of the target systems\<close>

fun quote_char :: "SQLDialect \<Rightarrow> char" where
  "quote_char pgDialect = DQ"
| "quote_char (mysqlDialect _) = BT"

fun bytes_prefix :: "SQLDialect \<Rightarrow> string" where
  "bytes_prefix pgDialect = [SQ, BS, CHR ''x'']"
| "bytes_prefix (mysqlDialect _) = [CHR ''X'', SQ]"

text \<open>A hexadecimal literal: the prefix, hex digits, the closing quote.\<close>

definition scan_hex :: "string \<Rightarrow> string \<Rightarrow> (bytes \<times> string) option" where
  "scan_hex pre s =
     (if has_prefix pre s
      then (case split2 SQ (drop (length pre) s) of
              (h, Some r) \<Rightarrow> map_option (\<lambda>b. (b, r)) (unhex h)
            | (h, None) \<Rightarrow> None)
      else None)"

text \<open>A possibly qualified name, read as the target system reads it.\<close>

definition scan_qname :: "char \<Rightarrow> string \<Rightarrow> ((string \<times> string) \<times> string) option" where
  "scan_qname q s =
     (case scan_quoted q s of
        None \<Rightarrow> None
      | Some (a, r) \<Rightarrow>
          if not_starting CHR ''.'' r then Some (('''', a), r)
          else map_option (\<lambda>(b, t). ((a, b), t)) (scan_quoted q (drop 1 r)))"

section \<open>Correctness\<close>

lemma QuoteIdent_eq: "QuoteIdent d name = quote_char d # double_char (quote_char d) name @ [quote_char d]"
  by (cases d) simp_all

lemma QuoteIdent_pg: "pgQuoteIdent = QuoteIdent pgDialect"
  by (simp add: fun_eq_iff pgQuoteIdent_def)

lemma pgQuoteQName_pg: "pgQuoteQName = QuoteQName pgDialect"
  by (simp add: fun_eq_iff pgQuoteQName_def QuoteIdent_pg)

lemma escapeStringLiteral_double: "escapeStringLiteral s = double_char SQ s"
  by (induction s) simp_all

lemma dot_not_quote [simp]: "CHR ''.'' \<noteq> quote_char d"
  by (cases d) simp_all

interpretation ident: token_codec "QuoteIdent d" "scan_quoted (quote_char d)"
    "\<lambda>_. True" "not_starting (quote_char d)" for d
  by unfold_locales (simp add: QuoteIdent_eq scan_quoted_double)

interpretation bytes_lit: token_codec "BytesLiteral d" "scan_hex (bytes_prefix d)"
    "\<lambda>_. True" "\<lambda>_. True" for d
proof
  show "scan_hex (bytes_prefix d) (BytesLiteral d b @ r) = Some (b, r)" for b r
  proof (cases d)
    case pgDialect
    then show ?thesis
      by (simp add: scan_hex_def split2_append fmt_x_quote_free)
  next
    case (mysqlDialect n)
    then have "BytesLiteral d b = [CHR ''X'', SQ] @ fmt_X b @ [SQ]"
      by (simp add: fmt_X_def)
    with mysqlDialect show ?thesis
      by (simp add: scan_hex_def split2_append fmt_X_quote_free)
  qed
qed

interpretation qname: token_codec "\<lambda>(s, n). QuoteQName d s n" "scan_qname (quote_char d)"
    "\<lambda>_. True" "\<lambda>r. not_starting (quote_char d) r \<and> not_starting CHR ''.'' r" for d
  by unfold_locales (auto simp: scan_qname_def ident.dec_enc)

text \<open>C25: Quoted names are unambiguous in every target dialect: two schema-qualified names are written
  with the same text exactly when schema and name are the same, whatever quotes and dots they contain,
  and the target's lexer reads the schema and the name back.\<close>

theorem quoted_name_unique:
  "(QuoteQName d schema name = QuoteQName d schema' name' \<longleftrightarrow> schema = schema' \<and> name = name') \<and>
   scan_qname (quote_char d) (QuoteQName d schema name @ '' ('' ) = Some ((schema, name), '' ('')"
proof -
  have "quote_char d \<noteq> CHR '' ''" by (cases d) simp_all
  then have "scan_qname (quote_char d) (QuoteQName d schema name @ '' ('') = Some ((schema, name), '' ('')"
    using qname.dec_enc [where d = d and x = "(schema, name)" and r = "'' (''"] by simp
  moreover have "schema = schema' \<and> name = name'" if "QuoteQName d schema name = QuoteQName d schema' name'"
    using that qname.enc_unique [where d = d and x = "(schema, name)" and y = "(schema', name')" and r = "[]" and t = "[]"] by simp
  ultimately show ?thesis by blast
qed

text \<open>C26: Binary literals round-trip in every dialect: from the literal of a byte string, followed by
  anything, the target's lexer reads exactly those bytes and leaves what follows, so different byte
  strings have different literals (the empty one included).\<close>

theorem bytes_literal_roundtrip:
  "scan_hex (bytes_prefix d) (BytesLiteral d b @ r) = Some (b, r) \<and>
   (BytesLiteral d b = BytesLiteral d b' \<longleftrightarrow> b = b')"
  using bytes_lit.dec_enc [where d = d and x = b and r = r]
    bytes_lit.enc_unique [where d = d and x = b and y = b' and r = "[]" and t = "[]"] by auto

end
