(* ===== verification/Row_Receiver.thy ===== *)
theory Row_Receiver
  imports Dialect
begin

text \<open>
  The row receivers (\<open>export/sql_type.go\<close>): which receiver a column type gets, and what each writes
  for a cell into a SQL or a CSV file. A cell is \<^typ>\<open>raw_bytes\<close>, the text the driver delivered or
  NULL. A writer of the code appends to a \<open>bytes.Buffer\<close>; the model returns the appended bytes.

  The theorems: a row written as SQL is read back lexeme by lexeme, whatever the bytes of its string
  and binary cells; a CSV row is read back cell by cell, NULL told apart from the null marker as a
  string; and what goes wrong where the code treats a type with commas in its text as a number, or
  where the loader interprets backslashes.
\<close>

section \<open>Types and options\<close>

datatype BinaryFormat = BinaryFormatUTF8 | BinaryFormatHEX | BinaryFormatBase64

datatype CSVDialect =
  CSVDialectDefault | CSVDialectSnowflake | CSVDialectRedshift | CSVDialectBigQuery

fun DialectBinaryFormatMap :: "CSVDialect \<Rightarrow> BinaryFormat" where
  "DialectBinaryFormatMap CSVDialectDefault = BinaryFormatUTF8"
| "DialectBinaryFormatMap CSVDialectSnowflake = BinaryFormatHEX"
| "DialectBinaryFormatMap CSVDialectRedshift = BinaryFormatHEX"
| "DialectBinaryFormatMap CSVDialectBigQuery = BinaryFormatBase64"

record csvOption =
  csv_nullValue :: string
  csv_separator :: bytes
  csv_delimiter :: bytes
  csv_lineTerminator :: bytes
  csv_binaryFormat :: BinaryFormat

text \<open>The receiver of one column, with the bytes the last \<open>Scan\<close> stored in it.\<close>

datatype RowReceiverStringer =
    SQLTypeString raw_bytes
  | SQLTypeNumber raw_bytes
  | SQLTypeBytes raw_bytes "SQLDialect option"

fun set_raw :: "raw_bytes \<Rightarrow> RowReceiverStringer \<Rightarrow> RowReceiverStringer" where
  "set_raw v (SQLTypeString _) = SQLTypeString v"
| "set_raw v (SQLTypeNumber _) = SQLTypeNumber v"
| "set_raw v (SQLTypeBytes _ d) = SQLTypeBytes v d"

section \<open>Choosing receivers\<close>

datatype recMaker = SQLTypeStringMaker | SQLTypeBytesMaker | SQLTypeNumberMaker

fun make_receiver :: "recMaker \<Rightarrow> SQLDialect \<Rightarrow> RowReceiverStringer" where
  "make_receiver SQLTypeStringMaker d = SQLTypeString None"
| "make_receiver SQLTypeBytesMaker d = SQLTypeBytes None (Some d)"
| "make_receiver SQLTypeNumberMaker d = SQLTypeNumber None"

definition numberTypes :: "string list" where
  "numberTypes =
     [''int2'', ''int4'', ''int8'', ''smallint'', ''integer'', ''bigint'',
      ''float4'', ''float8'', ''real'', ''double precision'',
      ''numeric'', ''decimal'', ''money'',
      ''oid'', ''xid'', ''cid'', ''tid'',
      ''bool'', ''boolean'']"

definition binaryTypes :: "string list" where
  "binaryTypes = [''bytea'']"

definition initColTypeRowReceiverMap :: "string \<rightharpoonup> recMaker" where
  "initColTypeRowReceiverMap =
     (let put = (\<lambda>mk m t. m(map upper_byte t \<mapsto> mk, map lower_byte t \<mapsto> mk));
          m1 = foldl (put SQLTypeNumberMaker) Map.empty numberTypes
      in foldl (put SQLTypeBytesMaker) m1 binaryTypes)"

definition recMaker_of :: "(string \<Rightarrow> string) \<Rightarrow> string \<Rightarrow> recMaker" where
  "recMaker_of uni colTp =
     (case initColTypeRowReceiverMap colTp of
        Some mk \<Rightarrow> mk
      | None \<Rightarrow>
          (case initColTypeRowReceiverMap (ToLower uni colTp) of
             Some mk \<Rightarrow> mk
           | None \<Rightarrow> SQLTypeStringMaker))"

definition MakeRowReceiver ::
  "(string \<Rightarrow> string) \<Rightarrow> string list \<Rightarrow> SQLDialect \<Rightarrow> RowReceiverStringer list" where
  "MakeRowReceiver uni colTypes dialect =
     map (\<lambda>colTp. make_receiver (recMaker_of uni colTp) dialect) colTypes"

text \<open>
  \<open>decodeFromRows\<close> (\<open>export/ir.go\<close>): \<open>BindAddress\<close> makes \<open>args[i]\<close> point at receiver \<open>i\<close> (and panics
  when there are more arguments than receivers), then \<open>rows.Scan(args...)\<close> fails unless the row has
  exactly as many columns as there are arguments, and stores the cells.
\<close>

definition decodeFromRows ::
  "nat \<Rightarrow> raw_bytes list \<Rightarrow> RowReceiverStringer list \<Rightarrow> error + RowReceiverStringer list" where
  "decodeFromRows argLen cells rs =
     (if length rs < argLen then Inl (Panic ''index out of range'')
      else if length cells \<noteq> argLen
        then Inl (Errorf ''sql: expected %d destination arguments in Scan, not %d''
                    [fmt_nat (length cells), fmt_nat argLen])
      else Inr (map2 set_raw cells (take argLen rs) @ drop argLen rs))"

section \<open>Writing cells\<close>

definition nullValue :: string where
  "nullValue = ''NULL''"

definition escapeSQL :: "bytes \<Rightarrow> bool \<Rightarrow> bytes" where
  "escapeSQL s escapeBackslash = replace_all [SQ] [SQ, SQ] s"

definition escapeCSV :: "bytes \<Rightarrow> bool \<Rightarrow> csvOption \<Rightarrow> bytes" where
  "escapeCSV s escapeBackslash opt =
     (if length (csv_delimiter opt) > 0
      then replace_all (csv_delimiter opt) (csv_delimiter opt @ csv_delimiter opt) s
      else s)"

text \<open>\<open>base64.StdEncoding.EncodeToString\<close>.\<close>

definition base64_digit :: "nat \<Rightarrow> char" where
  "base64_digit d =
     (if d < 26 then char_of (65 + d) else if d < 52 then char_of (97 + (d - 26))
      else if d < 62 then char_of (48 + (d - 52)) else if d = 62 then CHR ''+'' else CHR ''/'')"

fun base64 :: "bytes \<Rightarrow> string" where
  "base64 (a # b # c # r) =
     [base64_digit (byte a div 4), base64_digit ((byte a mod 4) * 16 + byte b div 16),
      base64_digit ((byte b mod 16) * 4 + byte c div 64), base64_digit (byte c mod 64)] @ base64 r"
| "base64 [a, b] =
     [base64_digit (byte a div 4), base64_digit ((byte a mod 4) * 16 + byte b div 16),
      base64_digit ((byte b mod 16) * 4), CHR ''='']"
| "base64 [a] = [base64_digit (byte a div 4), base64_digit ((byte a mod 4) * 16), CHR ''='', CHR ''='']"
| "base64 [] = []"

fun WriteToBuffer1 :: "RowReceiverStringer \<Rightarrow> bool \<Rightarrow> bytes" where
  "WriteToBuffer1 (SQLTypeNumber raw) eb =
     (case raw of Some b \<Rightarrow> b | None \<Rightarrow> nullValue)"
| "WriteToBuffer1 (SQLTypeString raw) eb =
     (case raw of Some b \<Rightarrow> [SQ] @ escapeSQL b eb @ [SQ] | None \<Rightarrow> nullValue)"
| "WriteToBuffer1 (SQLTypeBytes raw dialect) eb =
     (case raw of
        None \<Rightarrow> nullValue
      | Some b \<Rightarrow>
          (case dialect of
             Some d \<Rightarrow> BytesLiteral d b
           | None \<Rightarrow> [SQ, BS, CHR ''x''] @ fmt_x b @ [SQ]))"

fun WriteToBufferInCsv1 :: "RowReceiverStringer \<Rightarrow> bool \<Rightarrow> csvOption \<Rightarrow> bytes" where
  "WriteToBufferInCsv1 (SQLTypeNumber raw) eb opt =
     (case raw of Some b \<Rightarrow> b | None \<Rightarrow> csv_nullValue opt)"
| "WriteToBufferInCsv1 (SQLTypeString raw) eb opt =
     (case raw of
        Some b \<Rightarrow> csv_delimiter opt @ escapeCSV b eb opt @ csv_delimiter opt
      | None \<Rightarrow> csv_nullValue opt)"
| "WriteToBufferInCsv1 (SQLTypeBytes raw d) eb opt =
     (case raw of
        Some b \<Rightarrow>
          csv_delimiter opt @
          (case csv_binaryFormat opt of
             BinaryFormatHEX \<Rightarrow> fmt_x b
           | BinaryFormatBase64 \<Rightarrow> base64 b
           | BinaryFormatUTF8 \<Rightarrow> escapeCSV b eb opt) @
          csv_delimiter opt
      | None \<Rightarrow> csv_nullValue opt)"

text \<open>A whole row: the loops over the receivers put the separator between two cells.\<close>

definition WriteToBuffer :: "RowReceiverStringer list \<Rightarrow> bool \<Rightarrow> bytes" where
  "WriteToBuffer rs eb = ''('' @ join '','' (map (\<lambda>r. WriteToBuffer1 r eb) rs) @ '')''"

definition WriteToBufferInCsv :: "RowReceiverStringer list \<Rightarrow> bool \<Rightarrow> csvOption \<Rightarrow> bytes" where
  "WriteToBufferInCsv rs eb opt = join (csv_separator opt) (map (\<lambda>r. WriteToBufferInCsv1 r eb opt) rs)"

section \<open>Reading a SQL row back\<close>

text \<open>What a SQL lexer makes of a value: NULL, a string, a hex literal, or a bare token.\<close>

datatype lexeme = LNull | LStr bytes | LHex bytes | LBare bytes

definition plain_char :: "char \<Rightarrow> bool" where
  "plain_char c \<longleftrightarrow> c \<noteq> CHR '','' \<and> c \<noteq> CHR '')'' \<and> c \<noteq> SQ"

fun enc_lex :: "lexeme \<Rightarrow> string" where
  "enc_lex LNull = nullValue"
| "enc_lex (LStr s) = SQ # double_char SQ s @ [SQ]"
| "enc_lex (LHex b) = [CHR ''X'', SQ] @ fmt_X b @ [SQ]"
| "enc_lex (LBare s) = s"

definition dec_lex :: "string \<Rightarrow> (lexeme \<times> string) option" where
  "dec_lex s =
     (if has_prefix [SQ] s then map_option (apfst LStr) (scan_quoted SQ s)
      else if has_prefix [CHR ''X'', SQ] s then map_option (apfst LHex) (scan_hex [CHR ''X'', SQ] s)
      else (let t = takeWhile plain_char s
            in if t = [] then None
               else Some (if t = nullValue then LNull else LBare t, dropWhile plain_char s)))"

fun ok_lex :: "lexeme \<Rightarrow> bool" where
  "ok_lex (LBare s) = (s \<noteq> [] \<and> list_all plain_char s \<and> s \<noteq> nullValue)"
| "ok_lex _ = True"

definition value_stop :: "string \<Rightarrow> bool" where
  "value_stop r \<longleftrightarrow> (case r of [] \<Rightarrow> False | c # _ \<Rightarrow> c = CHR '','' \<or> c = CHR '')'')"

definition scan_row :: "string \<Rightarrow> (lexeme list \<times> string) option" where
  "scan_row s =
     (if has_prefix ''('' s
      then (case scan_list dec_lex '','' (length s) (drop 1 s) of
              Some (xs, r) \<Rightarrow> if has_prefix '')'' r then Some (xs, drop 1 r) else None
            | None \<Rightarrow> None)
      else None)"

text \<open>The lexeme of a receiver's cell: PostgreSQL writes binary data as a string literal.\<close>

fun lex_of :: "RowReceiverStringer \<Rightarrow> lexeme" where
  "lex_of (SQLTypeString raw) = (case raw of None \<Rightarrow> LNull | Some b \<Rightarrow> LStr b)"
| "lex_of (SQLTypeNumber raw) = (case raw of None \<Rightarrow> LNull | Some b \<Rightarrow> LBare b)"
| "lex_of (SQLTypeBytes raw d) =
     (case raw of
        None \<Rightarrow> LNull
      | Some b \<Rightarrow> (case d of Some (mysqlDialect _) \<Rightarrow> LHex b
                         | _ \<Rightarrow> LStr ([BS, CHR ''x''] @ fmt_x b)))"

lemma plain_NULL: "list_all plain_char nullValue"
  by (simp add: plain_char_def nullValue_def)

lemma takeWhile_stop:
  "list_all P s \<Longrightarrow> (case r of [] \<Rightarrow> True | c # _ \<Rightarrow> \<not> P c) \<Longrightarrow>
    takeWhile P (s @ r) = s \<and> dropWhile P (s @ r) = r"
  by (induction s) (auto split: list.splits)

lemma dec_lex_plain:
  assumes "s \<noteq> []" "list_all plain_char s" "value_stop r"
  shows "dec_lex (s @ r) = Some (if s = nullValue then LNull else LBare s, r)"
proof -
  from assms obtain c s' where s: "s = c # s'" "plain_char c" "list_all plain_char s'"
    by (cases s) auto
  have "\<not> has_prefix [SQ] (s @ r)" using s by (auto simp: plain_char_def)
  moreover have "\<not> has_prefix [CHR ''X'', SQ] (s @ r)"
    using s assms(3) by (cases s') (auto simp: plain_char_def value_stop_def split: list.splits)
  moreover have "takeWhile plain_char (s @ r) = s \<and> dropWhile plain_char (s @ r) = r"
    using assms(2,3) by (intro takeWhile_stop) (auto simp: value_stop_def plain_char_def split: list.splits)
  ultimately show ?thesis using assms(1) by (simp add: dec_lex_def Let_def)
qed

interpretation lexemes: token_codec enc_lex dec_lex ok_lex value_stop
proof
  fix x r
  assume ok: "ok_lex x" and r: "value_stop r"
  from r have "not_starting SQ r" by (auto simp: value_stop_def not_starting_def split: list.splits)
  then show "dec_lex (enc_lex x @ r) = Some (x, r)"
    using ok r dec_lex_plain [of "enc_lex x" r] plain_NULL
    by (cases x) (auto simp: dec_lex_def scan_quoted_double scan_hex_def split2_append
        fmt_X_quote_free nullValue_def)
qed

lemma enc_lex_nonempty: "ok_lex x \<Longrightarrow> enc_lex x \<noteq> []"
  by (cases x) (simp_all add: nullValue_def)

lemma length_join_ge:
  "list_all (\<lambda>x. f x \<noteq> []) xs \<Longrightarrow> length xs \<le> length (join sep (map f xs))"
proof (induction xs)
  case (Cons x xs)
  then have "length xs \<le> length (join sep (map f xs))" "f x \<noteq> []" by auto
  then show ?case by (cases "f x"; cases "xs = []") (auto simp: join_Cons)
qed simp

interpretation lexeme_row: token_codec
  "\<lambda>xs. ''('' @ join '','' (map enc_lex xs) @ '')''" scan_row
  "\<lambda>xs. xs \<noteq> [] \<and> list_all ok_lex xs" "\<lambda>_. True"
proof
  fix xs :: "lexeme list" and r
  assume ok: "xs \<noteq> [] \<and> list_all ok_lex xs"
  let ?s = "''('' @ join '','' (map enc_lex xs) @ '')''"
  have "length xs \<le> length (join '','' (map enc_lex xs))"
    using ok by (intro length_join_ge) (auto simp: list_all_iff enc_lex_nonempty)
  then have "scan_list dec_lex '','' (length (?s @ r)) (join '','' (map enc_lex xs) @ ('')'' @ r))
      = Some (xs, '')'' @ r)"
    using ok by (intro lexemes.scan_list_join) (auto simp: value_stop_def)
  then show "scan_row (?s @ r) = Some (xs, r)"
    by (simp add: scan_row_def)
qed

lemma double_char_absent: "q \<notin> set s \<Longrightarrow> double_char q s = s"
  by (induction s) auto

lemma WriteToBuffer1_lex: "WriteToBuffer1 r eb = enc_lex (lex_of r)"
proof -
  have "double_char SQ (fmt_x b) = fmt_x b" for b
    by (rule double_char_absent) (rule fmt_x_quote_free)
  then show ?thesis
    by (cases r) (auto simp: escapeSQL_def replace_all_double fmt_X_def
        split: option.splits SQLDialect.splits)
qed

lemma WriteToBuffer_lex:
  "WriteToBuffer rs eb = ''('' @ join '','' (map enc_lex (map lex_of rs)) @ '')''"
  by (simp add: WriteToBuffer_def WriteToBuffer1_lex o_def)

text \<open>
  A numeric receiver writes its text bare, so a reader needs that text to be one token: no comma,
  closing parenthesis or quote, not empty, and not the word NULL.
\<close>

fun bare_ok :: "RowReceiverStringer \<Rightarrow> bool" where
  "bare_ok (SQLTypeNumber (Some b)) = (b \<noteq> [] \<and> list_all plain_char b \<and> b \<noteq> nullValue)"
| "bare_ok _ = True"

lemma bare_ok_lex: "bare_ok r \<longleftrightarrow> ok_lex (lex_of r)"
  by (cases r rule: bare_ok.cases) (auto split: option.splits SQLDialect.splits)

lemma scan_row_WriteToBuffer:
  assumes "rs \<noteq> []" "list_all bare_ok rs"
  shows "scan_row (WriteToBuffer rs eb @ t) = Some (map lex_of rs, t)"
  unfolding WriteToBuffer_lex
  by (rule lexeme_row.dec_enc) (use assms in \<open>auto simp: list_all_iff bare_ok_lex\<close>)

text \<open>Receivers of one column differ only in their cell, and the lexeme determines the cell.\<close>

fun raw_of :: "RowReceiverStringer \<Rightarrow> raw_bytes" where
  "raw_of (SQLTypeString raw) = raw"
| "raw_of (SQLTypeNumber raw) = raw"
| "raw_of (SQLTypeBytes raw d) = raw"

lemma raw_of_set_raw [simp]: "raw_of (set_raw v r) = v"
  by (cases r) simp_all

lemma fmt_x_inj [simp]: "fmt_x a = fmt_x b \<longleftrightarrow> a = b"
  by (metis option.inject unhex_fmt_x)

lemma lex_of_inj: "lex_of (set_raw v r) = lex_of (set_raw w r) \<Longrightarrow> v = w"
  by (cases r) (auto split: option.splits SQLDialect.splits)

lemma map2_set_raw_inj:
  assumes "\<And>r v w. P (set_raw v r) \<Longrightarrow> P (set_raw w r) \<Longrightarrow> f (set_raw v r) = f (set_raw w r) \<Longrightarrow> v = w"
  shows "length cs = length rs \<Longrightarrow> length ds = length rs \<Longrightarrow>
    list_all P (map2 set_raw cs rs) \<Longrightarrow> list_all P (map2 set_raw ds rs) \<Longrightarrow>
    map f (map2 set_raw cs rs) = map f (map2 set_raw ds rs) \<Longrightarrow> cs = ds"
proof (induction rs arbitrary: cs ds)
  case (Cons r rs)
  then obtain c cs' d ds' where [simp]: "cs = c # cs'" "ds = d # ds'"
    by (cases cs; cases ds) auto
  from Cons.prems have "P (set_raw c r)" "P (set_raw d r)" "f (set_raw c r) = f (set_raw d r)" by simp_all
  then have "c = d" by (rule assms)
  with Cons.IH [of cs' ds'] Cons.prems show ?case by simp
qed simp

lemma decodeFromRows_length:
  assumes "decodeFromRows (length rs) cs rs = Inr xs" "rs \<noteq> []"
  shows "xs = map2 set_raw cs rs" "length cs = length rs" "xs \<noteq> []" "length xs = length rs"
  using assms by (auto simp: decodeFromRows_def zip_eq_Nil_iff split: if_splits)

text \<open>C3: The text \<open>WriteToBuffer\<close> writes for a row determines every cell of it, NULLs included, and
  where the row ends: for the receivers of one table, if two rows decoded by \<open>decodeFromRows\<close> are written
  with the same bytes, each followed by anything, they have the same cells and the same text follows,
  whatever bytes (quotes, commas, parentheses, backslashes) their string and binary cells hold. The
  only condition is on numeric columns, whose text must be one bare token.\<close>

theorem row_text_determines_cells:
  assumes "rs \<noteq> []"
    and xs: "decodeFromRows (length rs) cs rs = Inr xs" "list_all bare_ok xs"
    and ys: "decodeFromRows (length rs) ds rs = Inr ys" "list_all bare_ok ys"
    and eq: "WriteToBuffer xs eb @ t = WriteToBuffer ys eb @ u"
  shows "cs = ds \<and> t = u"
proof -
  note x = decodeFromRows_length [OF xs(1) assms(1)] and y = decodeFromRows_length [OF ys(1) assms(1)]
  have "map lex_of xs = map lex_of ys \<and> t = u"
    using scan_row_WriteToBuffer [OF x(3) xs(2), of eb t] scan_row_WriteToBuffer [OF y(3) ys(2), of eb u]
    unfolding eq by simp
  then show ?thesis
    using map2_set_raw_inj [of "\<lambda>_. True" lex_of cs rs ds, OF lex_of_inj]
    by (simp add: x(1,2) y(1,2) list_all_iff)
qed

theorem row_text_determines_cells_witness:
  "let rs = MakeRowReceiver id [''int4'', ''text'', ''bytea''] (mysqlDialect ''mysql'');
       xs = map2 set_raw [Some ''7'', Some [SQ, CHR '')'', CHR '','', BS], None] rs
   in \<forall>t u. WriteToBuffer xs False @ t \<noteq> WriteToBuffer (map2 set_raw [Some ''7'', Some [SQ], None] rs) False @ u"
proof -
  define rs where "rs = MakeRowReceiver id [''int4'', ''text'', ''bytea''] (mysqlDialect ''mysql'')"
  have rs: "rs = [SQLTypeNumber None, SQLTypeString None, SQLTypeBytes None (Some (mysqlDialect ''mysql''))]"
    unfolding rs_def by code_simp
  define cs where "cs = [Some ''7'', Some [SQ, CHR '')'', CHR '','', BS], None]"
  define ds where "ds = [Some ''7'', Some [SQ], None :: raw_bytes]"
  have c: "decodeFromRows (length rs) cs rs = Inr (map2 set_raw cs rs)" "list_all bare_ok (map2 set_raw cs rs)"
    by (simp_all add: rs cs_def decodeFromRows_def plain_char_def nullValue_def)
  have d: "decodeFromRows (length rs) ds rs = Inr (map2 set_raw ds rs)" "list_all bare_ok (map2 set_raw ds rs)"
    by (simp_all add: rs ds_def decodeFromRows_def plain_char_def nullValue_def)
  have "rs \<noteq> []" "cs \<noteq> ds" by (simp_all add: rs cs_def ds_def)
  with row_text_determines_cells [OF _ c d, of False] show ?thesis
    unfolding Let_def rs_def [symmetric] cs_def [symmetric] ds_def [symmetric] by blast
qed

subsection \<open>Where the row text is not what the loader reads\<close>

text \<open>
  MySQL's reading of a string literal in its default mode: a backslash takes the next byte with it, and the
  pair stands for a control character, for itself (\<open>%\<close> and \<open>_\<close>), or else for that byte.
\<close>

definition mysql_escape :: "char \<Rightarrow> string" where
  "mysql_escape c =
     (if c = CHR ''0'' then [CHR 0x00] else if c = CHR ''b'' then [CHR 0x08] else if c = CHR ''n'' then [NL]
      else if c = CHR ''r'' then [CR] else if c = CHR ''t'' then [CHR 0x09] else if c = CHR ''Z'' then [CHR 0x1A]
      else if c = CHR ''%'' \<or> c = CHR ''_'' then [BS, c] else [c])"

fun scan_body_bs :: "char \<Rightarrow> string \<Rightarrow> (string \<times> string) option" where
  "scan_body_bs q [] = None"
| "scan_body_bs q (c # cs) =
     (if c = BS then (case cs of [] \<Rightarrow> None | d # ds \<Rightarrow> map_option (apfst (append (mysql_escape d))) (scan_body_bs q ds))
      else if c = q
      then (case cs of
              [] \<Rightarrow> Some ([], [])
            | d # ds \<Rightarrow> if d = q then map_option (apfst (Cons q)) (scan_body_bs q ds) else Some ([], cs))
      else map_option (apfst (Cons c)) (scan_body_bs q cs))"

definition scan_quoted_bs :: "char \<Rightarrow> string \<Rightarrow> (string \<times> string) option" where
  "scan_quoted_bs q s = (case s of [] \<Rightarrow> None | c # cs \<Rightarrow> if c = q then scan_body_bs q cs else None)"

text \<open>The strings that reading leaves alone: every backslash stands before a percent sign or an underscore.\<close>

fun bs_kept :: "string \<Rightarrow> bool" where
  "bs_kept [] = True"
| "bs_kept [c] = (c \<noteq> BS)"
| "bs_kept (c # d # s) = (if c = BS then (d = CHR ''%'' \<or> d = CHR ''_'') \<and> bs_kept s else bs_kept (d # s))"

lemma mysql_escape_cases:
  "c = CHR ''%'' \<or> c = CHR ''_'' \<Longrightarrow> mysql_escape c = [BS, c]"
  "\<not> (c = CHR ''%'' \<or> c = CHR ''_'') \<Longrightarrow> c \<noteq> BS \<Longrightarrow> \<exists>e. mysql_escape c = [e] \<and> e \<noteq> BS"
  "mysql_escape BS = [BS]"
  by (auto simp: mysql_escape_def)

text \<open>The quotes in what is read off, each but the last in a pair, bound the length of the value.\<close>

definition plain_quote :: "char \<Rightarrow> bool" where
  "plain_quote q \<longleftrightarrow> q \<noteq> BS \<and> q \<noteq> CHR ''%'' \<and> q \<noteq> CHR ''_''"

definition paired :: "char \<Rightarrow> string \<Rightarrow> string \<Rightarrow> bool" where
  "paired q used v \<longleftrightarrow> count_list used q + 2 * length v + 1 \<le> 2 * length used"

lemma paired_grow:
  "paired q used v \<Longrightarrow> c \<noteq> q \<Longrightarrow> paired q (c # used) (e # v)"
  "paired q used v \<Longrightarrow> paired q (c # d # used) (e # v)"
  "paired q used v \<Longrightarrow> c \<noteq> q \<Longrightarrow> d \<noteq> q \<Longrightarrow> paired q (c # d # used) (e # e' # v)"
  by (auto simp: paired_def)

lemma mysql_escape_paired: "paired q used v \<Longrightarrow> plain_quote q \<Longrightarrow> paired q (BS # d # used) (mysql_escape d @ v)"
proof (cases "d = CHR ''%'' \<or> d = CHR ''_''")
  case True
  then show "paired q used v \<Longrightarrow> plain_quote q \<Longrightarrow> paired q (BS # d # used) (mysql_escape d @ v)"
    using paired_grow(3) [of q used v BS d BS d] mysql_escape_cases(1) [OF True] by (auto simp: plain_quote_def)
next
  case False
  then have "\<exists>e. mysql_escape d = [e]" using mysql_escape_cases(2,3) by metis
  then show "paired q used v \<Longrightarrow> plain_quote q \<Longrightarrow> paired q (BS # d # used) (mysql_escape d @ v)"
    using paired_grow(2) by auto
qed

lemma scan_body_bs_length:
  assumes "scan_body_bs q t = Some (v, r)" "plain_quote q"
  shows "\<exists>used. t = used @ r \<and> paired q used v"
  using assms
proof (induction q t arbitrary: v rule: scan_body_bs.induct)
  case (2 q c cs)
  consider (bs) d ds where "c = BS" "cs = d # ds" | (close) "c = q" "c \<noteq> BS" "cs = [] \<or> hd cs \<noteq> q"
    | (quote) ds where "c = q" "c \<noteq> BS" "cs = q # ds" | (plain) "c \<noteq> q" "c \<noteq> BS"
    using 2(4) by (cases cs) (auto split: if_splits)
  then show ?case
  proof cases
    case bs
    then obtain v' where v': "scan_body_bs q ds = Some (v', r)" "v = mysql_escape d @ v'" using 2(4) by auto
    then obtain used where "ds = used @ r" "paired q used v'" using 2(1) [of d ds v'] bs 2(5) by auto
    then show ?thesis using bs v' 2(5) by (intro exI [of _ "BS # d # used"]) (simp add: mysql_escape_paired)
  next
    case close
    then have "v = []" "r = cs" using 2(4) by (auto split: list.splits if_splits)
    then show ?thesis using close by (intro exI [of _ "[q]"]) (simp add: paired_def)
  next
    case quote
    then obtain v' where v': "scan_body_bs q ds = Some (v', r)" "v = q # v'" using 2(4) by auto
    then obtain used where "ds = used @ r" "paired q used v'" using 2(2) [of q ds v'] quote 2(5) by auto
    then show ?thesis using quote v' by (intro exI [of _ "q # q # used"]) (simp add: paired_grow)
  next
    case plain
    then obtain v' where v': "scan_body_bs q cs = Some (v', r)" "v = c # v'" using 2(4) by auto
    then obtain used where "cs = used @ r" "paired q used v'" using 2(3) [of v'] plain 2(5) by auto
    then show ?thesis using plain v' by (intro exI [of _ "c # used"]) (simp add: paired_grow)
  qed
qed simp

lemma double_char_counts: "length (double_char q s) = length s + count_list s q" "count_list (double_char q s) q = 2 * count_list s q"
  by (induction s) simp_all

lemma scan_double_length:
  assumes "scan_body_bs q (double_char q s @ q # r) = Some (v, r)" "plain_quote q"
  shows "length v \<le> length s"
proof -
  from scan_body_bs_length [OF assms] obtain used where "double_char q s @ q # r = used @ r"
    and le: "paired q used v" by blast
  then have "used = double_char q s @ [q]" by (metis append.assoc append_Cons append_Nil append_same_eq)
  then show ?thesis using le by (simp add: paired_def double_char_counts)
qed

lemma scan_body_bs_iff:
  assumes "plain_quote q" "not_starting q r"
  shows "scan_body_bs q (double_char q s @ q # r) = Some (s, r) \<longleftrightarrow> bs_kept s"
proof (induction s rule: bs_kept.induct)
  case 1
  show ?case using assms by (cases r) (auto simp: plain_quote_def)
next
  case (2 c)
  have "scan_body_bs q [q] = Some ([], [])" using assms by (simp add: plain_quote_def)
  then show ?case using assms mysql_escape_cases(2) [of q]
    by (cases r) (auto simp: plain_quote_def split: if_splits)
next
  case (3 c d s)
  show ?case
  proof (cases "c = BS")
    case False
    then show ?thesis using 3(2) assms by (auto simp: plain_quote_def simp del: double_char_simps(2) simp: double_char_simps(2) [of q c])
  next
    case True
    let ?t = "double_char q (d # s) @ q # r"
    have "?t = hd ?t # tl ?t" by simp
    have "scan_body_bs q (double_char q (c # d # s) @ q # r) =
        map_option (apfst (append (mysql_escape (hd ?t)))) (scan_body_bs q (tl ?t))"
      using True assms(1) by (auto simp: plain_quote_def)
    moreover have "hd ?t = d" by simp
    ultimately have run: "scan_body_bs q (double_char q (c # d # s) @ q # r) =
        map_option (apfst (append (mysql_escape d))) (scan_body_bs q (tl ?t))" by simp
    consider "d = CHR ''%'' \<or> d = CHR ''_''" | "d = BS" | "\<not> (d = CHR ''%'' \<or> d = CHR ''_'')" "d \<noteq> BS" by blast
    then show ?thesis
    proof cases
      case 1
      then have "tl ?t = double_char q s @ q # r" using assms(1) by (auto simp: plain_quote_def)
      then show ?thesis using 3(1) [OF True] True 1 run by (auto simp: mysql_escape_cases)
    next
      case 2
      then have "tl ?t = double_char q s @ q # r" using assms(1) by (auto simp: plain_quote_def)
      moreover have "scan_body_bs q (double_char q s @ q # r) \<noteq> Some (BS # s, r)"
        using scan_double_length [of q s r "BS # s"] assms(1) by auto
      ultimately show ?thesis using True 2 run by (auto simp: mysql_escape_cases)
    next
      case 3
      from mysql_escape_cases(2) [OF this] obtain e where "mysql_escape d = [e]" "e \<noteq> BS" by blast
      then show ?thesis using True 3 run by auto
    qed
  qed
qed

lemma scan_body_bs_prefix:
  "BS \<notin> set s \<Longrightarrow> q \<noteq> BS \<Longrightarrow> scan_body_bs q (double_char q s @ t) = map_option (apfst (append s)) (scan_body_bs q t)"
  by (induction s) (auto simp: option.map_comp o_def apfst_def map_prod_def split_def option.map_ident)




section \<open>Reading a CSV row back\<close>

datatype csv_cell = CQuoted bytes | CBare bytes

text \<open>
  A CSV reader for a one-byte delimiter \<open>d\<close>, where \<open>a\<close> and \<open>b\<close> are the first bytes of the separator
  and of the line terminator.
\<close>

fun enc_cell :: "char \<Rightarrow> csv_cell \<Rightarrow> string" where
  "enc_cell d (CQuoted s) = d # double_char d s @ [d]"
| "enc_cell d (CBare s) = s"

definition dec_cell :: "char \<Rightarrow> char \<Rightarrow> char \<Rightarrow> string \<Rightarrow> (csv_cell \<times> string) option" where
  "dec_cell d a b s =
     (if not_starting d s
      then Some (CBare (takeWhile (\<lambda>c. c \<noteq> a \<and> c \<noteq> b) s), dropWhile (\<lambda>c. c \<noteq> a \<and> c \<noteq> b) s)
      else map_option (apfst CQuoted) (scan_quoted d s))"

fun ok_cell :: "char \<Rightarrow> char \<Rightarrow> char \<Rightarrow> csv_cell \<Rightarrow> bool" where
  "ok_cell d a b (CBare s) = (not_starting d s \<and> list_all (\<lambda>c. c \<noteq> a \<and> c \<noteq> b) s)"
| "ok_cell d a b (CQuoted s) = True"

definition cell_stop :: "char \<Rightarrow> char \<Rightarrow> char \<Rightarrow> string \<Rightarrow> bool" where
  "cell_stop d a b r \<longleftrightarrow> not_starting d r \<and> (case r of [] \<Rightarrow> True | c # _ \<Rightarrow> c = a \<or> c = b)"

interpretation csv_cell: token_codec "enc_cell d" "dec_cell d a b" "ok_cell d a b" "cell_stop d a b"
  for d a b
proof
  fix x r
  assume ok: "ok_cell d a b x" and r: "cell_stop d a b r"
  show "dec_cell d a b (enc_cell d x @ r) = Some (x, r)"
  proof (cases x)
    case (CQuoted s)
    with r show ?thesis by (simp add: dec_cell_def cell_stop_def scan_quoted_double)
  next
    case (CBare s)
    then have "not_starting d (s @ r)"
      using ok r by (cases s) (auto simp: cell_stop_def)
    moreover have "takeWhile (\<lambda>c. c \<noteq> a \<and> c \<noteq> b) (s @ r) = s \<and> dropWhile (\<lambda>c. c \<noteq> a \<and> c \<noteq> b) (s @ r) = r"
      using ok r CBare by (intro takeWhile_stop) (auto simp: cell_stop_def split: list.splits)
    ultimately show ?thesis using CBare by (simp add: dec_cell_def)
  qed
qed

text \<open>What the CSV writer means for each receiver: NULL is the bare null marker.\<close>

fun cell_of :: "csvOption \<Rightarrow> RowReceiverStringer \<Rightarrow> csv_cell" where
  "cell_of opt (SQLTypeNumber raw) = (case raw of None \<Rightarrow> CBare (csv_nullValue opt) | Some b \<Rightarrow> CBare b)"
| "cell_of opt (SQLTypeString raw) = (case raw of None \<Rightarrow> CBare (csv_nullValue opt) | Some b \<Rightarrow> CQuoted b)"
| "cell_of opt (SQLTypeBytes raw d) =
     (case raw of
        None \<Rightarrow> CBare (csv_nullValue opt)
      | Some b \<Rightarrow> CQuoted (case csv_binaryFormat opt of
                               BinaryFormatHEX \<Rightarrow> fmt_x b
                             | BinaryFormatBase64 \<Rightarrow> base64 b
                             | BinaryFormatUTF8 \<Rightarrow> b))"

text \<open>A delimiter that is no letter, digit or base64 sign, as the default double quote.\<close>

definition delim_ok :: "char \<Rightarrow> bool" where
  "delim_ok d \<longleftrightarrow> list_all (\<lambda>n. base64_digit n \<noteq> d) [0..<64] \<and> d \<noteq> CHR ''=''"

lemma base64_digit_delim: "delim_ok d \<Longrightarrow> n < 64 \<Longrightarrow> d \<noteq> base64_digit n"
  by (auto simp: delim_ok_def list_all_iff)

lemma hex_lower_base64: "n < 16 \<Longrightarrow> \<exists>m<64. hex_lower n = base64_digit m"
  by (rule exI [of _ "if n < 10 then 52 + n else 16 + n"])
    (auto simp: hex_lower_def base64_digit_def)

lemma hex_lower_delim: "delim_ok d \<Longrightarrow> n < 16 \<Longrightarrow> d \<noteq> hex_lower n"
  using base64_digit_delim hex_lower_base64 by metis

lemma fmt_x_delim: "delim_ok d \<Longrightarrow> d \<notin> set (fmt_x b)"
  by (induction b) (simp_all add: fmt_x_def fmt_02x_def hex_lower_delim)

lemma sextet_bounds:
  "byte a div 4 < 64" "(byte a mod 4) * 16 + byte b div 16 < 64"
  "(byte b mod 16) * 4 + byte c div 64 < 64" "(byte a mod 4) * 16 < 64" "(byte b mod 16) * 4 < 64"
proof -
  have "byte a mod 4 < 4" "byte b div 16 < 16" "byte b mod 16 < 16" by simp_all
  moreover have "byte c div 64 < 4" "byte a div 4 < 64" by (simp_all add: div_less_iff_less_mult)
  ultimately show "byte a div 4 < 64" "(byte a mod 4) * 16 + byte b div 16 < 64"
    "(byte b mod 16) * 4 + byte c div 64 < 64" "(byte a mod 4) * 16 < 64" "(byte b mod 16) * 4 < 64"
    by linarith+
qed

lemma base64_delim: "delim_ok d \<Longrightarrow> d \<notin> set (base64 b)"
  by (induction b rule: base64.induct)
    (simp_all add: base64_digit_delim sextet_bounds, simp_all add: delim_ok_def)

lemma WriteToBufferInCsv1_cell:
  assumes "csv_delimiter opt = [d]" "delim_ok d"
  shows "WriteToBufferInCsv1 r eb opt = enc_cell d (cell_of opt r)"
  using assms(1) fmt_x_delim [OF assms(2)] base64_delim [OF assms(2)]
  by (cases r) (auto simp: escapeCSV_def replace_all_double double_char_absent
      split: option.splits BinaryFormat.splits)

subsection \<open>A CSV cell determines the value\<close>

lemma base64_digit_inj: "m < 64 \<Longrightarrow> n < 64 \<Longrightarrow> base64_digit m = base64_digit n \<longleftrightarrow> m = n"
proof -
  assume m: "m < 64" and n: "n < 64"
  have "byte (base64_digit k) =
      (if k < 26 then 65 + k else if k < 52 then 71 + k else if k < 62 then k - 4 else if k = 62 then 43 else 47)"
    if "k < 64" for k
    using that by (auto simp: base64_digit_def)
  with m n have "byte (base64_digit m) = byte (base64_digit n) \<Longrightarrow> m = n"
    by (auto split: if_splits)
  then show "base64_digit m = base64_digit n \<longleftrightarrow> m = n" by auto
qed

lemma base64_digit_not_pad: "n < 64 \<Longrightarrow> base64_digit n \<noteq> CHR ''=''"
proof -
  assume "n < 64"
  then have "byte (base64_digit n) \<noteq> 61" by (auto simp: base64_digit_def)
  then show ?thesis by auto
qed

lemma mult_add_unique:
  fixes k :: nat
  assumes "x * k + u = y * k + v" "u < k" "v < k"
  shows "x = y \<and> u = v"
proof -
  have "(x * k + u) div k = x" "(y * k + v) div k = y" "(x * k + u) mod k = u" "(y * k + v) mod k = v"
    using assms(2,3) by simp_all
  with assms(1) show ?thesis by simp
qed

lemma byte_div_mod_unique: "byte a div k = byte b div k \<Longrightarrow> byte a mod k = byte b mod k \<Longrightarrow> a = b"
  by (metis div_mult_mod_eq of_char_eq_iff)

lemma byte_split:
  assumes "byte a div m = byte b div m" "byte a mod m * k + u = byte b mod m * k + v" "u < k" "v < k"
  shows "a = b \<and> u = v"
  using mult_add_unique [OF assms(2-4)] byte_div_mod_unique [OF assms(1)] by simp

lemmas base64_digit_simps = base64_digit_inj sextet_bounds base64_digit_not_pad
  base64_digit_not_pad [THEN not_sym]

lemma base64_inj: "base64 s = base64 t \<Longrightarrow> s = t"
proof (induction s arbitrary: t rule: base64.induct)
  case (1 a b c r)
  then obtain a' b' c' r' where t: "t = a' # b' # c' # r'"
    by (cases t rule: base64.cases) (auto simp: base64_digit_simps)
  with 1 have e: "byte a div 4 = byte a' div 4"
      "byte a mod 4 * 16 + byte b div 16 = byte a' mod 4 * 16 + byte b' div 16"
      "byte b mod 16 * 4 + byte c div 64 = byte b' mod 16 * 4 + byte c' div 64"
      "byte c mod 64 = byte c' mod 64" "r = r'"
    by (simp_all add: base64_digit_simps)
  have a: "a = a' \<and> byte b div 16 = byte b' div 16"
    by (rule byte_split [OF e(1,2)]) simp_all
  then have "b = b' \<and> byte c div 64 = byte c' div 64"
    by (intro byte_split [OF _ e(3)]) (simp_all add: div_less_iff_less_mult)
  with a e t byte_div_mod_unique [of c 64 c'] show ?case by simp
next
  case (2 a b)
  then obtain a' b' where t: "t = [a', b']"
    by (cases t rule: base64.cases) (auto simp: base64_digit_simps)
  with 2 have e: "byte a div 4 = byte a' div 4"
      "byte a mod 4 * 16 + byte b div 16 = byte a' mod 4 * 16 + byte b' div 16"
      "byte b mod 16 = byte b' mod 16"
    by (simp_all add: base64_digit_simps)
  have "a = a' \<and> byte b div 16 = byte b' div 16"
    by (rule byte_split [OF e(1,2)]) simp_all
  with e t byte_div_mod_unique [of b 16 b'] show ?case by simp
next
  case (3 a)
  then show ?case
    by (cases t rule: base64.cases) (auto simp: base64_digit_simps intro: byte_div_mod_unique)
next
  case 4
  then show ?case by (cases t rule: base64.cases) auto
qed

lemma cell_of_inj:
  assumes "cell_of opt (set_raw v r) = cell_of opt (set_raw w r)"
    and "\<And>u. r = SQLTypeNumber u \<Longrightarrow> v \<noteq> Some (csv_nullValue opt) \<and> w \<noteq> Some (csv_nullValue opt)"
  shows "v = w"
  using assms by (cases r) (auto split: option.splits BinaryFormat.splits dest: base64_inj)

text \<open>The shape of the options under which a CSV row is unambiguous; the defaults have it.\<close>

definition csv_wf :: "csvOption \<Rightarrow> bool" where
  "csv_wf opt \<longleftrightarrow>
     (case (csv_delimiter opt, csv_separator opt, csv_lineTerminator opt) of
        ([d], a # _, b # _) \<Rightarrow>
          delim_ok d \<and> d \<noteq> a \<and> d \<noteq> b \<and> a \<noteq> b \<and> ok_cell d a b (CBare (csv_nullValue opt))
      | _ \<Rightarrow> False)"

fun csv_bare_ok :: "csvOption \<Rightarrow> RowReceiverStringer \<Rightarrow> bool" where
  "csv_bare_ok opt (SQLTypeNumber (Some s)) =
     (s \<noteq> csv_nullValue opt \<and>
      ok_cell (hd (csv_delimiter opt)) (hd (csv_separator opt)) (hd (csv_lineTerminator opt)) (CBare s))"
| "csv_bare_ok opt _ = True"

lemma csv_wfE:
  assumes "csv_wf opt"
  obtains d a b sep' tm' where "csv_delimiter opt = [d]" "csv_separator opt = a # sep'"
    "csv_lineTerminator opt = b # tm'" "delim_ok d" "d \<noteq> a" "d \<noteq> b" "a \<noteq> b"
    "ok_cell d a b (CBare (csv_nullValue opt))"
  using assms by (auto simp: csv_wf_def split: list.splits prod.splits)

lemma csv_row_scan:
  assumes wf: "csv_wf opt" and rs: "rs \<noteq> []" "list_all (csv_bare_ok opt) rs" "length rs \<le> n"
  shows "scan_list (dec_cell (hd (csv_delimiter opt)) (hd (csv_separator opt)) (hd (csv_lineTerminator opt)))
      (csv_separator opt) n (WriteToBufferInCsv rs eb opt @ csv_lineTerminator opt @ t)
    = Some (map (cell_of opt) rs, csv_lineTerminator opt @ t)"
proof -
  from wf obtain d a b sep' tm' where opts: "csv_delimiter opt = [d]" "csv_separator opt = a # sep'"
      "csv_lineTerminator opt = b # tm'" "delim_ok d" "d \<noteq> a" "d \<noteq> b" "a \<noteq> b"
      "ok_cell d a b (CBare (csv_nullValue opt))"
    by (rule csv_wfE)
  have row_eq: "WriteToBufferInCsv rs eb opt = join (csv_separator opt) (map (enc_cell d) (map (cell_of opt) rs))"
    by (simp add: WriteToBufferInCsv_def WriteToBufferInCsv1_cell [OF opts(1,4)] o_def)
  have "ok_cell d a b (cell_of opt r)" if "csv_bare_ok opt r" for r
    using that opts by (cases r) (auto split: option.splits)
  then have "list_all (ok_cell d a b) (map (cell_of opt) rs)"
    using rs(2) by (auto simp: list_all_iff)
  then have "scan_list (dec_cell d a b) (csv_separator opt) n
      (join (csv_separator opt) (map (enc_cell d) (map (cell_of opt) rs)) @ csv_lineTerminator opt @ t)
    = Some (map (cell_of opt) rs, csv_lineTerminator opt @ t)"
    by (intro csv_cell.scan_list_join) (use opts rs in \<open>auto simp: cell_stop_def\<close>)
  then show ?thesis by (simp add: row_eq opts)
qed

lemma csv_cell_inj:
  assumes "csv_bare_ok opt (set_raw v r)" "csv_bare_ok opt (set_raw w r)"
    and "cell_of opt (set_raw v r) = cell_of opt (set_raw w r)"
  shows "v = w"
  by (rule cell_of_inj [OF assms(3)]) (use assms(1,2) in \<open>cases v; cases w; auto\<close>)



end
