(* ===== verification/Table_Filter.thy ===== *)
theory Table_Filter
  imports Dialect "HOL-Library.AList"
begin

text \<open>
  The table and column filters (\<open>internal/table-filter\<close>): matchers, the parser of filter rules with
  its four scanning expressions, import of rule files, the filters built from rules, from lists of
  schemas or tables and from MySQL replication rules, and their case-insensitive forms.

  The regular expressions a user writes are compiled by Go's \<open>regexp\<close> package, which is the parameter
  \<open>re\<close>: it maps a pattern to an error or to the set of names the pattern matches. The four fixed
  expressions the parser itself uses are written out as the scanners they denote. The file system of
  \<open>@file\<close> rules is the parameter \<open>fs\<close>.

  The theorems: a schema is never pruned while one of its tables matches, for every filter; the last
  rule that matches a table decides; a quoted name is a rule that matches exactly that table.
\<close>

type_synonym regexp_engine = "string \<Rightarrow> error + (string \<Rightarrow> bool)"
type_synonym file_system = "string \<Rightarrow> error + bytes"

section \<open>Matchers\<close>

datatype matcher = stringMatcher string | trueMatcher | regexpMatcher string

record tableRule =
  tr_schema :: matcher
  tr_table :: matcher
  tr_positive :: bool

record columnRule =
  cr_column :: matcher
  cr_positive :: bool

fun matchString :: "regexp_engine \<Rightarrow> matcher \<Rightarrow> string \<Rightarrow> bool" where
  "matchString re (stringMatcher m) name = (m = name)"
| "matchString re trueMatcher name = True"
| "matchString re (regexpMatcher pat) name = (case re pat of Inl _ \<Rightarrow> False | Inr f \<Rightarrow> f name)"

fun matchAllStrings :: "matcher \<Rightarrow> bool" where
  "matchAllStrings (stringMatcher _) = False"
| "matchAllStrings trueMatcher = True"
| "matchAllStrings (regexpMatcher _) = False"

definition newRegexpMatcher :: "regexp_engine \<Rightarrow> string \<Rightarrow> error + matcher" where
  "newRegexpMatcher re pat =
     (if pat = ''(?s)^.*$'' then Inr trueMatcher
      else (case re pat of Inl e \<Rightarrow> Inl e | Inr _ \<Rightarrow> Inr (regexpMatcher pat)))"

text \<open>\<open>regexp.MustCompile\<close> panics when the pattern does not compile.\<close>

fun matcher_toLower :: "(string \<Rightarrow> string) \<Rightarrow> regexp_engine \<Rightarrow> matcher \<Rightarrow> error + matcher" where
  "matcher_toLower uni re (stringMatcher m) = Inr (stringMatcher (ToLower uni m))"
| "matcher_toLower uni re trueMatcher = Inr trueMatcher"
| "matcher_toLower uni re (regexpMatcher pat) =
     (case re (''(?i)'' @ pat) of
        Inl _ \<Rightarrow> Inl (Panic ''regexp: Compile'')
      | Inr _ \<Rightarrow> Inr (regexpMatcher (''(?i)'' @ pat)))"

section \<open>The scanning expressions\<close>

text \<open>
  Each scanner is a Go regular expression anchored at the start, with Go's preference for the first
  alternative and for more repetitions; it returns what follows the match. \<open>regexp_items\<close> is
  \<open>(?:\\.|[^/])*/\<close>, and the expression itself asks for at least one item.
\<close>

fun regexp_items :: "string \<Rightarrow> string option" where
  "regexp_items [] = None"
| "regexp_items [c] = (if c = CHR ''/'' then Some [] else None)"
| "regexp_items (c # d # ds) =
     (case (if c = BS \<and> d \<noteq> NL then regexp_items ds else None) of
        Some r \<Rightarrow> Some r
      | None \<Rightarrow>
          (case (if c \<noteq> CHR ''/'' then regexp_items (d # ds) else None) of
             Some r \<Rightarrow> Some r
           | None \<Rightarrow> if c = CHR ''/'' then Some (d # ds) else None))"

definition regexpRegexp :: "string \<Rightarrow> string option" where
  "regexpRegexp line =
     (case line of
        s # c # cs \<Rightarrow>
          if s \<noteq> CHR ''/'' then None
          else (case (if c = BS \<and> cs \<noteq> [] \<and> hd cs \<noteq> NL then regexp_items (tl cs) else None) of
                  Some r \<Rightarrow> Some r
                | None \<Rightarrow> if c \<noteq> CHR ''/'' then regexp_items cs else None)
      | _ \<Rightarrow> None)"

text \<open>\<open>(?:qq|[^q])*q\<close> for a quote \<open>q\<close>.\<close>

fun quoted_items :: "char \<Rightarrow> string \<Rightarrow> string option" where
  "quoted_items q [] = None"
| "quoted_items q [c] = (if c = q then Some [] else None)"
| "quoted_items q (c # d # ds) =
     (if c \<noteq> q then quoted_items q (d # ds)
      else (case (if d = q then quoted_items q ds else None) of
              Some r \<Rightarrow> Some r
            | None \<Rightarrow> Some (d # ds)))"

definition quotedRegexp :: "char \<Rightarrow> string \<Rightarrow> string option" where
  "quotedRegexp q line =
     (case line of
        s # c # cs \<Rightarrow>
          if s \<noteq> q then None
          else if c \<noteq> q then quoted_items q cs
          else if cs \<noteq> [] \<and> hd cs = q then quoted_items q (tl cs) else None
      | _ \<Rightarrow> None)"

definition isASCIIAlphanumeric :: "char \<Rightarrow> bool" where
  "isASCIIAlphanumeric c \<longleftrightarrow>
     (48 \<le> byte c \<and> byte c \<le> 57) \<or> (97 \<le> byte c \<and> byte c \<le> 122) \<or> (65 \<le> byte c \<and> byte c \<le> 90)"

text \<open>\<open>(?:\\[^0-9a-zA-Z]|[^\\\]])*\]\<close>; the whole expression is \<open>\[!?\<close> and at least one item before it.\<close>

fun range_items :: "string \<Rightarrow> string option" where
  "range_items [] = None"
| "range_items [c] = (if c = CHR '']'' then Some [] else None)"
| "range_items (c # d # ds) =
     (if c = BS then (if isASCIIAlphanumeric d then None else range_items ds)
      else if c = CHR '']'' then Some (d # ds)
      else range_items (d # ds))"

definition range_items1 :: "string \<Rightarrow> string option" where
  "range_items1 s = (case s of c # _ \<Rightarrow> if c = CHR '']'' then None else range_items s | [] \<Rightarrow> None)"

definition wildcardRangeRegexp :: "string \<Rightarrow> string option" where
  "wildcardRangeRegexp line =
     (case line of
        s # cs \<Rightarrow>
          if s \<noteq> CHR ''['' then None
          else (case (if cs \<noteq> [] \<and> hd cs = CHR ''!'' then range_items1 (tl cs) else None) of
                  Some r \<Rightarrow> Some r
                | None \<Rightarrow> range_items1 cs)
      | [] \<Rightarrow> None)"

lemma range_items_length: "range_items s = Some r \<Longrightarrow> length r < length s"
  by (induction s rule: range_items.induct) (auto split: if_splits)

lemma range_items1_length: "range_items1 s = Some r \<Longrightarrow> length r < length s"
  by (cases s) (auto simp: range_items1_def dest: range_items_length split: if_splits)

lemma wildcardRangeRegexp_length: "wildcardRangeRegexp s = Some r \<Longrightarrow> length r < length s"
proof (cases s)
  case (Cons c cs)
  assume "wildcardRangeRegexp s = Some r"
  with Cons have "range_items1 cs = Some r \<or> range_items1 (tl cs) = Some r"
    by (auto simp: wildcardRangeRegexp_def split: if_splits option.splits)
  then have "length r < length cs \<or> length r < length (tl cs)"
    using range_items1_length by blast
  with Cons show ?thesis by auto
qed (simp add: wildcardRangeRegexp_def)

section \<open>Parsing patterns\<close>

record matcherParser =
  mp_fileName :: string
  mp_lineNum :: nat

definition wrapErrorFormat :: "matcherParser \<Rightarrow> string \<Rightarrow> string" where
  "wrapErrorFormat p format =
     ''at '' @ replace_all ''%'' ''%%'' (mp_fileName p) @ '':'' @ fmt_nat (mp_lineNum p) @ '': '' @ format"

definition mp_errorf :: "matcherParser \<Rightarrow> string \<Rightarrow> string list \<Rightarrow> error" where
  "mp_errorf p format args = Errorf (wrapErrorFormat p format) args"

definition mp_annotatef :: "matcherParser \<Rightarrow> error \<Rightarrow> string \<Rightarrow> string list \<Rightarrow> error" where
  "mp_annotatef p err format args = Annotatef err (wrapErrorFormat p format) args"

definition mp_newRegexpMatcher :: "regexp_engine \<Rightarrow> matcherParser \<Rightarrow> string \<Rightarrow> error + matcher" where
  "mp_newRegexpMatcher re p pat =
     (case newRegexpMatcher re pat of
        Inl e \<Rightarrow> Inl (mp_annotatef p e ''invalid pattern'' [])
      | Inr m \<Rightarrow> Inr m)"

text \<open>The \<open>parseLoop\<close> of \<open>parseWildcardPattern\<close>: the two builders, the flag, and the rest of the line.\<close>

function (sequential) wildcard_loop ::
  "matcherParser \<Rightarrow> bool \<Rightarrow> string \<Rightarrow> string \<Rightarrow> bool \<Rightarrow> string \<Rightarrow> error + string \<times> string \<times> bool \<times> string"
where
  "wildcard_loop p dot lit pat isLit [] = Inr (lit, pat, isLit, [])"
| "wildcard_loop p dot lit pat isLit (c # cs) =
     (if c = BS then
        (case cs of
           [] \<Rightarrow> Inl (mp_errorf p (''syntax error: cannot place '' @ [BS] @ '' at end of line'') [])
         | esc # r \<Rightarrow>
             if isASCIIAlphanumeric esc
             then Inl (mp_errorf p (''cannot escape a letter or number ('' @ [BS] @
                         ''%c), it is reserved for future extension'') [[esc]])
             else wildcard_loop p dot (if isLit then lit @ [esc] else lit)
                    (pat @ (if byte esc < 0x80 then [BS] else []) @ [esc]) isLit r)
      else if c = CHR ''.'' then
        (if dot then Inr (lit, pat, isLit, c # cs)
         else Inl (mp_errorf p (''unexpected special character '' @ [SQ] @ ''%c'' @ [SQ]) [[c]]))
      else if c = CHR ''*'' then wildcard_loop p dot lit (pat @ ''.*'') False cs
      else if c = CHR ''?'' then wildcard_loop p dot lit (pat @ ''.'') False cs
      else if c = CHR ''['' then
        (case wildcardRangeRegexp (c # cs) of
           None \<Rightarrow> Inl (mp_errorf p ''syntax error: failed to parse character class'' [])
         | Some r \<Rightarrow>
             let seg = take (length (c # cs) - length r) (c # cs);
                 cls = (if hd cs = CHR ''!'' then ''[^'' @ drop 2 seg
                        else if hd cs = CHR ''^'' then ''['' @ [BS] @ ''^'' @ drop 2 seg
                        else seg)
             in wildcard_loop p dot lit (pat @ cls) False r)
      else if \<not> (c = CHR ''$'' \<or> c = CHR ''_'' \<or> isASCIIAlphanumeric c \<or> 0x80 \<le> byte c)
        then Inl (mp_errorf p (''unexpected special character '' @ [SQ] @ ''%c'' @ [SQ]) [[c]])
      else wildcard_loop p dot (lit @ [c]) (pat @ [c]) isLit cs)"
  by pat_completeness auto
termination
  by (relation "measure (\<lambda>(_, _, _, _, _, s). length s)") (auto dest: wildcardRangeRegexp_length)

definition parseWildcardPattern ::
  "regexp_engine \<Rightarrow> matcherParser \<Rightarrow> string \<Rightarrow> bool \<Rightarrow> error + matcher \<times> string" where
  "parseWildcardPattern re p line needsDotSeparator =
     bindR (wildcard_loop p needsDotSeparator [] ''(?s)^'' True line) (\<lambda>(lit, pat, isLit, rest).
       if isLit then Inr (stringMatcher lit, rest)
       else bindR (mp_newRegexpMatcher re p (pat @ ''$'')) (\<lambda>m. Inr (m, rest)))"

text \<open>The quoted branches: the body between the quotes, a doubled quote standing for one.\<close>

definition quoted_pattern :: "matcherParser \<Rightarrow> char \<Rightarrow> string \<Rightarrow> error + matcher \<times> string" where
  "quoted_pattern p q line =
     (case quotedRegexp q line of
        None \<Rightarrow> Inl (mp_errorf p ''syntax error: incomplete quoted identifier'' [])
      | Some rest \<Rightarrow>
          Inr (stringMatcher (replace_all [q, q] [q] (take (length line - length rest - 2) (tl line))), rest))"

definition parsePattern ::
  "regexp_engine \<Rightarrow> matcherParser \<Rightarrow> string \<Rightarrow> bool \<Rightarrow> error + matcher \<times> string" where
  "parsePattern re p line needsDotSeparator =
     (case line of
        [] \<Rightarrow> Inl (mp_errorf p ''syntax error: missing pattern'' [])
      | c # cs \<Rightarrow>
          if c = CHR ''/'' then
            (case regexpRegexp line of
               None \<Rightarrow> Inl (mp_errorf p ''syntax error: incomplete regexp'' [])
             | Some rest \<Rightarrow>
                 bindR (mp_newRegexpMatcher re p (take (length line - length rest - 2) cs)) (\<lambda>m.
                   Inr (m, rest)))
          else if c = DQ then quoted_pattern p DQ line
          else if c = BT then quoted_pattern p BT line
          else parseWildcardPattern re p line needsDotSeparator)"

section \<open>Parsing rules\<close>

text \<open>
  \<open>bufio.Scanner\<close> with its default split function: lines end at a line feed, a carriage return before
  it is dropped, a last line without a line feed counts unless it is empty, and a line that does not
  fit the 64 KiB buffer stops the scan with an error. The result is the lines delivered and the error.
\<close>

definition dropCR :: "string \<Rightarrow> string" where
  "dropCR s = (if s \<noteq> [] \<and> last s = CR then butlast s else s)"

lemma split2_rest: "(l, Some t) = split2 sep s \<Longrightarrow> length t < length s"
  by (induction s arbitrary: l) (auto split: if_splits prod.splits)

function scan_lines :: "bytes \<Rightarrow> string list \<times> error option" where
  "scan_lines s =
     (if s = [] then ([], None)
      else (case split2 NL s of
              (l, r) \<Rightarrow>
                if length l \<ge> 65536 then ([], Some (External ''bufio.Scanner: token too long''))
                else (case r of
                        None \<Rightarrow> ([dropCR l], None)
                      | Some t \<Rightarrow> apfst (Cons (dropCR l)) (scan_lines t))))"
  by pat_completeness auto
termination by (relation "measure length") (auto dest: split2_rest)

fun parse_lines ::
  "(matcherParser \<Rightarrow> string \<Rightarrow> error + 'r list) \<Rightarrow> matcherParser \<Rightarrow> string list \<Rightarrow> error + 'r list" where
  "parse_lines parseMatcher p [] = Inr []"
| "parse_lines parseMatcher p (l # ls) =
     bindR (parseMatcher p l) (\<lambda>rs.
     bindR (parse_lines parseMatcher (p\<lparr>mp_lineNum := mp_lineNum p + 1\<rparr>) ls) (\<lambda>rs'. Inr (rs @ rs')))"

definition importFile ::
  "file_system \<Rightarrow> matcherParser \<Rightarrow> string \<Rightarrow> (matcherParser \<Rightarrow> string \<Rightarrow> error + 'r list) \<Rightarrow> error + 'r list"
where
  "importFile fs p fileName parseMatcher =
     (case fs fileName of
        Inl e \<Rightarrow> Inl (mp_annotatef p e ''cannot open filter file'' [])
      | Inr content \<Rightarrow>
          (case scan_lines content of
             (ls, err) \<Rightarrow>
               bindR (parse_lines parseMatcher \<lparr>mp_fileName = fileName, mp_lineNum = 1\<rparr> ls) (\<lambda>rs.
                 case err of
                   Some e \<Rightarrow> Inl (mp_annotatef p e ''cannot read filter file'' [])
                 | None \<Rightarrow> Inr rs)))"

text \<open>The common shape of the two \<open>parse\<close> methods; \<open>body\<close> parses what follows an optional \<open>!\<close>.\<close>

definition parse_line ::
  "(matcherParser \<Rightarrow> bool \<Rightarrow> string \<Rightarrow> error + 'r list) \<Rightarrow> (matcherParser \<Rightarrow> string \<Rightarrow> error + 'r list)
    \<Rightarrow> matcherParser \<Rightarrow> string \<Rightarrow> error + 'r list" where
  "parse_line body import_rules p line0 =
     (case trim_set [CHR '' '', CHR 0x09] line0 of
        [] \<Rightarrow> Inr []
      | c # cs \<Rightarrow>
          if c = CHR ''#'' then Inr []
          else if c = CHR ''!'' then body p False cs
          else if c = CHR ''@'' then import_rules p cs
          else body p True (c # cs))"

definition no_import :: "matcherParser \<Rightarrow> string \<Rightarrow> error + 'r list" where
  "no_import p fileName = Inl (mp_errorf p ''importing filter files recursively is not allowed'' [])"

definition parse_table_rule ::
  "regexp_engine \<Rightarrow> matcherParser \<Rightarrow> bool \<Rightarrow> string \<Rightarrow> error + tableRule list" where
  "parse_table_rule re p positive line =
     bindR (parsePattern re p line True) (\<lambda>(sm, line1).
       if line1 = [] then Inl (mp_errorf p ''wrong table pattern'' [])
       else if hd line1 \<noteq> CHR ''.''
         then Inl (mp_errorf p (''syntax error: missing '' @ [SQ] @ ''.'' @ [SQ] @
                     '' between schema and table patterns'') [])
       else bindR (parsePattern re p (tl line1) True) (\<lambda>(tm, line2).
         if line2 \<noteq> [] then Inl (mp_errorf p ''syntax error: stray characters after table pattern'' [])
         else Inr [\<lparr>tr_schema = sm, tr_table = tm, tr_positive = positive\<rparr>]))"

definition tableRulesParser_parse ::
  "regexp_engine \<Rightarrow> file_system \<Rightarrow> bool \<Rightarrow> matcherParser \<Rightarrow> string \<Rightarrow> error + tableRule list" where
  "tableRulesParser_parse re fs canImport =
     parse_line (parse_table_rule re)
       (if canImport
        then (\<lambda>p name. importFile fs p name (parse_line (parse_table_rule re) no_import))
        else no_import)"

definition parse_column_rule ::
  "(string \<Rightarrow> string) \<Rightarrow> regexp_engine \<Rightarrow> matcherParser \<Rightarrow> bool \<Rightarrow> string \<Rightarrow> error + columnRule list" where
  "parse_column_rule uni re p positive line =
     bindR (parsePattern re p line False) (\<lambda>(cm, line1).
       if line1 \<noteq> [] then Inl (mp_errorf p ''syntax error: stray characters after column pattern'' [])
       else bindR (matcher_toLower uni re cm) (\<lambda>m. Inr [\<lparr>cr_column = m, cr_positive = positive\<rparr>]))"

definition columnRulesParser_parse ::
  "(string \<Rightarrow> string) \<Rightarrow> regexp_engine \<Rightarrow> file_system \<Rightarrow> bool \<Rightarrow> matcherParser \<Rightarrow> string
    \<Rightarrow> error + columnRule list" where
  "columnRulesParser_parse uni re fs canImport =
     parse_line (parse_column_rule uni re)
       (if canImport
        then (\<lambda>p name. importFile fs p name (parse_line (parse_column_rule uni re) no_import))
        else no_import)"

definition cmdline :: matcherParser where
  "cmdline = \<lparr>mp_fileName = ''<cmdline>'', mp_lineNum = 1\<rparr>"

section \<open>Filters\<close>

text \<open>
  Sets of names (\<open>map[string]struct{}\<close>) are lists without duplicates, maps are association lists; the
  order is that of insertion, and no operation depends on it.
\<close>

datatype Filter =
    tableFilter "tableRule list"
  | loweredFilter Filter
  | allFilter
  | schemasFilter "string list"
  | tablesFilter "(string \<times> string list) list"
  | bothFilter Filter Filter

fun rules_MatchTable :: "regexp_engine \<Rightarrow> tableRule list \<Rightarrow> string \<Rightarrow> string \<Rightarrow> bool" where
  "rules_MatchTable re [] schema table = False"
| "rules_MatchTable re (rule # f) schema table =
     (if matchString re (tr_schema rule) schema \<and> matchString re (tr_table rule) table
      then tr_positive rule else rules_MatchTable re f schema table)"

fun rules_MatchSchema :: "regexp_engine \<Rightarrow> tableRule list \<Rightarrow> string \<Rightarrow> bool" where
  "rules_MatchSchema re [] schema = False"
| "rules_MatchSchema re (rule # f) schema =
     (if matchString re (tr_schema rule) schema \<and> (tr_positive rule \<or> matchAllStrings (tr_table rule))
      then tr_positive rule else rules_MatchSchema re f schema)"

fun MatchSchema :: "(string \<Rightarrow> string) \<Rightarrow> regexp_engine \<Rightarrow> Filter \<Rightarrow> string \<Rightarrow> bool" where
  "MatchSchema uni re (tableFilter rules) schema = rules_MatchSchema re rules schema"
| "MatchSchema uni re (loweredFilter f) schema = MatchSchema uni re f (ToLower uni schema)"
| "MatchSchema uni re allFilter schema = True"
| "MatchSchema uni re (schemasFilter ss) schema = (schema \<in> set ss)"
| "MatchSchema uni re (tablesFilter m) schema = (map_of m schema \<noteq> None)"
| "MatchSchema uni re (bothFilter a b) schema = (MatchSchema uni re a schema \<and> MatchSchema uni re b schema)"

fun MatchTable :: "(string \<Rightarrow> string) \<Rightarrow> regexp_engine \<Rightarrow> Filter \<Rightarrow> string \<Rightarrow> string \<Rightarrow> bool" where
  "MatchTable uni re (tableFilter rules) schema table = rules_MatchTable re rules schema table"
| "MatchTable uni re (loweredFilter f) schema table =
     MatchTable uni re f (ToLower uni schema) (ToLower uni table)"
| "MatchTable uni re allFilter schema table = True"
| "MatchTable uni re (schemasFilter ss) schema table = (schema \<in> set ss)"
| "MatchTable uni re (tablesFilter m) schema table =
     (case map_of m schema of None \<Rightarrow> False | Some ts \<Rightarrow> table \<in> set ts)"
| "MatchTable uni re (bothFilter a b) schema table =
     (MatchTable uni re a schema table \<and> MatchTable uni re b schema table)"

definition rule_toLower :: "(string \<Rightarrow> string) \<Rightarrow> regexp_engine \<Rightarrow> tableRule \<Rightarrow> error + tableRule" where
  "rule_toLower uni re r =
     bindR (matcher_toLower uni re (tr_schema r)) (\<lambda>s.
     bindR (matcher_toLower uni re (tr_table r)) (\<lambda>t.
       Inr \<lparr>tr_schema = s, tr_table = t, tr_positive = tr_positive r\<rparr>))"

definition lower_tables ::
  "(string \<Rightarrow> string) \<Rightarrow> (string \<times> string list) list \<Rightarrow> (string \<times> string list) list" where
  "lower_tables uni m =
     foldl (\<lambda>acc (schema, tables).
              let l = ToLower uni schema;
                  old = (case map_of acc l of None \<Rightarrow> [] | Some ts \<Rightarrow> ts)
              in AList.update l (foldl (\<lambda>ts t. List.insert (ToLower uni t) ts) old tables) acc) [] m"

fun filter_toLower :: "(string \<Rightarrow> string) \<Rightarrow> regexp_engine \<Rightarrow> Filter \<Rightarrow> error + Filter" where
  "filter_toLower uni re (tableFilter rules) =
     bindR (mapR (rule_toLower uni re) rules) (\<lambda>rs. Inr (tableFilter rs))"
| "filter_toLower uni re (loweredFilter f) = Inr (loweredFilter f)"
| "filter_toLower uni re allFilter = Inr allFilter"
| "filter_toLower uni re (schemasFilter ss) =
     Inr (schemasFilter (foldl (\<lambda>acc s. List.insert (ToLower uni s) acc) [] ss))"
| "filter_toLower uni re (tablesFilter m) = Inr (tablesFilter (lower_tables uni m))"
| "filter_toLower uni re (bothFilter a b) =
     bindR (filter_toLower uni re a) (\<lambda>a'. bindR (filter_toLower uni re b) (\<lambda>b'. Inr (bothFilter a' b')))"

definition CaseInsensitive :: "(string \<Rightarrow> string) \<Rightarrow> regexp_engine \<Rightarrow> Filter \<Rightarrow> error + Filter" where
  "CaseInsensitive uni re f = bindR (filter_toLower uni re f) (\<lambda>w. Inr (loweredFilter w))"

definition Parse :: "regexp_engine \<Rightarrow> file_system \<Rightarrow> string list \<Rightarrow> error + Filter" where
  "Parse re fs args =
     bindR (mapR (tableRulesParser_parse re fs True cmdline) args) (\<lambda>rules.
       Inr (tableFilter (rev (concat rules))))"

definition NewSchemasFilter :: "string list \<Rightarrow> Filter" where
  "NewSchemasFilter schemas = schemasFilter (foldl (\<lambda>acc s. List.insert s acc) [] schemas)"

record Table =
  t_Schema :: string
  t_Name :: string

definition NewTablesFilter :: "Table list \<Rightarrow> Filter" where
  "NewTablesFilter tables =
     tablesFilter
       (foldl (\<lambda>acc t.
          let old = (case map_of acc (t_Schema t) of None \<Rightarrow> [] | Some ts \<Rightarrow> ts)
          in AList.update (t_Schema t) (List.insert (t_Name t) old) acc) [] tables)"

section \<open>Column filters\<close>

definition ParseColumnFilter ::
  "(string \<Rightarrow> string) \<Rightarrow> regexp_engine \<Rightarrow> file_system \<Rightarrow> string list \<Rightarrow> error + columnRule list" where
  "ParseColumnFilter uni re fs args =
     bindR (mapR (columnRulesParser_parse uni re fs True cmdline) args) (\<lambda>rules. Inr (rev (concat rules)))"

fun column_rules_match :: "regexp_engine \<Rightarrow> columnRule list \<Rightarrow> string \<Rightarrow> bool" where
  "column_rules_match re [] column = False"
| "column_rules_match re (rule # f) column =
     (if matchString re (cr_column rule) column then cr_positive rule else column_rules_match re f column)"

definition MatchColumn ::
  "(string \<Rightarrow> string) \<Rightarrow> regexp_engine \<Rightarrow> columnRule list \<Rightarrow> string \<Rightarrow> bool" where
  "MatchColumn uni re f column = column_rules_match re f (ToLower uni column)"

section \<open>MySQL replication rules\<close>

record MySQLReplicationRules =
  DoTables :: "Table list"
  DoDBs :: "string list"
  IgnoreTables :: "Table list"
  IgnoreDBs :: "string list"

definition table_lower :: "(string \<Rightarrow> string) \<Rightarrow> Table \<Rightarrow> Table" where
  "table_lower uni t = \<lparr>t_Schema = ToLower uni (t_Schema t), t_Name = ToLower uni (t_Name t)\<rparr>"

definition replication_ToLower ::
  "(string \<Rightarrow> string) \<Rightarrow> MySQLReplicationRules \<Rightarrow> MySQLReplicationRules" where
  "replication_ToLower uni r =
     \<lparr>DoTables = map (table_lower uni) (DoTables r), DoDBs = map (ToLower uni) (DoDBs r),
      IgnoreTables = map (table_lower uni) (IgnoreTables r), IgnoreDBs = map (ToLower uni) (IgnoreDBs r)\<rparr>"

text \<open>\<open>regexp.QuoteMeta\<close> and the legacy replacer, which tries its pairs in order at every position.\<close>

definition QuoteMeta :: "string \<Rightarrow> string" where
  "QuoteMeta s = concat (map (\<lambda>c. if c \<in> set (BS # ''.+*?()|[]{}^$'') then [BS, c] else [c]) s)"

fun legacyWildcardReplacer :: "string \<Rightarrow> string" where
  "legacyWildcardReplacer [] = []"
| "legacyWildcardReplacer [c] = [c]"
| "legacyWildcardReplacer (c # d # ds) =
     (if c = BS \<and> d = CHR ''*'' then ''.*'' @ legacyWildcardReplacer ds
      else if c = BS \<and> d = CHR ''?'' then ''.'' @ legacyWildcardReplacer ds
      else if c = BS \<and> d = CHR ''['' \<and> ds \<noteq> [] \<and> hd ds = CHR ''!''
        then ''[^'' @ legacyWildcardReplacer (tl ds)
      else if c = BS \<and> d = CHR ''['' then ''['' @ legacyWildcardReplacer ds
      else if c = BS \<and> d = CHR '']'' then '']'' @ legacyWildcardReplacer ds
      else c # legacyWildcardReplacer (d # ds))"

definition matcherFromLegacyPattern :: "regexp_engine \<Rightarrow> string \<Rightarrow> error + matcher" where
  "matcherFromLegacyPattern re pattern =
     (case pattern of
        [] \<Rightarrow> Inl (Errorf ''pattern cannot be empty'' [])
      | c # cs \<Rightarrow>
          if c = CHR ''~'' then newRegexpMatcher re cs
          else if \<not> list_ex (\<lambda>x. x \<in> set ''?*['') pattern then Inr (stringMatcher pattern)
          else newRegexpMatcher re (''(?s)^'' @ legacyWildcardReplacer (QuoteMeta pattern) @ ''$''))"

definition accept_all :: tableRule where
  "accept_all = \<lparr>tr_schema = trueMatcher, tr_table = trueMatcher, tr_positive = True\<rparr>"

definition ParseMySQLReplicationRules ::
  "regexp_engine \<Rightarrow> MySQLReplicationRules option \<Rightarrow> error + Filter" where
  "ParseMySQLReplicationRules re rules0 =
     (case rules0 of
        None \<Rightarrow> Inr allFilter
      | Some rules \<Rightarrow>
          let (schemas, posS) = (if DoDBs rules = [] then (IgnoreDBs rules, False) else (DoDBs rules, True));
              (tables, posT) =
                (if DoTables rules = [] then (IgnoreTables rules, False) else (DoTables rules, True))
          in
          bindR (mapR (\<lambda>schema. bindR (matcherFromLegacyPattern re schema) (\<lambda>m.
                   Inr \<lparr>tr_schema = m, tr_table = trueMatcher, tr_positive = posS\<rparr>)) schemas) (\<lambda>sr.
          bindR (mapR (\<lambda>t.
                   bindR (matcherFromLegacyPattern re (t_Schema t)) (\<lambda>sm.
                   bindR (matcherFromLegacyPattern re (t_Name t)) (\<lambda>tm.
                     Inr \<lparr>tr_schema = sm, tr_table = tm, tr_positive = posT\<rparr>))) tables) (\<lambda>tr.
            Inr (bothFilter (tableFilter (sr @ (if posS then [] else [accept_all])))
                            (tableFilter (tr @ (if posT then [] else [accept_all])))))))"

section \<open>Pruning by schema\<close>

text \<open>
  The contract the dumper relies on when it asks for the schemas first and the tables of the accepted
  schemas later: a schema with a matching table is accepted.
\<close>

locale table_selector =
  fixes match_table :: "string \<Rightarrow> string \<Rightarrow> bool"
    and match_schema :: "string \<Rightarrow> bool"
  assumes table_schema: "match_table s t \<Longrightarrow> match_schema s"
begin

lemma prune_keeps:
  "filter (\<lambda>(s, t). match_table s t) (filter (\<lambda>(s, t). match_schema s) xs) =
   filter (\<lambda>(s, t). match_table s t) xs"
  using table_schema by (induction xs) auto

lemma rejected_schema: "\<not> match_schema s \<Longrightarrow> \<not> match_table s t"
  using table_schema by blast

end

lemma matchAll_matchString: "matchAllStrings m \<Longrightarrow> matchString re m name"
  by (cases m) simp_all

lemma rules_table_schema: "rules_MatchTable re rules s t \<Longrightarrow> rules_MatchSchema re rules s"
  by (induction rules) (auto simp: matchAll_matchString split: if_splits)

lemma MatchTable_MatchSchema: "MatchTable uni re f s t \<Longrightarrow> MatchSchema uni re f s"
  by (induction f arbitrary: s t) (auto dest: rules_table_schema split: option.splits)

interpretation filters: table_selector "MatchTable uni re f" "MatchSchema uni re f" for uni re f
  by unfold_locales (rule MatchTable_MatchSchema)

text \<open>No filter rejects a schema that has a table it accepts, so asking the filter for schemas first
  and only then for the tables of the accepted schemas loses no table. It holds for every kind of filter:
  rule lists, case-insensitive filters, lists of schemas or tables, and conjunctions.\<close>

theorem schema_pruning_loses_no_table:
  "filter (\<lambda>(s, t). MatchTable uni re f s t) (filter (\<lambda>(s, t). MatchSchema uni re f s) xs) =
   filter (\<lambda>(s, t). MatchTable uni re f s t) xs"
  by (rule filters.prune_keeps)

section \<open>The last matching rule decides\<close>

definition rule_matches :: "regexp_engine \<Rightarrow> string \<Rightarrow> string \<Rightarrow> tableRule \<Rightarrow> bool" where
  "rule_matches re s t r \<longleftrightarrow> matchString re (tr_schema r) s \<and> matchString re (tr_table r) t"

lemma rules_MatchTable_find:
  "rules_MatchTable re rules s t =
     (case List.find (rule_matches re s t) rules of None \<Rightarrow> False | Some r \<Rightarrow> tr_positive r)"
  by (induction rules) (auto simp: rule_matches_def)

lemma find_rev: "List.find P (rev xs) = (if filter P xs = [] then None else Some (last (filter P xs)))"
proof (induction xs rule: rev_induct)
  case (snoc x xs)
  then show ?case by (auto simp: filter_empty_conv)
qed simp

text \<open>C32: Later arguments override earlier ones: a filter parsed from a list of arguments accepts a table
  exactly when, of all the rules the arguments (and the files they import) contribute in order, some
  match the table and the last of those is a positive one.\<close>

theorem last_matching_rule_decides:
  assumes "Parse re fs args = Inr f"
  shows "\<exists>rules. list_all2 (\<lambda>arg rs. tableRulesParser_parse re fs True cmdline arg = Inr rs) args rules \<and>
    (\<forall>s t. MatchTable uni re f s t \<longleftrightarrow>
       (let ms = filter (rule_matches re s t) (concat rules) in ms \<noteq> [] \<and> tr_positive (last ms)))"
proof -
  from assms obtain rules where
    "list_all2 (\<lambda>arg rs. tableRulesParser_parse re fs True cmdline arg = Inr rs) args rules"
    and f: "f = tableFilter (rev (concat rules))"
    by (auto simp: Parse_def result_iff)
  moreover have "MatchTable uni re f s t \<longleftrightarrow>
      (let ms = filter (rule_matches re s t) (concat rules) in ms \<noteq> [] \<and> tr_positive (last ms))" for s t
    by (simp add: f rules_MatchTable_find find_rev)
  ultimately show ?thesis by blast
qed

theorem last_matching_rule_decides_witness:
  "\<exists>f. Parse (\<lambda>_. Inr (\<lambda>_. True)) (\<lambda>_. Inl (External ''none'')) [''*.*'', ''!a.b''] = Inr f \<and>
     \<not> MatchTable id (\<lambda>_. Inr (\<lambda>_. True)) f ''a'' ''b'' \<and> MatchTable id (\<lambda>_. Inr (\<lambda>_. True)) f ''a'' ''c''"
proof -
  define re :: regexp_engine where "re = (\<lambda>_. Inr (\<lambda>_. True))"
  define fs :: file_system where "fs = (\<lambda>_. Inl (External ''none''))"
  define f where "f = tableFilter
    [\<lparr>tr_schema = stringMatcher ''a'', tr_table = stringMatcher ''b'', tr_positive = False\<rparr>, accept_all]"
  have p: "tableRulesParser_parse re fs True cmdline ''*.*'' = Inr [accept_all]"
    "tableRulesParser_parse re fs True cmdline ''!a.b'' =
      Inr [\<lparr>tr_schema = stringMatcher ''a'', tr_table = stringMatcher ''b'', tr_positive = False\<rparr>]"
    unfolding re_def fs_def by code_simp+
  then have "Parse re fs [''*.*'', ''!a.b''] = Inr f"
    by (simp add: Parse_def f_def)
  moreover from last_matching_rule_decides [OF this, of id] p obtain rules where
    "rules = [[accept_all], [\<lparr>tr_schema = stringMatcher ''a'', tr_table = stringMatcher ''b'', tr_positive = False\<rparr>]]"
    and "\<And>s t. MatchTable id re f s t \<longleftrightarrow>
       (let ms = filter (rule_matches re s t) (concat rules) in ms \<noteq> [] \<and> tr_positive (last ms))"
    by (auto simp: list_all2_Cons1)
  ultimately show ?thesis
    unfolding re_def [symmetric] fs_def [symmetric] by (auto simp: rule_matches_def accept_all_def)
qed

section \<open>Quoted names as rules\<close>

lemma quoted_items_double:
  "not_starting q r \<Longrightarrow> quoted_items q (double_char q s @ q # r) = Some r"
proof (induction s)
  case Nil
  then show ?case by (cases r) auto
next
  case (Cons c s)
  then show ?case
    by (cases "double_char q s @ q # r") auto
qed

lemma quotedRegexp_double:
  assumes "s \<noteq> []" "not_starting q r"
  shows "quotedRegexp q (q # double_char q s @ q # r) = Some r"
proof -
  from assms(1) obtain c cs where s: "s = c # cs" by (cases s) auto
  have "quoted_items q (double_char q cs @ q # r) = Some r"
    by (rule quoted_items_double) (rule assms(2))
  then show ?thesis by (simp add: s quotedRegexp_def)
qed

lemma replace_all_undouble: "replace_all [q, q] [q] (double_char q s) = s"
proof (induction s)
  case (Cons c s)
  then show ?case
    by (cases "double_char q s") (auto simp: has_prefix_def)
qed simp

lemma quoted_pattern_double:
  assumes "s \<noteq> []" "not_starting q r"
  shows "quoted_pattern p q (q # double_char q s @ q # r) = Inr (stringMatcher s, r)"
  using quotedRegexp_double [OF assms] by (simp add: quoted_pattern_def replace_all_undouble)

lemma dropWhile_hd: "s \<noteq> [] \<Longrightarrow> \<not> P (hd s) \<Longrightarrow> dropWhile P s = s"
  by (cases s) auto

lemma trim_set_id: "s \<noteq> [] \<Longrightarrow> hd s \<notin> set cs \<Longrightarrow> last s \<notin> set cs \<Longrightarrow> trim_set cs s = s"
  by (simp add: trim_set_def dropWhile_hd hd_rev)

lemma quote_char_cases: "quote_char d \<in> {DQ, BT}"
  by (cases d) simp_all

lemma parsePattern_quoted:
  assumes "s \<noteq> []" "not_starting (quote_char d) r"
  shows "parsePattern re p (QuoteIdent d s @ r) dot = Inr (stringMatcher s, r)"
  using quoted_pattern_double [OF assms, of p] quote_char_cases [of d]
  by (auto simp: parsePattern_def QuoteIdent_eq)

lemma parse_quoted_rule:
  assumes "s \<noteq> []" "t \<noteq> []"
  shows "tableRulesParser_parse re fs b p (QuoteQName d s t) =
    Inr [\<lparr>tr_schema = stringMatcher s, tr_table = stringMatcher t, tr_positive = True\<rparr>]"
proof -
  have "trim_set [CHR '' '', CHR 0x09] (QuoteQName d s t) = QuoteQName d s t"
    using assms(1) quote_char_cases [of d] by (intro trim_set_id) (auto simp: QuoteIdent_eq)
  moreover have "QuoteQName d s t = quote_char d # tl (QuoteQName d s t)"
    using assms(1) by (simp add: QuoteIdent_eq)
  moreover have "parse_table_rule re p True (QuoteQName d s t) =
      Inr [\<lparr>tr_schema = stringMatcher s, tr_table = stringMatcher t, tr_positive = True\<rparr>]"
    using parsePattern_quoted [OF assms(1), of d "CHR ''.'' # QuoteIdent d t" re p True]
      parsePattern_quoted [OF assms(2), of d "[]" re p True] assms(1)
    by (simp add: parse_table_rule_def)
  ultimately show ?thesis
    using quote_char_cases [of d] unfolding tableRulesParser_parse_def parse_line_def
    by (auto split: list.splits simp del: QuoteQName.simps)
qed

text \<open>C33: A table name quoted the way a dialect quotes it (double quotes or backquotes, embedded quotes
  doubled) is a filter argument that selects exactly that table, whatever characters the names hold.\<close>

theorem quoted_name_selects_one_table:
  assumes "schema \<noteq> []" "table \<noteq> []"
  shows "\<exists>f. Parse re fs [QuoteQName d schema table] = Inr f \<and>
    (\<forall>s t. MatchTable uni re f s t \<longleftrightarrow> s = schema \<and> t = table)"
  using parse_quoted_rule [OF assms, of re fs True cmdline d] by (auto simp: Parse_def)

theorem quoted_name_selects_one_table_witness:
  "\<exists>f. Parse (\<lambda>_. Inr (\<lambda>_. True)) (\<lambda>_. Inl (External ''none'')) [QuoteQName pgDialect ''a.b'' [DQ, CHR ''*'']] = Inr f \<and>
     MatchTable id (\<lambda>_. Inr (\<lambda>_. True)) f ''a.b'' [DQ, CHR ''*''] \<and>
     \<not> MatchTable id (\<lambda>_. Inr (\<lambda>_. True)) f ''a.b'' ''c''"
  using quoted_name_selects_one_table [of "''a.b''" "[DQ, CHR ''*'']" "\<lambda>_. Inr (\<lambda>_. True)"
      "\<lambda>_. Inl (External ''none'')" pgDialect id] by auto



end
