(* ===== verification/Table_Info.thy ===== *)
theory Table_Info
  imports Prelude "HOL-Library.AList"
begin

text \<open>
  The tables of a dump (\<open>export/prepare.go\<close>): table types, table entries, and the map from schemas to
  their tables. The Go map is an association list, one entry per schema, in the order of insertion;
  an iteration over the Go map, whose order is not fixed, runs along the list.
\<close>

datatype TableType = TableTypeBase | TableTypeView | TableTypeSequence

definition TableTypeBaseStr :: string where "TableTypeBaseStr = ''BASE TABLE''"
definition TableTypeViewStr :: string where "TableTypeViewStr = ''VIEW''"
definition TableTypeSequenceStr :: string where "TableTypeSequenceStr = ''SEQUENCE''"

fun TableType_String :: "TableType \<Rightarrow> string" where
  "TableType_String TableTypeBase = TableTypeBaseStr"
| "TableType_String TableTypeView = TableTypeViewStr"
| "TableType_String TableTypeSequence = TableTypeSequenceStr"

definition ParseTableType :: "string \<Rightarrow> error + TableType" where
  "ParseTableType s =
     (if s = TableTypeBaseStr then Inr TableTypeBase
      else if s = TableTypeViewStr then Inr TableTypeView
      else if s = TableTypeSequenceStr then Inr TableTypeSequence
      else Inl (Errorf ''unknown table type %s'' [s]))"

lemma ParseTableType_String: "ParseTableType (TableType_String t) = Inr t"
  by (cases t) (simp_all add: ParseTableType_def TableTypeBaseStr_def TableTypeViewStr_def TableTypeSequenceStr_def)

record TableInfo =
  ti_Name :: string
  ti_AvgRowLength :: u64
  ti_Type :: TableType

definition TableInfo_Equals :: "TableInfo \<Rightarrow> TableInfo \<Rightarrow> bool" where
  "TableInfo_Equals t u \<longleftrightarrow> ti_Name t = ti_Name u \<and> ti_Type t = ti_Type u"

type_synonym DatabaseTables = "(string \<times> TableInfo list) list"

text \<open>\<open>d[name]\<close>, nil (here empty) when the schema is absent.\<close>

definition tables_of :: "DatabaseTables \<Rightarrow> string \<Rightarrow> TableInfo list" where
  "tables_of d name = (case map_of d name of None \<Rightarrow> [] | Some ts \<Rightarrow> ts)"

definition append_tables :: "string \<Rightarrow> TableInfo list \<Rightarrow> DatabaseTables \<Rightarrow> DatabaseTables" where
  "append_tables dbName ts d = AList.update dbName (tables_of d dbName @ ts) d"

definition AppendTable :: "DatabaseTables \<Rightarrow> string \<Rightarrow> TableInfo \<Rightarrow> DatabaseTables" where
  "AppendTable d dbName table = append_tables dbName [table] d"

text \<open>The loop over the names reads \<open>avgRowLengths[i]\<close>, which panics when there are too few.\<close>

definition AppendTables :: "DatabaseTables \<Rightarrow> string \<Rightarrow> string list \<Rightarrow> u64 list \<Rightarrow> error + DatabaseTables" where
  "AppendTables d dbName tableNames avgRowLengths =
     (if length avgRowLengths < length tableNames then Inl (Panic ''index out of range'')
      else Inr (foldl (\<lambda>acc (t, a). AppendTable acc dbName \<lparr>ti_Name = t, ti_AvgRowLength = a, ti_Type = TableTypeBase\<rparr>)
                  d (zip tableNames avgRowLengths)))"

definition AppendViews :: "DatabaseTables \<Rightarrow> string \<Rightarrow> string list \<Rightarrow> DatabaseTables" where
  "AppendViews d dbName viewNames =
     foldl (\<lambda>acc v. AppendTable acc dbName \<lparr>ti_Name = v, ti_AvgRowLength = 0, ti_Type = TableTypeView\<rparr>) d viewNames"

definition Merge :: "DatabaseTables \<Rightarrow> DatabaseTables \<Rightarrow> DatabaseTables" where
  "Merge d other = foldl (\<lambda>acc (name, infos). append_tables name infos acc) d other"

definition Literal :: "DatabaseTables \<Rightarrow> string" where
  "Literal d =
     ''tables list'' @ [NL] @ [NL] @
     concat (map (\<lambda>(dbName, tables).
       ''schema '' @ dbName @ '' :['' @ concat (map (\<lambda>tbl. ti_Name tbl @ '', '') tables) @ '']'') d)"

definition DatabaseTablesToMap :: "DatabaseTables \<Rightarrow> (string \<times> string list) list" where
  "DatabaseTablesToMap d =
     map (\<lambda>(name, infos).
       (name, foldl (\<lambda>acc i. if ti_Type i = TableTypeBase then List.insert (ti_Name i) acc else acc) [] infos)) d"

section \<open>Laws of the map\<close>

text \<open>A Go map has one entry per key.\<close>

definition wf_tables :: "DatabaseTables \<Rightarrow> bool" where
  "wf_tables d \<longleftrightarrow> distinct (map fst d)"

lemma wf_tables_Nil [simp]: "wf_tables []"
  by (simp add: wf_tables_def)

lemma wf_append_tables [simp]: "wf_tables d \<Longrightarrow> wf_tables (append_tables s ts d)"
  by (simp add: wf_tables_def append_tables_def distinct_update)

lemma tables_of_append [simp]:
  "tables_of (append_tables s ts d) s' = (if s' = s then tables_of d s @ ts else tables_of d s')"
  by (simp add: append_tables_def tables_of_def update_conv')

lemma keys_append_tables [simp]: "fst ` set (append_tables s ts d) = insert s (fst ` set d)"
  by (simp add: append_tables_def dom_update)

lemma tables_of_update [simp]:
  "tables_of (AList.update s ts d) s' = (if s' = s then ts else tables_of d s')"
  by (simp add: tables_of_def update_conv')

text \<open>The table names a dump covers, with their schemas.\<close>

definition listed :: "DatabaseTables \<Rightarrow> string \<Rightarrow> string \<Rightarrow> bool" where
  "listed d s t \<longleftrightarrow> t \<in> ti_Name ` set (tables_of d s)"

end
