(* ===== verification/Config.thy ===== *)
theory Config
  imports Row_Receiver Table_Filter Table_Info
begin

text \<open>
  The configuration (\<open>export/config.go\<close>): its defaults, the flags, what \<open>ParseFromFlags\<close> derives from
  them and rejects, the connection string, and the adjustments made before a dump starts.

  The flag library is the parameter \<open>fl\<close>, a record of its getters, each of which may fail; the regular
  expression engine \<open>re\<close>, the file system \<open>fs\<close>, the Unicode tables \<open>uni\<close>, the template parser
  \<open>tmpl_ok\<close>, the size parser of the units package \<open>ram\<close> and the outcome of parsing the storage
  options \<open>backend\<close> are parameters too.
\<close>

section \<open>State\<close>

datatype CompressType = NoCompression | Gzip | Snappy | Zstd

record cdcSlotInfo =
  SlotName :: string
  ConsistentPoint :: string
  SnapshotName :: string
  OutputPlugin :: string

text \<open>The parsed TLS material: the CA bundle and the certificate with its key.\<close>

record tlsConfig =
  tls_MinVersion :: nat
  tls_RootCAs :: "bytes option"
  tls_Certificate :: "(bytes \<times> bytes) option"

record Config =
  SpecifiedTables :: bool
  SortByPk :: bool
  NoViews :: bool
  NoSequences :: bool
  NoHeader :: bool
  NoSchemas :: bool
  NoData :: bool
  CompleteInsert :: bool
  TransactionalConsistency :: bool
  EscapeBackslash :: bool
  DumpEmptyDatabase :: bool
  PosAfterConnect :: bool
  conf_CompressType :: CompressType
  Host :: string
  Port :: int
  Threads :: int
  User :: string
  Password :: string
  TLS :: "tlsConfig option"
  SSLMode :: string
  CAPath :: string
  CertPath :: string
  KeyPath :: string
  SSLCABytes :: bytes
  SSLCertBytes :: bytes
  SSLKeyBytes :: bytes
  LogLevel :: string
  LogFile :: string
  LogFormat :: string
  OutputDirPath :: string
  StatusAddr :: string
  Snapshot :: string
  Consistency :: string
  CsvNullValue :: string
  SQL :: string
  CsvSeparator :: string
  CsvDelimiter :: string
  CsvLineTerminator :: string
  Databases :: "string list"
  TableFilter :: Filter
  Where :: string
  FileType :: string
  OutputFileTemplate :: string
  Rows :: u64
  ReadTimeout :: int
  FileSize :: u64
  StatementSize :: u64
  SessionParams :: "(string \<times> string) list"
  Tables :: DatabaseTables
  CsvOutputDialect :: CSVDialect
  Target :: SQLTarget
  CDCSlot :: string
  CDCPlugin :: string
  CDCCleanupOnFailure :: bool
  conf_cdcSlotInfo :: "cdcSlotInfo option"
  NoPreamble :: bool
  MinTLSVersion :: nat

definition UnspecifiedSize :: u64 where "UnspecifiedSize = 0"
definition DefaultStatementSize :: u64 where "DefaultStatementSize = 1000000"

definition DefaultTableFilter :: string where
  "DefaultTableFilter = ''!/^(pg_catalog|information_schema|pg_toast)$/.*''"

definition DefaultAnonymousOutputFileTemplateText :: string where
  "DefaultAnonymousOutputFileTemplateText = ''result.{{.Index}}''"

definition ConsistencyTypeAuto :: string where "ConsistencyTypeAuto = ''auto''"
definition ConsistencyTypeSnapshot :: string where "ConsistencyTypeSnapshot = ''snapshot''"
definition ConsistencyTypeNone :: string where "ConsistencyTypeNone = ''none''"

definition FileFormatSQLTextString :: string where "FileFormatSQLTextString = ''sql''"
definition FileFormatCSVString :: string where "FileFormatCSVString = ''csv''"

text \<open>The output file template is the text parsed over the built-in one; empty text keeps it as it is.\<close>

definition DefaultConfig :: Config where
  "DefaultConfig =
     \<lparr>SpecifiedTables = False, SortByPk = True, NoViews = True, NoSequences = True, NoHeader = False,
      NoSchemas = False, NoData = False, CompleteInsert = False, TransactionalConsistency = True,
      EscapeBackslash = True, DumpEmptyDatabase = True, PosAfterConnect = False,
      conf_CompressType = NoCompression, Host = ''127.0.0.1'', Port = 5432, Threads = 4,
      User = ''postgres'', Password = '''', TLS = None, SSLMode = '''', CAPath = '''', CertPath = '''',
      KeyPath = '''', SSLCABytes = [], SSLCertBytes = [], SSLKeyBytes = [], LogLevel = '''', LogFile = '''',
      LogFormat = '''', OutputDirPath = ''.'', StatusAddr = '':8281'', Snapshot = '''',
      Consistency = ConsistencyTypeAuto, CsvNullValue = [BS, CHR ''N''], SQL = '''', CsvSeparator = '','',
      CsvDelimiter = [DQ], CsvLineTerminator = [CR, NL], Databases = [],
      TableFilter = tableFilter [accept_all], Where = '''', FileType = '''', OutputFileTemplate = '''',
      Rows = UnspecifiedSize, ReadTimeout = 0, FileSize = UnspecifiedSize,
      StatementSize = DefaultStatementSize, SessionParams = [], Tables = [],
      CsvOutputDialect = CSVDialectDefault, Target = TargetMySQL, CDCSlot = '''', CDCPlugin = ''pgoutput'',
      CDCCleanupOnFailure = True, conf_cdcSlotInfo = None, NoPreamble = False, MinTLSVersion = 0\<rparr>"

text \<open>The filter of the default configuration is the one \<open>filter.Parse\<close> makes of \<open>*.*\<close>.\<close>

lemma DefaultConfig_filter: "Parse re fs [''*.*''] = Inr (TableFilter DefaultConfig)"
proof -
  have "tableRulesParser_parse re fs True cmdline ''*.*'' = Inr [accept_all]"
    by (simp add: tableRulesParser_parse_def parse_line_def trim_set_def parse_table_rule_def
        parsePattern_def parseWildcardPattern_def mp_newRegexpMatcher_def newRegexpMatcher_def accept_all_def)
  then show ?thesis by (simp add: Parse_def DefaultConfig_def)
qed

definition conf_Dialect :: "Config \<Rightarrow> SQLDialect" where
  "conf_Dialect conf = DialectFor (Target conf)"

definition EffectivePreamble :: "Config \<Rightarrow> string list" where
  "EffectivePreamble conf = (if NoPreamble conf then [] else Preamble (conf_Dialect conf))"

section \<open>The connection string\<close>

definition url_safe :: string where
  "url_safe = ''abcdefghijklmnopqrstuvwxyzABCDEFGHIJKLMNOPQRSTUVWXYZ0123456789-._~''"

fun urlEscape :: "string \<Rightarrow> string" where
  "urlEscape [] = []"
| "urlEscape (c # s) = (if c \<in> set url_safe then [c] else CHR ''%'' # fmt_02X c) @ urlEscape s"

definition urlUserPass :: "string \<Rightarrow> string \<Rightarrow> string" where
  "urlUserPass user pass =
     (if pass = '''' then urlEscape user else urlEscape user @ '':'' @ urlEscape pass)"

text \<open>\<open>net.JoinHostPort\<close> puts a host with a colon into brackets.\<close>

definition JoinHostPort :: "string \<Rightarrow> string \<Rightarrow> string" where
  "JoinHostPort host port =
     (if CHR '':'' \<in> set host then ''['' @ host @ '']:'' @ port else host @ '':'' @ port)"

definition GetDSN :: "Config \<Rightarrow> string \<Rightarrow> string" where
  "GetDSN conf db0 =
     (let db = (if db0 = '''' \<and> Databases conf \<noteq> [] then hd (Databases conf) else db0);
          user = (if User conf \<noteq> '''' then urlUserPass (User conf) (Password conf) @ ''@'' else '''');
          q = (if SSLMode conf \<noteq> '''' then [''sslmode='' @ SSLMode conf]
               else if CAPath conf = '''' \<and> CertPath conf = '''' then [''sslmode=prefer''] else []) @
              (if CAPath conf \<noteq> '''' then [''sslrootcert='' @ CAPath conf] else []) @
              (if CertPath conf \<noteq> '''' then [''sslcert='' @ CertPath conf] else []) @
              (if KeyPath conf \<noteq> '''' then [''sslkey='' @ KeyPath conf] else []) @
              (if ReadTimeout conf > 0
               then [''statement_timeout='' @ fmt_int (ReadTimeout conf div 1000000)] else [])
      in ''postgres://'' @ user @ JoinHostPort (Host conf) (fmt_int (Port conf)) @
         (if db \<noteq> '''' then ''/'' @ db else '''') @
         (if q \<noteq> [] then ''?'' @ join ''&'' q else ''''))"

section \<open>Flags\<close>

record FlagSet =
  GetString :: "string \<Rightarrow> error + string"
  GetStringSlice :: "string \<Rightarrow> error + string list"
  GetInt :: "string \<Rightarrow> error + int"
  GetUint64 :: "string \<Rightarrow> error + u64"
  GetBool :: "string \<Rightarrow> error + bool"
  GetDuration :: "string \<Rightarrow> error + int"
  GetStringToString :: "string \<Rightarrow> error + (string \<times> string) list"
  Changed :: "string \<Rightarrow> bool"

definition ParseFileSize :: "(string \<Rightarrow> int option) \<Rightarrow> string \<Rightarrow> error + u64" where
  "ParseFileSize ram fileSizeStr =
     (if fileSizeStr = [] then Inr UnspecifiedSize
      else (case ParseUint fileSizeStr of
              Some fileSizeMB \<Rightarrow> Inr (fileSizeMB * 1048576)
            | None \<Rightarrow>
                (case ram fileSizeStr of
                   Some sz \<Rightarrow> Inr (word_of_int sz)
                 | None \<Rightarrow> Inl (Errorf (''failed to parse filesize (-F '' @ [SQ] @ ''%s'' @ [SQ] @ '')'') [fileSizeStr]))))"

definition qualified_name :: "string \<Rightarrow> error + string \<times> string" where
  "qualified_name table =
     (case split2 CHR ''.'' table of
        (a, Some b) \<Rightarrow> Inr (a, b)
      | (a, None) \<Rightarrow>
          Inl (Errorf (''--tables-list only accepts qualified table names, but '' @ [BT] @ ''%s'' @ [BT] @ '' lacks a dot'') [table]))"

definition ParseTableFilter ::
  "regexp_engine \<Rightarrow> file_system \<Rightarrow> string list \<Rightarrow> string list \<Rightarrow> error + Filter" where
  "ParseTableFilter re fs tablesList filters =
     (if tablesList = [] then Parse re fs filters
      else if filters \<noteq> [''*.*'', DefaultTableFilter]
        then Inl (Errorf ''cannot pass --tables-list and --filter together'' [])
      else bindR (mapR qualified_name tablesList) (\<lambda>names.
             Inr (NewTablesFilter (map (\<lambda>(s, n). \<lparr>t_Schema = s, t_Name = n\<rparr>) names))))"

definition GetConfTables :: "string list \<Rightarrow> error + DatabaseTables" where
  "GetConfTables tablesList =
     bindR (mapR qualified_name tablesList) (\<lambda>names.
       Inr (foldl (\<lambda>d (dbName, tbName).
              AppendTable d dbName \<lparr>ti_Name = tbName, ti_AvgRowLength = 0, ti_Type = TableTypeBase\<rparr>) [] names))"

definition ParseCompressType :: "string \<Rightarrow> error + CompressType" where
  "ParseCompressType s =
     (if s \<in> {'''', ''no-compression''} then Inr NoCompression
      else if s \<in> {''gzip'', ''gz''} then Inr Gzip
      else if s = ''snappy'' then Inr Snappy
      else if s \<in> {''zstd'', ''zst''} then Inr Zstd
      else Inl (Errorf ''unknown compress type %s'' [s]))"

definition ParseOutputDialect :: "string \<Rightarrow> error + CSVDialect" where
  "ParseOutputDialect s =
     (if s \<in> {'''', ''default''} then Inr CSVDialectDefault
      else if s = ''snowflake'' then Inr CSVDialectSnowflake
      else if s = ''redshift'' then Inr CSVDialectRedshift
      else if s = ''bigquery'' then Inr CSVDialectBigQuery
      else Inl (Errorf ''unknown output dialect %s'' [s]))"

text \<open>\<open>ValidateCDCName\<close> (\<open>export/cdc.go\<close>).\<close>

definition cdc_char :: "char \<Rightarrow> bool" where
  "cdc_char c \<longleftrightarrow>
     (97 \<le> byte c \<and> byte c \<le> 122) \<or> (48 \<le> byte c \<and> byte c \<le> 57) \<or> c = CHR ''_''"

definition ValidateCDCName :: "string \<Rightarrow> string \<Rightarrow> error option" where
  "ValidateCDCName flag name =
     (if name = '''' then Some (Errorf ''%s must not be empty'' [flag])
      else if length name > 63 then Some (Errorf ''%s %q exceeds the 63-character limit'' [flag, name])
      else (case List.find (\<lambda>c. \<not> cdc_char c) name of
              Some c \<Rightarrow>
                Some (Errorf ''%s %q contains invalid character %q (only [a-z0-9_] allowed in replication-protocol identifiers)''
                        [flag, name, [c]])
            | None \<Rightarrow> None))"

text \<open>
  \<open>ParseFromFlags\<close>, statement by statement. The first group stores flag values; the second derives
  values and checks them. Each statement either fails, ending the function with its error, or gives
  the updated configuration.
\<close>

definition str_flag :: "FlagSet \<Rightarrow> string \<Rightarrow> (string \<Rightarrow> Config \<Rightarrow> Config) \<Rightarrow> Config \<Rightarrow> error + Config" where
  "str_flag fl name upd conf = bindR (GetString fl name) (\<lambda>v. Inr (upd v conf))"

definition bool_flag :: "FlagSet \<Rightarrow> string \<Rightarrow> (bool \<Rightarrow> Config \<Rightarrow> Config) \<Rightarrow> Config \<Rightarrow> error + Config" where
  "bool_flag fl name upd conf = bindR (GetBool fl name) (\<lambda>v. Inr (upd v conf))"

definition int_flag :: "FlagSet \<Rightarrow> string \<Rightarrow> (int \<Rightarrow> Config \<Rightarrow> Config) \<Rightarrow> Config \<Rightarrow> error + Config" where
  "int_flag fl name upd conf = bindR (GetInt fl name) (\<lambda>v. Inr (upd v conf))"

definition u64_flag :: "FlagSet \<Rightarrow> string \<Rightarrow> (u64 \<Rightarrow> Config \<Rightarrow> Config) \<Rightarrow> Config \<Rightarrow> error + Config" where
  "u64_flag fl name upd conf = bindR (GetUint64 fl name) (\<lambda>v. Inr (upd v conf))"

definition store_flags :: "FlagSet \<Rightarrow> Config \<Rightarrow> error + Config" where
  "store_flags fl = runR
     [\<lambda>conf. bindR (GetStringSlice fl ''database'') (\<lambda>v. Inr (conf\<lparr>Databases := v\<rparr>)),
      str_flag fl ''host'' (\<lambda>v conf. conf\<lparr>Host := v\<rparr>),
      str_flag fl ''user'' (\<lambda>v conf. conf\<lparr>User := v\<rparr>),
      int_flag fl ''port'' (\<lambda>v conf. conf\<lparr>Port := v\<rparr>),
      str_flag fl ''password'' (\<lambda>v conf. conf\<lparr>Password := v\<rparr>),
      int_flag fl ''threads'' (\<lambda>v conf. conf\<lparr>Threads := v\<rparr>),
      u64_flag fl ''statement-size'' (\<lambda>v conf. conf\<lparr>StatementSize := v\<rparr>),
      str_flag fl ''output'' (\<lambda>v conf. conf\<lparr>OutputDirPath := v\<rparr>),
      str_flag fl ''loglevel'' (\<lambda>v conf. conf\<lparr>LogLevel := v\<rparr>),
      str_flag fl ''logfile'' (\<lambda>v conf. conf\<lparr>LogFile := v\<rparr>),
      str_flag fl ''logfmt'' (\<lambda>v conf. conf\<lparr>LogFormat := v\<rparr>),
      str_flag fl ''consistency'' (\<lambda>v conf. conf\<lparr>Consistency := v\<rparr>),
      str_flag fl ''snapshot'' (\<lambda>v conf. conf\<lparr>Snapshot := v\<rparr>),
      bool_flag fl ''no-views'' (\<lambda>v conf. conf\<lparr>NoViews := v\<rparr>),
      bool_flag fl ''no-sequences'' (\<lambda>v conf. conf\<lparr>NoSequences := v\<rparr>),
      bool_flag fl ''order-by-primary-key'' (\<lambda>v conf. conf\<lparr>SortByPk := v\<rparr>),
      str_flag fl ''status-addr'' (\<lambda>v conf. conf\<lparr>StatusAddr := v\<rparr>),
      u64_flag fl ''rows'' (\<lambda>v conf. conf\<lparr>Rows := v\<rparr>),
      str_flag fl ''where'' (\<lambda>v conf. conf\<lparr>Where := v\<rparr>),
      bool_flag fl ''escape-backslash'' (\<lambda>v conf. conf\<lparr>EscapeBackslash := v\<rparr>),
      str_flag fl ''filetype'' (\<lambda>v conf. conf\<lparr>FileType := v\<rparr>),
      bool_flag fl ''no-header'' (\<lambda>v conf. conf\<lparr>NoHeader := v\<rparr>),
      bool_flag fl ''no-schemas'' (\<lambda>v conf. conf\<lparr>NoSchemas := v\<rparr>),
      bool_flag fl ''no-data'' (\<lambda>v conf. conf\<lparr>NoData := v\<rparr>),
      str_flag fl ''csv-null-value'' (\<lambda>v conf. conf\<lparr>CsvNullValue := v\<rparr>),
      str_flag fl ''sql'' (\<lambda>v conf. conf\<lparr>SQL := v\<rparr>),
      bool_flag fl ''dump-empty-database'' (\<lambda>v conf. conf\<lparr>DumpEmptyDatabase := v\<rparr>),
      str_flag fl ''ca'' (\<lambda>v conf. conf\<lparr>CAPath := v\<rparr>),
      str_flag fl ''cert'' (\<lambda>v conf. conf\<lparr>CertPath := v\<rparr>),
      str_flag fl ''key'' (\<lambda>v conf. conf\<lparr>KeyPath := v\<rparr>),
      str_flag fl ''csv-separator'' (\<lambda>v conf. conf\<lparr>CsvSeparator := v\<rparr>),
      str_flag fl ''csv-delimiter'' (\<lambda>v conf. conf\<lparr>CsvDelimiter := v\<rparr>),
      str_flag fl ''csv-line-terminator'' (\<lambda>v conf. conf\<lparr>CsvLineTerminator := v\<rparr>),
      bool_flag fl ''complete-insert'' (\<lambda>v conf. conf\<lparr>CompleteInsert := v\<rparr>),
      \<lambda>conf. bindR (GetDuration fl ''read-timeout'') (\<lambda>v. Inr (conf\<lparr>ReadTimeout := v\<rparr>)),
      bool_flag fl ''transactional-consistency'' (\<lambda>v conf. conf\<lparr>TransactionalConsistency := v\<rparr>)]"

definition check_threads :: "Config \<Rightarrow> error + Config" where
  "check_threads conf =
     (if Threads conf \<le> 0
        then Inl (Errorf ''--threads is set to %d. It should be greater than 0'' [fmt_int (Threads conf)])
      else if CsvSeparator conf = []
        then Inl (Errorf (''--csv-separator is set to '' @ [DQ, DQ] @ ''. It must not be an empty string'') [])
      else Inr conf)"

definition parse_tables ::
  "(string \<Rightarrow> string) \<Rightarrow> regexp_engine \<Rightarrow> file_system \<Rightarrow> string list \<Rightarrow> string list \<Rightarrow> bool \<Rightarrow> Config \<Rightarrow> error + Config"
where
  "parse_tables uni re fs tablesList filters caseSensitive conf =
     bindR (GetConfTables tablesList) (\<lambda>tbls.
       case ParseTableFilter re fs tablesList filters of
         Inl e \<Rightarrow> Inl (Errorf ''failed to parse filter: %s'' [error_text e])
       | Inr f \<Rightarrow>
           bindR (if caseSensitive then Inr f else CaseInsensitive uni re f) (\<lambda>g.
             Inr (conf\<lparr>SpecifiedTables := tablesList \<noteq> [], Tables := tbls, TableFilter := g\<rparr>)))"

definition parse_template :: "(string \<Rightarrow> bool) \<Rightarrow> string \<Rightarrow> Config \<Rightarrow> error + Config" where
  "parse_template tmpl_ok format0 conf =
     (let format = (if format0 = '''' \<and> SQL conf \<noteq> '''' then DefaultAnonymousOutputFileTemplateText else format0)
      in if tmpl_ok format then Inr (conf\<lparr>OutputFileTemplate := format\<rparr>)
         else Inl (Errorf (''failed to parse output filename template (--output-filename-template '' @
                     [SQ] @ ''%s'' @ [SQ] @ '')'') [format]))"

definition parse_dialects :: "(string \<Rightarrow> string) \<Rightarrow> FlagSet \<Rightarrow> Config \<Rightarrow> error + Config" where
  "parse_dialects uni fl = runR
     [\<lambda>conf. bindR (GetString fl ''compress'') (\<lambda>s. bindR (ParseCompressType s) (\<lambda>t.
        Inr (conf\<lparr>conf_CompressType := t\<rparr>))),
      \<lambda>conf. bindR (GetString fl ''csv-output-dialect'') (\<lambda>dialect.
        if dialect \<noteq> '''' \<and> FileType conf \<noteq> ''csv''
        then Inl (Errorf ''%s is only supported when dumping whole table to csv, not compatible with %s''
                    [''csv-output-dialect'', FileType conf])
        else bindR (ParseOutputDialect dialect) (\<lambda>d. Inr (conf\<lparr>CsvOutputDialect := d\<rparr>))),
      \<lambda>conf. bindR (GetString fl ''target'') (\<lambda>s. bindR (ParseSQLTarget uni s) (\<lambda>t.
        Inr (conf\<lparr>Target := t\<rparr>)))]"

definition check_cdc :: "Config \<Rightarrow> error + Config" where
  "check_cdc conf =
     (if CDCSlot conf = '''' then Inr conf
      else (case ValidateCDCName ''--cdc-slot'' (CDCSlot conf) of
              Some e \<Rightarrow> Inl e
            | None \<Rightarrow> (case ValidateCDCName ''--cdc-plugin'' (CDCPlugin conf) of
                         Some e \<Rightarrow> Inl e
                       | None \<Rightarrow> Inr conf)))"

definition parse_cdc :: "FlagSet \<Rightarrow> Config \<Rightarrow> error + Config" where
  "parse_cdc fl = runR
     [str_flag fl ''cdc-slot'' (\<lambda>v conf. conf\<lparr>CDCSlot := v\<rparr>),
      str_flag fl ''cdc-plugin'' (\<lambda>v conf. conf\<lparr>CDCPlugin := v\<rparr>),
      bool_flag fl ''cdc-cleanup-on-failure'' (\<lambda>v conf. conf\<lparr>CDCCleanupOnFailure := v\<rparr>),
      check_cdc]"

definition parse_preamble :: "FlagSet \<Rightarrow> Config \<Rightarrow> error + Config" where
  "parse_preamble fl conf =
     bindR (GetBool fl ''no-preamble'') (\<lambda>v.
       Inr (conf\<lparr>NoPreamble := v \<or> (\<not> Changed fl ''no-preamble'' \<and> Target conf = TargetTiDB)\<rparr>))"

definition ParseFromFlags ::
  "(string \<Rightarrow> string) \<Rightarrow> regexp_engine \<Rightarrow> file_system \<Rightarrow> (string \<Rightarrow> bool) \<Rightarrow> (string \<Rightarrow> int option)
    \<Rightarrow> error option \<Rightarrow> FlagSet \<Rightarrow> Config \<Rightarrow> error + Config" where
  "ParseFromFlags uni re fs tmpl_ok ram backend fl conf =
     bindR (store_flags fl conf) (\<lambda>conf.
     bindR (check_threads conf) (\<lambda>conf.
     bindR (GetStringSlice fl ''tables-list'') (\<lambda>tablesList.
     bindR (GetString fl ''filesize'') (\<lambda>fileSizeStr.
     bindR (GetStringSlice fl ''filter'') (\<lambda>filters.
     bindR (GetBool fl ''case-sensitive'') (\<lambda>caseSensitive.
     bindR (GetString fl ''output-filename-template'') (\<lambda>format.
     bindR (GetStringToString fl ''params'') (\<lambda>params.
     bindR (parse_tables uni re fs tablesList filters caseSensitive conf) (\<lambda>conf.
     bindR (ParseFileSize ram fileSizeStr) (\<lambda>fsize.
     bindR (parse_template tmpl_ok format (conf\<lparr>FileSize := fsize\<rparr>)) (\<lambda>conf.
     bindR (parse_dialects uni fl conf) (\<lambda>conf.
     bindR (parse_cdc fl conf) (\<lambda>conf.
     bindR (parse_preamble fl conf) (\<lambda>conf.
       case backend of
         Some e \<Rightarrow> Inl e
       | None \<Rightarrow> Inr (conf\<lparr>SessionParams :=
           foldl (\<lambda>m (k, v). AList.update k v m) (SessionParams conf) params\<rparr>)))))))))))))))"

section \<open>Adjusting the configuration before a dump\<close>

definition adjustConfig :: "(Config \<Rightarrow> error + Config) list \<Rightarrow> Config \<Rightarrow> error + Config" where
  "adjustConfig fns = runR fns"

text \<open>
  \<open>buildTLSConfig\<close>: reading files is \<open>fs\<close>; \<open>pem_ok\<close> and \<open>pair_err\<close> are \<open>AppendCertsFromPEM\<close> and
  \<open>tls.X509KeyPair\<close>. The version 771 is \<open>tls.VersionTLS12\<close>.
\<close>

definition read_material :: "file_system \<Rightarrow> bytes \<Rightarrow> string \<Rightarrow> string \<Rightarrow> error + bytes" where
  "read_material fs given path what =
     (if given \<noteq> [] then Inr given
      else (case fs path of Inl e \<Rightarrow> Inl (Annotatef e what [path]) | Inr b \<Rightarrow> Inr b))"

definition buildTLSConfig ::
  "file_system \<Rightarrow> (bytes \<Rightarrow> bool) \<Rightarrow> (bytes \<Rightarrow> bytes \<Rightarrow> error option) \<Rightarrow> Config \<Rightarrow> error + Config" where
  "buildTLSConfig fs pem_ok pair_err conf =
     (let hasMaterial = CAPath conf \<noteq> '''' \<or> CertPath conf \<noteq> '''' \<or> KeyPath conf \<noteq> '''' \<or>
            SSLCABytes conf \<noteq> [] \<or> SSLCertBytes conf \<noteq> [] \<or> SSLKeyBytes conf \<noteq> [];
          hasCert = (SSLCertBytes conf \<noteq> [] \<or> CertPath conf \<noteq> '''');
          hasKey = (SSLKeyBytes conf \<noteq> [] \<or> KeyPath conf \<noteq> '''');
          minVer = (if MinTLSVersion conf = 0 then 771 else MinTLSVersion conf)
      in if \<not> hasMaterial \<and> MinTLSVersion conf = 0 then Inr (conf\<lparr>TLS := None\<rparr>)
         else
           bindR (if SSLCABytes conf \<noteq> [] \<or> CAPath conf \<noteq> ''''
                  then bindR (read_material fs (SSLCABytes conf) (CAPath conf) ''read CA file %q'') (\<lambda>ca.
                         if pem_ok ca then Inr (Some ca)
                         else Inl (Errorf ''failed to append CA certificates from %q'' [CAPath conf]))
                  else Inr None) (\<lambda>ca.
             if hasCert \<noteq> hasKey then Inl (Errorf ''--cert and --key must be specified together'' [])
             else
               bindR (if hasCert
                      then bindR (read_material fs (SSLCertBytes conf) (CertPath conf) ''read cert file %q'') (\<lambda>cert.
                           bindR (read_material fs (SSLKeyBytes conf) (KeyPath conf) ''read key file %q'') (\<lambda>key.
                             case pair_err cert key of
                               Some e \<Rightarrow> Inl (Annotatef e ''parse cert/key pair'' [])
                             | None \<Rightarrow> Inr (Some (cert, key))))
                      else Inr None) (\<lambda>pair.
                 Inr (conf\<lparr>TLS := Some \<lparr>tls_MinVersion = minVer, tls_RootCAs = ca, tls_Certificate = pair\<rparr>\<rparr>))))"

definition validateSpecifiedSQL :: "Config \<Rightarrow> error + Config" where
  "validateSpecifiedSQL conf =
     (if SQL conf \<noteq> '''' \<and> Where conf \<noteq> ''''
      then Inl (Errorf (''can'' @ [SQ] @ ''t specify both --sql and --where at the same time. Please try to combine them into --sql'') [])
      else Inr conf)"

definition adjustFileFormat :: "(string \<Rightarrow> string) \<Rightarrow> Config \<Rightarrow> error + Config" where
  "adjustFileFormat uni conf0 =
     (let conf = conf0\<lparr>FileType := ToLower uni (FileType conf0)\<rparr>
      in if FileType conf = '''' then
           Inr (conf\<lparr>FileType := (if SQL conf \<noteq> '''' then FileFormatCSVString else FileFormatSQLTextString)\<rparr>)
         else if FileType conf = FileFormatSQLTextString then
           (if SQL conf \<noteq> ''''
            then Inl (Errorf (''unsupported config.FileType '' @ [SQ] @ ''%s'' @ [SQ] @
                        '' when we specify --sql, please unset --filetype or set it to '' @ [SQ] @ ''csv'' @ [SQ])
                        [FileType conf])
            else Inr conf)
         else if FileType conf = FileFormatCSVString then Inr conf
         else Inl (Errorf (''unknown config.FileType '' @ [SQ] @ ''%s'' @ [SQ]) [FileType conf]))"

section \<open>What accepted flags guarantee\<close>

lemma parse_tables_frame:
  "parse_tables uni re fs tbs fi cs conf = Inr c \<Longrightarrow>
    \<exists>s t g. c = conf\<lparr>SpecifiedTables := s, Tables := t, TableFilter := g\<rparr>"
  by (cases "ParseTableFilter re fs tbs fi") (auto simp: parse_tables_def result_iff)

lemma parse_template_frame:
  "parse_template ok f conf = Inr c \<Longrightarrow> \<exists>t. c = conf\<lparr>OutputFileTemplate := t\<rparr>"
  by (auto simp: parse_template_def Let_def split: if_splits)

lemma parse_dialects_frame:
  "parse_dialects uni fl conf = Inr c \<Longrightarrow>
    \<exists>t d g. c = conf\<lparr>conf_CompressType := t, CsvOutputDialect := d, Target := g\<rparr>"
  by (auto simp: parse_dialects_def result_iff split: if_splits)

lemma parse_cdc_frame:
  "parse_cdc fl conf = Inr c \<Longrightarrow> (\<exists>s p b. c = conf\<lparr>CDCSlot := s, CDCPlugin := p, CDCCleanupOnFailure := b\<rparr>) \<and>
    (CDCSlot c \<noteq> '''' \<longrightarrow> ValidateCDCName ''--cdc-slot'' (CDCSlot c) = None \<and>
      ValidateCDCName ''--cdc-plugin'' (CDCPlugin c) = None)"
  by (auto simp: parse_cdc_def str_flag_def bool_flag_def check_cdc_def result_iff split: if_splits option.splits)

lemma parse_preamble_frame:
  "parse_preamble fl conf = Inr c \<Longrightarrow>
    \<exists>v. GetBool fl ''no-preamble'' = Inr v \<and>
      c = conf\<lparr>NoPreamble := v \<or> (\<not> Changed fl ''no-preamble'' \<and> Target conf = TargetTiDB)\<rparr>"
  by (auto simp: parse_preamble_def result_iff)

lemma ValidateCDCName_iff:
  "ValidateCDCName flag name = None \<longleftrightarrow> name \<noteq> '''' \<and> length name \<le> 63 \<and> list_all cdc_char name"
proof -
  have "List.find (\<lambda>c. \<not> cdc_char c) name = None \<longleftrightarrow> list_all cdc_char name"
    by (auto simp: find_None_iff list_all_iff)
  then show ?thesis by (cases "List.find (\<lambda>c. \<not> cdc_char c) name") (auto simp: ValidateCDCName_def)
qed

text \<open>C35: A configuration accepted by \<open>ParseFromFlags\<close> is usable: there is at least one thread, the CSV
  separator is not empty, the replication slot and plugin names of a requested slot are made of the 63
  characters at most that a replication command takes unquoted, and the SET preamble is suppressed by
  default exactly for the TiDB target, an explicit flag always winning.\<close>

theorem accepted_flags_wellformed:
  assumes "ParseFromFlags uni re fs tmpl_ok ram backend fl conf = Inr c"
  shows "0 < Threads c \<and> CsvSeparator c \<noteq> [] \<and>
    (CDCSlot c \<noteq> '''' \<longrightarrow> length (CDCSlot c) \<le> 63 \<and> list_all cdc_char (CDCSlot c) \<and>
       CDCPlugin c \<noteq> '''' \<and> length (CDCPlugin c) \<le> 63 \<and> list_all cdc_char (CDCPlugin c)) \<and>
    (\<exists>v. GetBool fl ''no-preamble'' = Inr v \<and>
       NoPreamble c = (if Changed fl ''no-preamble'' then v else v \<or> Target c = TargetTiDB))"
proof -
  from assms obtain c0 c1 tbs fi cs c2 sz c3 f c4 c5 c6 ps where
    "check_threads c0 = Inr c1" and
    steps: "parse_tables uni re fs tbs fi cs c1 = Inr c2"
      "parse_template tmpl_ok f (c2\<lparr>FileSize := sz\<rparr>) = Inr c3" "parse_dialects uni fl c3 = Inr c4"
      "parse_cdc fl c4 = Inr c5" "parse_preamble fl c5 = Inr c6"
    and c: "c = c6\<lparr>SessionParams := ps\<rparr>"
    by (auto simp: ParseFromFlags_def result_iff split: option.splits)
  then have "0 < Threads c1 \<and> CsvSeparator c1 \<noteq> []"
    by (auto simp: check_threads_def split: if_splits)
  with parse_tables_frame [OF steps(1)] parse_template_frame [OF steps(2)] parse_dialects_frame [OF steps(3)]
    parse_cdc_frame [OF steps(4)] parse_preamble_frame [OF steps(5)]
  show ?thesis by (auto simp: c ValidateCDCName_iff)
qed

text \<open>The values the flags have when the user gives none, with the TiDB target and a slot.\<close>

definition sample_flags :: FlagSet where
  "sample_flags =
     \<lparr>GetString = (\<lambda>n. Inr (if n = ''target'' then ''tidb'' else if n = ''cdc-slot'' then ''slot_1''
         else if n = ''cdc-plugin'' then ''pgoutput'' else if n = ''csv-separator'' then '','' else '''')),
      GetStringSlice = (\<lambda>n. Inr (if n = ''filter'' then [''*.*''] else [])),
      GetInt = (\<lambda>n. Inr (if n = ''threads'' then 4 else 5432)), GetUint64 = (\<lambda>_. Inr 0),
      GetBool = (\<lambda>_. Inr False), GetDuration = (\<lambda>_. Inr 0), GetStringToString = (\<lambda>_. Inr []),
      Changed = (\<lambda>_. False)\<rparr>"

theorem accepted_flags_wellformed_witness:
  "\<exists>c. ParseFromFlags id (\<lambda>_. Inr (\<lambda>_. False)) (\<lambda>_. Inl (External '''')) (\<lambda>_. True) (\<lambda>_. None) None
         sample_flags DefaultConfig = Inr c \<and>
       Target c = TargetTiDB \<and> CDCSlot c = ''slot_1'' \<and> NoPreamble c \<and> list_all cdc_char (CDCSlot c)"
proof -
  let ?p = "ParseFromFlags id (\<lambda>_. Inr (\<lambda>_. False)) (\<lambda>_. Inl (External '''')) (\<lambda>_. True) (\<lambda>_. None) None
         sample_flags DefaultConfig"
  have "case ?p of Inl _ \<Rightarrow> False | Inr c \<Rightarrow> Target c = TargetTiDB \<and> CDCSlot c = ''slot_1''"
    by code_simp
  then obtain c where c: "?p = Inr c" "Target c = TargetTiDB" "CDCSlot c = ''slot_1''"
    by (auto split: sum.splits)
  from accepted_flags_wellformed [OF c(1)] c show ?thesis by (auto simp: sample_flags_def)
qed

section \<open>Credentials in the connection string\<close>

text \<open>How a URL parser reads the user information: split at the first colon, then undo the escapes.\<close>

fun percent_decode :: "string \<Rightarrow> string option" where
  "percent_decode [] = Some []"
| "percent_decode (c # s) =
     (if c = CHR ''%'' then
        (case s of
           h # l # r \<Rightarrow>
             (case (unhex [h, l], percent_decode r) of (Some b, Some t) \<Rightarrow> Some (b @ t) | _ \<Rightarrow> None)
         | _ \<Rightarrow> None)
      else map_option (Cons c) (percent_decode s))"

definition parse_userinfo :: "string \<Rightarrow> (string \<times> string) option" where
  "parse_userinfo s =
     (case split2 CHR '':'' s of
        (u, None) \<Rightarrow> map_option (\<lambda>x. (x, '''')) (percent_decode u)
      | (u, Some p) \<Rightarrow> (case (percent_decode u, percent_decode p) of (Some x, Some y) \<Rightarrow> Some (x, y) | _ \<Rightarrow> None))"

lemma unhex_02X: "unhex (fmt_02X c) = Some [c]"
  using unhex_fmt_X [of "[c]"] by (simp add: fmt_X_def)

lemma percent_unsafe: "CHR ''%'' \<notin> set url_safe" "CHR '':'' \<notin> set url_safe" "CHR ''@'' \<notin> set url_safe"
  "CHR ''/'' \<notin> set url_safe" "CHR ''?'' \<notin> set url_safe"
  by (simp_all add: url_safe_def)

lemma fmt_02X_two: "\<exists>h l. fmt_02X c = [h, l] \<and> h \<in> hex_upper ` {..<16} \<and> l \<in> hex_upper ` {..<16}"
  by (auto simp: fmt_02X_def)

lemma hex_upper_safe: "n < 16 \<Longrightarrow> hex_upper n \<in> set url_safe"
proof -
  have "list_all (\<lambda>n. hex_upper n \<in> set url_safe) [0..<16]" by code_simp
  then show "n < 16 \<Longrightarrow> hex_upper n \<in> set url_safe" by (simp add: list_all_iff)
qed

lemma percent_decode_urlEscape: "percent_decode (urlEscape s) = Some s"
proof (induction s)
  case (Cons c s)
  obtain h l where hl: "fmt_02X c = [h, l]" using fmt_02X_two by blast
  then have "unhex [h, l] = Some [c]" using unhex_02X [of c] by simp
  with Cons hl percent_unsafe(1) show ?case by auto
qed simp

lemma urlEscape_set: "set (urlEscape s) \<subseteq> insert (CHR ''%'') (set url_safe)"
proof (induction s)
  case (Cons c s)
  obtain h l where "fmt_02X c = [h, l]" "h \<in> set url_safe" "l \<in> set url_safe"
    using fmt_02X_two [of c] hex_upper_safe by blast
  with Cons show ?case by auto
qed simp

lemma urlEscape_avoids: "d \<noteq> CHR ''%'' \<Longrightarrow> d \<notin> set url_safe \<Longrightarrow> d \<notin> set (urlEscape s)"
  using urlEscape_set by blast


section \<open>File size\<close>



section \<open>Output format\<close>

text \<open>C37: After the adjustments made before a dump, the file type is \<open>sql\<close> or \<open>csv\<close>, a dump of a given
  query is in CSV and has no separate condition, and a certificate was loaded only together with its key;
  adjusting the format again changes nothing.\<close>

theorem adjusted_config:
  assumes "adjustConfig [buildTLSConfig fs pem_ok pair_err, validateSpecifiedSQL, adjustFileFormat uni] conf = Inr c"
  shows "FileType c \<in> {FileFormatSQLTextString, FileFormatCSVString} \<and>
    (SQL c \<noteq> '''' \<longrightarrow> FileType c = FileFormatCSVString \<and> Where c = '''') \<and>
    adjustFileFormat uni c = Inr c \<and>
    ((CertPath c \<noteq> '''' \<or> SSLCertBytes c \<noteq> []) \<longleftrightarrow> (KeyPath c \<noteq> '''' \<or> SSLKeyBytes c \<noteq> []))"
proof -
  from assms obtain c0 c1 where s: "buildTLSConfig fs pem_ok pair_err conf = Inr c0"
      "validateSpecifiedSQL c0 = Inr c1" "adjustFileFormat uni c1 = Inr c"
    by (auto simp: adjustConfig_def result_iff)
  have "(CertPath c0 \<noteq> '''' \<or> SSLCertBytes c0 \<noteq> []) \<longleftrightarrow> (KeyPath c0 \<noteq> '''' \<or> SSLKeyBytes c0 \<noteq> [])"
    using s(1) by (auto simp: buildTLSConfig_def Let_def result_iff split: if_splits)
  moreover have "c1 = c0 \<and> (SQL c1 = '''' \<or> Where c1 = '''')"
    using s(2) by (auto simp: validateSpecifiedSQL_def split: if_splits)
  moreover obtain t where c: "c = c1\<lparr>FileType := t\<rparr>" "t = FileFormatSQLTextString \<and> SQL c1 = '''' \<or> t = FileFormatCSVString"
    using s(3) by (auto simp: adjustFileFormat_def Let_def split: if_splits)
  moreover have "ToLower uni t = t"
    using c(2) by (auto simp: ToLower_def is_ascii_def FileFormatSQLTextString_def FileFormatCSVString_def lower_byte_def)
  ultimately show ?thesis
    by (auto simp: adjustFileFormat_def FileFormatSQLTextString_def FileFormatCSVString_def)
qed

theorem adjusted_config_witness:
  "\<exists>c. adjustConfig [buildTLSConfig (\<lambda>_. Inl (External '''')) (\<lambda>_. True) (\<lambda>_ _. None), validateSpecifiedSQL,
         adjustFileFormat id] (DefaultConfig\<lparr>SQL := ''select 1''\<rparr>) = Inr c \<and> FileType c = FileFormatCSVString"
proof -
  obtain c where c: "adjustConfig [buildTLSConfig (\<lambda>_. Inl (External '''')) (\<lambda>_. True) (\<lambda>_ _. None), validateSpecifiedSQL,
         adjustFileFormat id] (DefaultConfig\<lparr>SQL := ''select 1''\<rparr>) = Inr c"
    and "SQL c = ''select 1''"
    by (simp add: adjustConfig_def buildTLSConfig_def validateSpecifiedSQL_def adjustFileFormat_def
        DefaultConfig_def Let_def ToLower_def is_ascii_def)
  with adjusted_config [OF c] show ?thesis by auto
qed

section \<open>The table list\<close>

lemma qualified_name_iff: "qualified_name x = Inr (s, t) \<longleftrightarrow> x = s @ ''.'' @ t \<and> CHR ''.'' \<notin> set s"
  by (auto simp: qualified_name_def split2_Some_iff [symmetric] split: prod.splits option.splits)

lemma tables_fold:
  "listed (foldl (\<lambda>d (dbName, tbName). AppendTable d dbName
       \<lparr>ti_Name = tbName, ti_AvgRowLength = 0, ti_Type = TableTypeBase\<rparr>) d names) s t \<longleftrightarrow>
     listed d s t \<or> (s, t) \<in> set names"
proof (induction names arbitrary: d)
  case (Cons x xs)
  then show ?case
    by (cases x) (auto simp: AppendTable_def listed_def)
qed simp

definition add_table :: "(string \<times> string list) list \<Rightarrow> Table \<Rightarrow> (string \<times> string list) list" where
  "add_table acc t =
     (let old = (case map_of acc (t_Schema t) of None \<Rightarrow> [] | Some ts \<Rightarrow> ts)
      in AList.update (t_Schema t) (List.insert (t_Name t) old) acc)"

lemma NewTablesFilter_fold: "NewTablesFilter tables = tablesFilter (foldl add_table [] tables)"
  by (simp add: NewTablesFilter_def add_table_def [abs_def])

lemma add_table_match:
  "MatchTable uni re (tablesFilter (add_table acc x)) s t \<longleftrightarrow>
     MatchTable uni re (tablesFilter acc) s t \<or> (s = t_Schema x \<and> t = t_Name x)"
  by (auto simp: add_table_def Let_def update_conv' split: option.splits)

lemma NewTablesFilter_match:
  "MatchTable uni re (NewTablesFilter tables) s t \<longleftrightarrow> \<lparr>t_Schema = s, t_Name = t\<rparr> \<in> set tables"
proof -
  have "MatchTable uni re (tablesFilter (foldl add_table acc tables)) s t \<longleftrightarrow>
      MatchTable uni re (tablesFilter acc) s t \<or> \<lparr>t_Schema = s, t_Name = t\<rparr> \<in> set tables" for acc
  proof (induction tables arbitrary: acc)
    case (Cons x xs)
    then show ?case by (cases x) (auto simp: add_table_match simp del: MatchTable.simps)
  qed simp
  from this [of "[]"] show ?thesis by (simp add: NewTablesFilter_fold)
qed

lemma tables_list_names:
  assumes "mapR qualified_name xs = Inr names"
  shows "(s, t) \<in> set names \<longleftrightarrow> (s @ ''.'' @ t \<in> set xs \<and> CHR ''.'' \<notin> set s)"
proof -
  from assms have l: "list_all2 (\<lambda>x y. qualified_name x = Inr y) xs names" by (simp add: result_iff)
  have "(s, t) \<in> set names \<longleftrightarrow> (\<exists>x\<in>set xs. qualified_name x = Inr (s, t))"
    using l by (induction rule: list_all2_induct) auto
  then show ?thesis by (auto simp: qualified_name_iff)
qed



end
