(* ===== verification/Sql_Build.thy ===== *)
theory Sql_Build
  imports Config
begin

text \<open>
  The query builders and result readers of \<open>export/sql.go\<close>: select statements with their conditions
  and orderings, the migration casts, the range conditions over composite keys, and the functions that
  read the answers of catalog queries.

  The database is a parameter \<open>db\<close>: the answer it gives to each catalog query, named by the function
  that issues it, for the arguments that are bound to it. An answer is an error or the rows, as
  \<open>QuerySQLWithColumns\<close> and \<open>QuerySQL\<close> deliver them after their retries.
\<close>

section \<open>Result sets\<close>

text \<open>
  What a \<open>sql.Rows\<close> yields: its columns, then for every \<open>Next\<close> the outcome of \<open>Scan\<close>, then \<open>Err\<close>.
\<close>

record sql_rows =
  rows_Columns :: "error + string list"
  rows_Scan :: "(error + raw_bytes list) list"
  rows_Err :: "error option"

text \<open>The loop over the rows: the values collected so far are returned with the error that stops it.\<close>

fun scan_rows ::
  "(raw_bytes list \<Rightarrow> 'a option) \<Rightarrow> (error + raw_bytes list) list \<Rightarrow> error option \<Rightarrow> 'a list \<times> error option" where
  "scan_rows f [] err = ([], err)"
| "scan_rows f (Inl e # rs) err = ([], Some e)"
| "scan_rows f (Inr row # rs) err =
     (case f row of None \<Rightarrow> scan_rows f rs err | Some v \<Rightarrow> apfst (Cons v) (scan_rows f rs err))"

text \<open>
  \<open>strings.EqualFold\<close> is the parameter \<open>eqf\<close>. The last column of the name wins; NULLs are skipped.
\<close>

definition field_index :: "(string \<Rightarrow> string \<Rightarrow> bool) \<Rightarrow> string list \<Rightarrow> string \<Rightarrow> nat option" where
  "field_index eqf columns name =
     (case filter (\<lambda>i. eqf (columns ! i) name) [0..<length columns] of [] \<Rightarrow> None | is \<Rightarrow> Some (last is))"

definition GetSpecifiedColumnValueAndClose ::
  "(string \<Rightarrow> string \<Rightarrow> bool) \<Rightarrow> sql_rows option \<Rightarrow> string \<Rightarrow> string list \<times> error option" where
  "GetSpecifiedColumnValueAndClose eqf rows columnName =
     (case rows of
        None \<Rightarrow> ([], None)
      | Some rs \<Rightarrow>
          let columns = (case rows_Columns rs of Inl _ \<Rightarrow> [] | Inr cs \<Rightarrow> cs)
          in (case field_index eqf columns columnName of
                None \<Rightarrow> ([], None)
              | Some i \<Rightarrow> scan_rows (\<lambda>row. row ! i) (rows_Scan rs) (rows_Err rs)))"

text \<open>
  \<open>fieldIndexMp\<close> sends a column position to the position of its name (the last one, when a name is
  asked for twice). A row is kept when one of its wanted cells is not NULL; NULLs become empty strings.
  Go iterates over the map in no fixed order; two columns with one name would race for one slot, and
  the model lets the later column win.
\<close>

definition name_pos :: "(string \<Rightarrow> string \<Rightarrow> bool) \<Rightarrow> string list \<Rightarrow> string \<Rightarrow> nat option" where
  "name_pos eqf columnNames col =
     (case filter (\<lambda>j. eqf col (columnNames ! j)) [0..<length columnNames] of [] \<Rightarrow> None | js \<Rightarrow> Some (last js))"

definition pick_row ::
  "(string \<Rightarrow> string \<Rightarrow> bool) \<Rightarrow> string list \<Rightarrow> string list \<Rightarrow> raw_bytes list \<Rightarrow> string list option" where
  "pick_row eqf columns columnNames row =
     (let step = (\<lambda>(written, tmp) i.
            case name_pos eqf columnNames (columns ! i) of
              None \<Rightarrow> (written, tmp)
            | Some j \<Rightarrow> (case row ! i of None \<Rightarrow> (written, tmp) | Some v \<Rightarrow> (True, tmp[j := v])));
          (written, tmp) = foldl step (False, replicate (length columnNames) []) [0..<length columns]
      in if written then Some tmp else None)"

definition GetSpecifiedColumnValuesAndClose ::
  "(string \<Rightarrow> string \<Rightarrow> bool) \<Rightarrow> sql_rows option \<Rightarrow> string list \<Rightarrow> string list list \<times> error option" where
  "GetSpecifiedColumnValuesAndClose eqf rows columnNames =
     (case rows of
        None \<Rightarrow> ([], None)
      | Some rs \<Rightarrow>
          (case rows_Columns rs of
             Inl e \<Rightarrow> ([], Some e)
           | Inr columns \<Rightarrow>
               if \<not> list_ex (\<lambda>c. name_pos eqf columnNames c \<noteq> None) columns then ([], None)
               else scan_rows (pick_row eqf columns columnNames) (rows_Scan rs) (rows_Err rs)))"

section \<open>Select statements\<close>

definition buildSelectQuery :: "string \<Rightarrow> string \<Rightarrow> string \<Rightarrow> string \<Rightarrow> string \<Rightarrow> string \<Rightarrow> string" where
  "buildSelectQuery database table flds part cond orderByClause =
     ''SELECT '' @ (if flds = '''' then [SQ, SQ] else flds) @ '' FROM '' @
     (if part \<noteq> '''' then pgQuoteQName database part else pgQuoteQName database table) @
     (if cond \<noteq> '''' then '' '' @ cond else '''') @
     (if orderByClause \<noteq> '''' then '' '' @ orderByClause else '''')"

definition buildWhereCondition :: "Config \<Rightarrow> string \<Rightarrow> string" where
  "buildWhereCondition conf cond =
     (let both = Where conf \<noteq> '''' \<and> cond \<noteq> '''';
          l = (if both then '' ('' else '' '');
          r = (if both then '') '' else '' '')
      in (if Where conf \<noteq> '''' then ''WHERE'' @ l @ Where conf @ r else '''') @
         (if cond \<noteq> '''' then (if Where conf \<noteq> '''' then ''AND'' else ''WHERE'') @ l @ cond @ r else ''''))"

definition buildOrderByClauseString :: "string list \<Rightarrow> string" where
  "buildOrderByClauseString handleColNames =
     (if handleColNames = [] then '''' else ''ORDER BY '' @ join '','' (map pgQuoteIdent handleColNames))"

definition GetSuitableRows :: "u64 \<Rightarrow> u64" where
  "GetSuitableRows avgRowLength =
     (if avgRowLength = 0 then 200000
      else let estimateRows = 134217728 div avgRowLength
           in if estimateRows > 1000000 then 1000000 else estimateRows)"

section \<open>Catalog queries\<close>

text \<open>
  The answers to the queries over the system catalog; each field is named after the function that
  issues the query and takes the bound arguments.
\<close>

record catalog =
  db_primaryKey :: "string \<Rightarrow> string \<Rightarrow> error + string list list"
  db_numericIndex :: "string \<Rightarrow> string \<Rightarrow> error + string list list"
  db_columns :: "string \<Rightarrow> string \<Rightarrow> error + string list list"
  db_estimate :: "string \<Rightarrow> string \<Rightarrow> error + int list"
  db_minmax :: "string \<Rightarrow> error + (raw_bytes \<times> raw_bytes) list"
  db_pages :: "string \<Rightarrow> error + int list"
  db_partitions :: "string \<Rightarrow> string \<Rightarrow> error + string list"

record tableMeta =
  tm_database :: string
  tm_table :: string
  tm_colTypes :: "(string \<times> string) list"
  tm_selectedField :: string
  tm_selectColumns :: string
  tm_selectedLen :: nat
  tm_specCmts :: "string list"
  tm_showCreateTable :: string
  tm_showCreateView :: string
  tm_avgRowLength :: u64
  tm_hasImplicitRowID :: bool

definition ColumnTypes :: "tableMeta \<Rightarrow> string list" where
  "ColumnTypes tm = map snd (tm_colTypes tm)"

definition ColumnNames :: "tableMeta \<Rightarrow> string list" where
  "ColumnNames tm = map fst (tm_colTypes tm)"

definition string2Map :: "string list \<Rightarrow> string list \<Rightarrow> error + (string \<times> string) list" where
  "string2Map a b =
     (if length b < length a then Inl (Panic ''index out of range'')
      else Inr (foldl (\<lambda>m (k, v). AList.update k v m) [] (zip a b)))"

definition GetPrimaryKeyColumns :: "catalog \<Rightarrow> string \<Rightarrow> string \<Rightarrow> error + string list" where
  "GetPrimaryKeyColumns db database table =
     bindR (db_primaryKey db database table) (\<lambda>results. Inr (map (\<lambda>oneRow. oneRow ! 0) results))"

definition GetPrimaryKeyAndColumnTypes :: "catalog \<Rightarrow> tableMeta \<Rightarrow> error + string list \<times> string list" where
  "GetPrimaryKeyAndColumnTypes db meta =
     bindR (GetPrimaryKeyColumns db (tm_database meta) (tm_table meta)) (\<lambda>colNames.
     bindR (string2Map (ColumnNames meta) (ColumnTypes meta)) (\<lambda>m.
       Inr (colNames, map (\<lambda>c. case map_of m c of None \<Rightarrow> '''' | Some t \<Rightarrow> t) colNames)))"

definition orderByTiDBRowID :: string where
  "orderByTiDBRowID = ''ORDER BY '' @ [BT] @ ''_tidb_rowid'' @ [BT]"

definition buildOrderByClause :: "catalog \<Rightarrow> Config \<Rightarrow> string \<Rightarrow> string \<Rightarrow> bool \<Rightarrow> error + string" where
  "buildOrderByClause db conf database table hasImplicitRowID =
     (if \<not> SortByPk conf then Inr ''''
      else if hasImplicitRowID then Inr orderByTiDBRowID
      else bindR (GetPrimaryKeyColumns db database table) (\<lambda>cols. Inr (buildOrderByClauseString cols)))"

definition getNumericIndex :: "catalog \<Rightarrow> tableMeta \<Rightarrow> error + string" where
  "getNumericIndex db meta =
     bindR (db_numericIndex db (tm_database meta) (tm_table meta)) (\<lambda>results.
       Inr (if results = [] then '''' else (results ! 0) ! 0))"

definition pickupPossibleField :: "catalog \<Rightarrow> tableMeta \<Rightarrow> error + string" where
  "pickupPossibleField db meta =
     (if tm_hasImplicitRowID meta then Inr ''_tidb_rowid'' else getNumericIndex db meta)"

text \<open>Every row scanned overwrites \<open>n\<close>; a failed query or a negative estimate counts as zero.\<close>

definition estimateCount :: "catalog \<Rightarrow> string \<Rightarrow> string \<Rightarrow> u64" where
  "estimateCount db dbName tableName =
     (case db_estimate db dbName tableName of
        Inl _ \<Rightarrow> 0
      | Inr ns \<Rightarrow> let n = (if ns = [] then 0 else last ns) in if n < 0 then 0 else word_of_int n)"

definition GetPartitionNames :: "catalog \<Rightarrow> string \<Rightarrow> string \<Rightarrow> error + string list" where
  "GetPartitionNames db schema table = db_partitions db schema table"

text \<open>\<open>big.Int.SetString(s, 10)\<close>: an optional sign and at least one digit.\<close>

definition big_SetString :: "string \<Rightarrow> int option" where
  "big_SetString s =
     (let neg = has_prefix ''-'' s; body = (if neg \<or> has_prefix ''+'' s then tl s else s)
      in if body \<noteq> [] \<and> list_all (\<lambda>c. 48 \<le> byte c \<and> byte c \<le> 57) body
         then Some (if neg then - int (parse_nat body) else int (parse_nat body)) else None)"

definition minmax_query :: "Config \<Rightarrow> string \<Rightarrow> string \<Rightarrow> string \<Rightarrow> string" where
  "minmax_query conf db tbl field =
     (let qf = pgQuoteIdent field;
          query = ''SELECT MIN('' @ qf @ ''),MAX('' @ qf @ '') FROM '' @ pgQuoteQName db tbl
      in if Where conf \<noteq> '''' then query @ '' WHERE '' @ Where conf else query)"

definition selectMinAndMaxIntValue ::
  "catalog \<Rightarrow> Config \<Rightarrow> string \<Rightarrow> string \<Rightarrow> string \<Rightarrow> error + int \<times> int" where
  "selectMinAndMaxIntValue db conf schema tbl field =
     (let query = minmax_query conf schema tbl field
      in case db_minmax db query of
           Inl e \<Rightarrow> Inl (Annotatef e (''can'' @ [SQ] @ ''t get min/max values to split chunks, query: %s'') [query])
         | Inr rows \<Rightarrow>
             (case (if rows = [] then (None, None) else hd rows) of
                (Some smin, Some smax) \<Rightarrow>
                  (case big_SetString smax of
                     None \<Rightarrow> Inl (Errorf ''fail to convert max value %s in query %s'' [smax, query])
                   | Some maxv \<Rightarrow>
                       (case big_SetString smin of
                          None \<Rightarrow> Inl (Errorf ''fail to convert min value %s in query %s'' [smin, query])
                        | Some minv \<Rightarrow> Inr (minv, maxv)))
              | _ \<Rightarrow> Inl (Errorf ''no invalid min/max value found in query %s'' [query])))"

section \<open>Projections\<close>

definition pgMigrationCast :: "string \<Rightarrow> string \<Rightarrow> string \<Rightarrow> bool \<Rightarrow> string" where
  "pgMigrationCast colName dataType udtName csvMode =
     (let q = pgQuoteIdent colName; alias = '' AS '' @ q; txt = ''('' @ q @ '')::text'' @ alias;
          jsn = ''to_jsonb('' @ q @ '')::text'' @ alias;
          lit = (\<lambda>s. [SQ] @ s @ [SQ])
      in if dataType = ''timestamp with time zone'' then
           ''to_char('' @ q @ '' AT TIME ZONE '' @ lit ''UTC'' @ '', '' @ lit ''YYYY-MM-DD HH24:MI:SS.US'' @ '')'' @ alias
         else if dataType = ''timestamp without time zone'' then
           ''to_char('' @ q @ '', '' @ lit ''YYYY-MM-DD HH24:MI:SS.US'' @ '')'' @ alias
         else if dataType = ''date'' then ''to_char('' @ q @ '', '' @ lit ''YYYY-MM-DD'' @ '')'' @ alias
         else if dataType = ''time without time zone'' then txt
         else if dataType = ''time with time zone'' then
           ''(('' @ q @ '' AT TIME ZONE '' @ lit ''UTC'' @ '')::time)::text'' @ alias
         else if dataType = ''interval'' then ''EXTRACT(EPOCH FROM '' @ q @ '')::numeric'' @ alias
         else if dataType = ''boolean'' then ''('' @ q @ '')::int'' @ alias
         else if dataType = ''bytea'' then
           (if csvMode then ''encode('' @ q @ '', '' @ lit ''hex'' @ '')'' @ alias else q)
         else if dataType \<in> {''uuid'', ''json'', ''jsonb'', ''inet'', ''cidr'', ''macaddr'', ''macaddr8'', ''xml'', ''money''}
           then txt
         else if dataType = ''ARRAY'' then jsn
         else if dataType \<in> {''tsvector'', ''tsquery'', ''bit'', ''bit varying'', ''point'', ''line'', ''lseg'', ''box'',
             ''path'', ''polygon'', ''circle''} then txt
         else if dataType = ''USER-DEFINED'' then
           (if udtName \<in> {''int4range'', ''int8range'', ''numrange'', ''tsrange'', ''tstzrange'', ''daterange'',
                 ''int4multirange'', ''int8multirange'', ''nummultirange'', ''tsmultirange'', ''tstzmultirange'',
                 ''datemultirange''} then jsn
            else if udtName = ''hstore'' then ''hstore_to_jsonb('' @ q @ '')::text'' @ alias
            else txt)
         else q)"

definition buildSelectField ::
  "catalog \<Rightarrow> string \<Rightarrow> string \<Rightarrow> bool \<Rightarrow> bool \<Rightarrow> bool \<Rightarrow> SQLDialect \<Rightarrow> error + string \<times> string \<times> nat" where
  "buildSelectField db dbName tableName completeInsert useCasts csvMode dialect =
     bindR (db_columns db dbName tableName) (\<lambda>results.
       let writable = filter (\<lambda>oneRow. oneRow ! 1 \<noteq> ''ALWAYS'') results;
           hasGenerateColumn = list_ex (\<lambda>oneRow. oneRow ! 1 = ''ALWAYS'') results;
           exprs = map (\<lambda>oneRow.
             if useCasts then pgMigrationCast (oneRow ! 0) (oneRow ! 2) (oneRow ! 3) csvMode
             else pgQuoteIdent (oneRow ! 0)) writable;
           cols = map (\<lambda>oneRow. QuoteIdent dialect (oneRow ! 0)) writable
       in Inr (if completeInsert \<or> hasGenerateColumn \<or> useCasts
               then (join '','' exprs, join '','' cols, length exprs)
               else (''*'', '''', length exprs)))"

definition SelectAllFromTable :: "Config \<Rightarrow> tableMeta \<Rightarrow> string \<Rightarrow> string \<Rightarrow> string \<times> nat" where
  "SelectAllFromTable conf meta part orderByClause =
     (buildSelectQuery (tm_database meta) (tm_table meta) (tm_selectedField meta) part
        (buildWhereCondition conf '''') orderByClause, tm_selectedLen meta)"

section \<open>Projections keep the columns\<close>

lemma has_suffix_refl: "has_suffix p p"
  by (simp add: has_suffix_iff)

lemma has_suffix_prepend: "has_suffix p s \<Longrightarrow> has_suffix p (x @ s)" "has_suffix p s \<Longrightarrow> has_suffix p (c # s)"
  unfolding has_suffix_iff by (metis append_assoc, metis append_Cons)

lemma has_suffix_if: "has_suffix p s \<Longrightarrow> has_suffix p t \<Longrightarrow> has_suffix p (if b then s else t)"
  by simp

lemma cast_suffix: "has_suffix (pgQuoteIdent c) (pgMigrationCast c dt udt csv)"
  unfolding pgMigrationCast_def Let_def
  by (intro has_suffix_if has_suffix_prepend(1) has_suffix_refl)

text \<open>The columns of the target table a row has values for: those that are not generated.\<close>

definition writable_columns :: "string list list \<Rightarrow> string list" where
  "writable_columns results = map (\<lambda>oneRow. oneRow ! 0) (filter (\<lambda>oneRow. oneRow ! 1 \<noteq> ''ALWAYS'') results)"

lemma scan_quoted_columns:
  assumes "names \<noteq> []"
  shows "scan_list (scan_quoted (quote_char d)) '','' (length names)
    (join '','' (map (QuoteIdent d) names)) = Some (names, [])"
proof -
  have "quote_char d \<noteq> CHR '',''" by (cases d) simp_all
  then show ?thesis
    using ident.scan_list_join [where d = d and sep = "'',''" and r = "[]" and xs = names and n = "length names"] assms
    by (simp add: list_all_iff)
qed

text \<open>C40: The projection and the column list of a table fit each other: unless the star is used (and then
  no column is generated), the column list written into INSERT statements is read back by the target as
  exactly the columns that are not generated, in table order; the query selects one expression per such
  column, in the same order, each ending in that column's quoted name, so that a migration cast does not
  rename it; and the reported length is their number.\<close>

theorem projection_matches_columns:
  assumes "db_columns db dbName tableName = Inr results" "writable_columns results \<noteq> []"
    and "buildSelectField db dbName tableName completeInsert useCasts csvMode dialect = Inr (expr, cols, n)"
  shows "n = length (writable_columns results) \<and>
    (if expr = ''*'' \<and> cols = ''''
     then \<not> useCasts \<and> \<not> completeInsert \<and> list_all (\<lambda>oneRow. oneRow ! 1 \<noteq> ''ALWAYS'') results
     else scan_list (scan_quoted (quote_char dialect)) '','' n cols = Some (writable_columns results, []) \<and>
       (\<exists>es. expr = join '','' es \<and>
         list_all2 (\<lambda>c e. has_suffix (pgQuoteIdent c) e) (writable_columns results) es))"
proof -
  define es where "es = map (\<lambda>oneRow. if useCasts then pgMigrationCast (oneRow ! 0) (oneRow ! 2) (oneRow ! 3) csvMode
    else pgQuoteIdent (oneRow ! 0)) (filter (\<lambda>oneRow. oneRow ! 1 \<noteq> ''ALWAYS'') results)"
  have n: "n = length (writable_columns results)"
    and c: "(expr, cols) = (if completeInsert \<or> list_ex (\<lambda>oneRow. oneRow ! 1 = ''ALWAYS'') results \<or> useCasts
      then (join '','' es, join '','' (map (QuoteIdent dialect) (writable_columns results))) else (''*'', ''''))"
    using assms(1,3) by (auto simp: buildSelectField_def writable_columns_def es_def Let_def o_def split: if_splits)
  have "list_all2 (\<lambda>c e. has_suffix (pgQuoteIdent c) e) (writable_columns results) es"
    using has_suffix_refl cast_suffix
    by (auto simp: es_def writable_columns_def list_all2_map1 list_all2_map2 intro!: list_all2_refl)
  moreover have "join '','' (map (QuoteIdent dialect) (writable_columns results)) \<noteq> []"
    using assms(2) by (cases "writable_columns results") (auto simp: join_Cons QuoteIdent_eq)
  ultimately show ?thesis
    using n c scan_quoted_columns [OF assms(2), of dialect]
    by (auto simp: list_ex_iff list_all_iff split: if_splits)
qed

definition sample_catalog :: catalog where
  "sample_catalog =
     \<lparr>db_primaryKey = \<lambda>_ _. Inr [[''id'']], db_numericIndex = \<lambda>_ _. Inr [[''id'', ''bigint'', ''true'']],
      db_columns = \<lambda>_ _. Inr [[''id'', ''NEVER'', ''bigint'', ''int8''], [''g'', ''ALWAYS'', ''integer'', ''int4''],
        [''ts'', ''NEVER'', ''date'', ''date'']],
      db_estimate = \<lambda>_ _. Inr [10], db_minmax = \<lambda>_. Inr [(Some ''1'', Some ''10'')],
      db_pages = \<lambda>_. Inr [4], db_partitions = \<lambda>_ _. Inr []\<rparr>"

theorem projection_matches_columns_witness:
  "\<exists>expr cols. buildSelectField sample_catalog ''s'' ''t'' False True True (mysqlDialect ''mysql'') = Inr (expr, cols, 2) \<and>
     scan_list (scan_quoted BT) '','' 2 cols = Some ([''id'', ''ts''], [])"
proof -
  let ?r = "[[''id'', ''NEVER'', ''bigint'', ''int8''], [''g'', ''ALWAYS'', ''integer'', ''int4''], [''ts'', ''NEVER'', ''date'', ''date'']]"
  have w: "writable_columns ?r = [''id'', ''ts'']" by (simp add: writable_columns_def)
  obtain expr cols n where b: "buildSelectField sample_catalog ''s'' ''t'' False True True (mysqlDialect ''mysql'') = Inr (expr, cols, n)"
    by (cases "buildSelectField sample_catalog ''s'' ''t'' False True True (mysqlDialect ''mysql'')")
      (auto simp: buildSelectField_def sample_catalog_def Let_def)
  have "db_columns sample_catalog ''s'' ''t'' = Inr ?r" by (simp add: sample_catalog_def)
  from projection_matches_columns [OF this _ b] w b show ?thesis
    by (auto simp: numeral_2_eq_2 simp del: scan_list.simps split: if_splits)
qed

end
