(* ===== verification/Tasks.thy ===== *)
theory Tasks
  imports Sql_Build
begin

text \<open>
  The tasks the dumper hands to its writers (\<open>export/task.go\<close>) and the act of sending one
  (\<open>sendTaskToChan\<close> of \<open>export/dump.go\<close>).
\<close>

text \<open>The data of a table task: one query (\<open>tableData\<close>) or several (\<open>multiQueriesChunk\<close>), unread.\<close>

datatype TableDataIR =
    tableData string nat bool
  | multiQueriesChunk "string list" nat

datatype Task =
    TaskDatabaseMeta string string
  | TaskTableMeta string string string
  | TaskViewMeta string string string string
  | TaskSequenceMeta string string string
  | TaskPolicyMeta string string
  | TaskTableData tableMeta TableDataIR nat int

definition newTableData :: "string \<Rightarrow> nat \<Rightarrow> bool \<Rightarrow> TableDataIR" where
  "newTableData query colLength needColTypes = tableData query colLength needColTypes"

definition squoted :: "string \<Rightarrow> string" where
  "squoted s = [SQ] @ s @ [SQ]"

fun Brief :: "Task \<Rightarrow> string" where
  "Brief (TaskDatabaseMeta db _) = ''meta of dababase '' @ squoted db"
| "Brief (TaskTableMeta db tbl _) = ''meta of table '' @ squoted db @ ''.'' @ squoted tbl"
| "Brief (TaskViewMeta db v _ _) = ''meta of view '' @ squoted db @ ''.'' @ squoted v"
| "Brief (TaskSequenceMeta db s _) = ''meta of sequence '' @ squoted db @ ''.'' @ squoted s"
| "Brief (TaskPolicyMeta p _) = ''meta of placement policy '' @ squoted p"
| "Brief (TaskTableData meta _ idx tot) =
     ''data of table '' @ squoted (tm_database meta) @ ''.'' @ squoted (tm_table meta) @
     ''('' @ fmt_nat idx @ ''/'' @ fmt_int tot @ '')''"

text \<open>
  Sending: the \<open>select\<close> between the cancelled context and the channel is decided by the environment,
  the parameter \<open>cancelled\<close>, for every attempt anew. The state holds the tasks sent and counts attempts.
\<close>

record sender =
  sent :: "Task list"
  attempts :: nat

definition sendTaskToChan :: "(nat \<Rightarrow> bool) \<Rightarrow> Task \<Rightarrow> sender \<Rightarrow> sender \<times> bool" where
  "sendTaskToChan cancelled task st =
     (if cancelled (attempts st) then (st\<lparr>attempts := attempts st + 1\<rparr>, True)
      else (\<lparr>sent = sent st @ [task], attempts = attempts st + 1\<rparr>, False))"

text \<open>An empty channel, and a run in which the context is never cancelled.\<close>

definition no_tasks :: sender where
  "no_tasks = \<lparr>sent = [], attempts = 0\<rparr>"

definition never :: "nat \<Rightarrow> bool" where
  "never _ = False"

lemma send_never [simp]:
  "sendTaskToChan never task st = (\<lparr>sent = sent st @ [task], attempts = attempts st + 1\<rparr>, False)"
  by (simp add: sendTaskToChan_def never_def)

end
