(* ===== verification/Chunking.thy ===== *)
theory Chunking
  imports Tasks "HOL-Library.Multiset"
begin

text \<open>
  Splitting a table into chunks (\<open>export/dump.go\<close>): \<open>concurrentDumpTable\<close> by the values of an integer
  key, \<open>concurrentDumpTableByCtid\<close> by physical pages, and the fallbacks to one query for the whole table.
  Key values are \<open>big.Int\<close>, hence \<^typ>\<open>int\<close>; counts and the step are 64-bit words, page numbers are
  \<open>int64\<close> with wrap-around. The two loops are \<open>partial_function\<close>s: a run that does not end is \<^const>\<open>None\<close>.

  The theorems: the chunks of either kind select every row of the table exactly once, so a chunked dump
  exports the rows of the whole-table query; the loops end; how many chunks there are, compared with the
  number announced; and the one step size, zero after overflow, with which the key loop never ends.
\<close>

section \<open>Conditions\<close>

text \<open>
  The conditions of chunk queries as SQL reads them, with the text they are written with and their
  value on a row (three-valued: a comparison with NULL is unknown). A row here is what the conditions
  look at: the chunk key and the physical position.
\<close>

record row_key =
  key :: "int option"
  ctid :: "int \<times> int"

datatype sqlcond =
    IsNull string
  | GeCol string int
  | LtCol string int
  | CtidGe int
  | CtidLt int
  | AndC sqlcond sqlcond
  | OrC sqlcond sqlcond
  | Paren sqlcond

fun show_cond :: "sqlcond \<Rightarrow> string" where
  "show_cond (IsNull q) = q @ '' IS NULL''"
| "show_cond (GeCol q n) = q @ '' >= '' @ fmt_int n"
| "show_cond (LtCol q n) = q @ '' < '' @ fmt_int n"
| "show_cond (CtidGe b) = ''ctid >= '' @ squoted (''('' @ fmt_int b @ '',0)'')"
| "show_cond (CtidLt b) = ''ctid < '' @ squoted (''('' @ fmt_int b @ '',0)'')"
| "show_cond (AndC a b) = show_cond a @ '' AND '' @ show_cond b"
| "show_cond (OrC a b) = show_cond a @ '' OR '' @ show_cond b"
| "show_cond (Paren a) = ''('' @ show_cond a @ '')''"

text \<open>AND binds tighter than OR: the text of an AND must not have an OR as an operand.\<close>

fun is_or :: "sqlcond \<Rightarrow> bool" where
  "is_or (OrC _ _) = True"
| "is_or _ = False"

fun prec_ok :: "sqlcond \<Rightarrow> bool" where
  "prec_ok (AndC a b) = (prec_ok a \<and> prec_ok b \<and> \<not> is_or a \<and> \<not> is_or b)"
| "prec_ok (OrC a b) = (prec_ok a \<and> prec_ok b)"
| "prec_ok (Paren a) = prec_ok a"
| "prec_ok _ = True"

fun and3 :: "bool option \<Rightarrow> bool option \<Rightarrow> bool option" where
  "and3 (Some False) _ = Some False"
| "and3 _ (Some False) = Some False"
| "and3 (Some True) (Some True) = Some True"
| "and3 _ _ = None"

fun or3 :: "bool option \<Rightarrow> bool option \<Rightarrow> bool option" where
  "or3 (Some True) _ = Some True"
| "or3 _ (Some True) = Some True"
| "or3 (Some False) (Some False) = Some False"
| "or3 _ _ = None"

fun cond_value :: "sqlcond \<Rightarrow> row_key \<Rightarrow> bool option" where
  "cond_value (IsNull _) r = Some (key r = None)"
| "cond_value (GeCol _ n) r = map_option (\<lambda>k. n \<le> k) (key r)"
| "cond_value (LtCol _ n) r = map_option (\<lambda>k. k < n) (key r)"
| "cond_value (CtidGe b) r = Some (b < fst (ctid r) \<or> b = fst (ctid r) \<and> 0 \<le> snd (ctid r))"
| "cond_value (CtidLt b) r = Some (fst (ctid r) < b \<or> fst (ctid r) = b \<and> snd (ctid r) < 0)"
| "cond_value (AndC a b) r = and3 (cond_value a r) (cond_value b r)"
| "cond_value (OrC a b) r = or3 (cond_value a r) (cond_value b r)"
| "cond_value (Paren a) r = cond_value a r"

definition selects :: "sqlcond \<Rightarrow> row_key \<Rightarrow> bool" where
  "selects c r \<longleftrightarrow> cond_value c r = Some True"

section \<open>Dumping a table as a whole\<close>

definition dumpWholeTableDirectly ::
  "(nat \<Rightarrow> bool) \<Rightarrow> error \<Rightarrow> Config \<Rightarrow> tableMeta \<Rightarrow> string \<Rightarrow> string \<Rightarrow> nat \<Rightarrow> int \<Rightarrow> sender
    \<Rightarrow> sender \<times> error option" where
  "dumpWholeTableDirectly cancelled ctxErr conf meta part orderByClause currentChunk totalChunks st =
     (let (query, colLen) = SelectAllFromTable conf meta part orderByClause;
          (st', ctxDone) =
            sendTaskToChan cancelled (TaskTableData meta (tableData query colLen False) currentChunk totalChunks) st
      in (st', if ctxDone then Some ctxErr else None))"

definition sequentialDumpTable ::
  "(nat \<Rightarrow> bool) \<Rightarrow> error \<Rightarrow> catalog \<Rightarrow> Config \<Rightarrow> tableMeta \<Rightarrow> sender \<Rightarrow> sender \<times> error option" where
  "sequentialDumpTable cancelled ctxErr db conf meta st =
     (case buildOrderByClause db conf (tm_database meta) (tm_table meta) (tm_hasImplicitRowID meta) of
        Inl e \<Rightarrow> (st, Some e)
      | Inr orderByClause \<Rightarrow> dumpWholeTableDirectly cancelled ctxErr conf meta '''' orderByClause 0 1 st)"

section \<open>Chunks of key values\<close>

text \<open>The condition of one chunk; the first one also takes the rows without a key value.\<close>

definition chunk_where :: "string \<Rightarrow> bool \<Rightarrow> int \<Rightarrow> int \<Rightarrow> string" where
  "chunk_where qf nulls cutoff nextCutOff =
     (if nulls then qf @ '' IS NULL OR '' else '''') @
     ''('' @ qf @ '' >= '' @ fmt_int cutoff @ '' AND '' @ qf @ '' < '' @ fmt_int nextCutOff @ '')''"

definition chunk_task ::
  "Config \<Rightarrow> tableMeta \<Rightarrow> string \<Rightarrow> string \<Rightarrow> nat \<Rightarrow> int \<Rightarrow> Task" where
  "chunk_task conf meta orderByClause cond chunkIndex totalChunks =
     TaskTableData meta
       (newTableData
          (buildSelectQuery (tm_database meta) (tm_table meta) (tm_selectedField meta) ''''
             (buildWhereCondition conf cond) orderByClause)
          (tm_selectedLen meta) False)
       chunkIndex totalChunks"

partial_function (option) key_loop ::
  "(nat \<Rightarrow> bool) \<Rightarrow> error \<Rightarrow> (string \<Rightarrow> nat \<Rightarrow> Task) \<Rightarrow> string \<Rightarrow> int \<Rightarrow> int \<Rightarrow> int \<Rightarrow> nat \<Rightarrow> bool \<Rightarrow> sender
    \<Rightarrow> (sender \<times> error option) option" where
  "key_loop cancelled ctxErr mk qf maxv step cutoff chunkIndex nulls st =
     (if maxv < cutoff then Some (st, None)
      else let nextCutOff = cutoff + step;
               r = sendTaskToChan cancelled (mk (chunk_where qf nulls cutoff nextCutOff) chunkIndex) st
           in if snd r then Some (fst r, Some ctxErr)
              else key_loop cancelled ctxErr mk qf maxv step nextCutOff (chunkIndex + 1) False (fst r))"

text \<open>\<open>big.Int.Uint64\<close> takes the low 64 bits of the absolute value.\<close>

definition big_Uint64 :: "int \<Rightarrow> u64" where
  "big_Uint64 x = word_of_int \<bar>x\<bar>"

definition estimated_step :: "u64 \<Rightarrow> int \<Rightarrow> int \<Rightarrow> u64" where
  "estimated_step estimatedChunks minv maxv = big_Uint64 (maxv - minv) div estimatedChunks + 1"

definition total_chunks :: "u64 \<Rightarrow> int \<Rightarrow> int \<Rightarrow> int" where
  "total_chunks estimatedChunks minv maxv =
     sint (if estimated_step estimatedChunks minv maxv = 1 then big_Uint64 (maxv - minv) + 1 else estimatedChunks)"

definition dump_by_key ::
  "(nat \<Rightarrow> bool) \<Rightarrow> error \<Rightarrow> Config \<Rightarrow> tableMeta \<Rightarrow> string \<Rightarrow> string \<Rightarrow> u64 \<Rightarrow> int \<Rightarrow> int \<Rightarrow> sender
    \<Rightarrow> (sender \<times> error option) option" where
  "dump_by_key cancelled ctxErr conf meta orderByClause field cnt minv maxv st =
     (let estimatedChunks = cnt div Rows conf
      in key_loop cancelled ctxErr
           (\<lambda>cond i. chunk_task conf meta orderByClause cond i (total_chunks estimatedChunks minv maxv))
           (pgQuoteIdent field) maxv (uint (estimated_step estimatedChunks minv maxv)) minv 0 (Where conf = '''') st)"

section \<open>Chunks of pages\<close>

definition ctid_where :: "int \<Rightarrow> int \<Rightarrow> int \<Rightarrow> string" where
  "ctid_where pages blockStart blockEnd =
     (if pages \<le> blockEnd then ''ctid >= '' @ squoted (''('' @ fmt_int blockStart @ '',0)'')
      else ''ctid >= '' @ squoted (''('' @ fmt_int blockStart @ '',0)'') @
           '' AND ctid < '' @ squoted (''('' @ fmt_int blockEnd @ '',0)''))"

partial_function (option) ctid_loop ::
  "(nat \<Rightarrow> bool) \<Rightarrow> error \<Rightarrow> (string \<Rightarrow> nat \<Rightarrow> Task) \<Rightarrow> int \<Rightarrow> int \<Rightarrow> int \<Rightarrow> nat \<Rightarrow> sender
    \<Rightarrow> (sender \<times> error option) option" where
  "ctid_loop cancelled ctxErr mk pages step blockStart chunkIndex st =
     (if pages \<le> blockStart then Some (st, None)
      else let blockEnd = wrap_int64 (blockStart + step);
               r = sendTaskToChan cancelled (mk (ctid_where pages blockStart blockEnd) chunkIndex) st
           in if snd r then Some (fst r, Some ctxErr)
              else ctid_loop cancelled ctxErr mk pages step (wrap_int64 (blockStart + step)) (chunkIndex + 1) (fst r))"

text \<open>The step in pages and the announced number of chunks; Go's integer division truncates.\<close>

definition ctid_step :: "u64 \<Rightarrow> u64 \<Rightarrow> int \<Rightarrow> int" where
  "ctid_step cnt rows pages =
     (let estChunks = (let e = sint (cnt div rows) in if e < 1 then 1 else e);
          step = (let s = pages div estChunks in if s < 1 then 1 else s)
      in if pages < step then pages else step)"

definition ctid_total :: "int \<Rightarrow> int \<Rightarrow> int" where
  "ctid_total pages step = wrap_int64 (wrap_int64 (pages + step) - 1) div step"

text \<open>
  \<open>concurrentDumpTableByCtid\<close> returns whether it dispatched chunks and an error; the relation is named
  by its unquoted schema and table.
\<close>

definition concurrentDumpTableByCtid ::
  "(nat \<Rightarrow> bool) \<Rightarrow> error \<Rightarrow> catalog \<Rightarrow> Config \<Rightarrow> tableMeta \<Rightarrow> u64 \<Rightarrow> string \<Rightarrow> sender
    \<Rightarrow> (sender \<times> bool \<times> error option) option" where
  "concurrentDumpTableByCtid cancelled ctxErr db conf meta cnt orderByClause st =
     (case db_pages db (tm_database meta @ ''.'' @ tm_table meta) of
        Inl e \<Rightarrow> Some (st, False, Some e)
      | Inr ps \<Rightarrow>
          let pages = (if ps = [] then 0 else last ps)
          in if pages \<le> 0 then Some (st, False, None)
             else let step = ctid_step cnt (Rows conf) pages
                  in map_option (\<lambda>(st', err). (st', True, err))
                       (ctid_loop cancelled ctxErr
                          (\<lambda>cond i. chunk_task conf meta orderByClause cond i (ctid_total pages step))
                          pages step 0 0 st))"

section \<open>Choosing how to split\<close>

definition concurrentDumpTable ::
  "(nat \<Rightarrow> bool) \<Rightarrow> error \<Rightarrow> catalog \<Rightarrow> Config \<Rightarrow> tableMeta \<Rightarrow> sender \<Rightarrow> (sender \<times> error option) option" where
  "concurrentDumpTable cancelled ctxErr db conf meta st =
     (case buildOrderByClause db conf (tm_database meta) (tm_table meta) (tm_hasImplicitRowID meta) of
        Inl e \<Rightarrow> Some (st, Some e)
      | Inr orderByClause \<Rightarrow>
          (let whole = (\<lambda>s. Some (dumpWholeTableDirectly cancelled ctxErr conf meta '''' orderByClause 0 1 s))
           in case pickupPossibleField db meta of
                Inl _ \<Rightarrow> whole st
              | Inr field \<Rightarrow>
                  let cnt = estimateCount db (tm_database meta) (tm_table meta)
                  in if cnt < Rows conf then whole st
                     else if field = '''' then
                       (case concurrentDumpTableByCtid cancelled ctxErr db conf meta cnt orderByClause st of
                          None \<Rightarrow> None
                        | Some (st', split, err) \<Rightarrow>
                            if err \<noteq> None then whole st'
                            else if split then Some (st', None)
                            else whole st')
                     else (case selectMinAndMaxIntValue db conf (tm_database meta) (tm_table meta) field of
                             Inl _ \<Rightarrow> whole st
                           | Inr (minv, maxv) \<Rightarrow>
                               dump_by_key cancelled ctxErr conf meta orderByClause field cnt minv maxv st)))"

definition dumpTableData ::
  "(nat \<Rightarrow> bool) \<Rightarrow> error \<Rightarrow> catalog \<Rightarrow> Config \<Rightarrow> tableMeta \<Rightarrow> sender \<Rightarrow> (sender \<times> error option) option" where
  "dumpTableData cancelled ctxErr db conf meta st =
     (if NoData conf then Some (st, None)
      else if Rows conf = UnspecifiedSize then Some (sequentialDumpTable cancelled ctxErr db conf meta st)
      else concurrentDumpTable cancelled ctxErr db conf meta st)"

section \<open>What a plan of chunks promises\<close>

text \<open>
  The contract of a split: every row of its domain is selected by exactly one condition, and no other
  row by any. A client that runs one query per condition gets the rows of the domain, once each.
\<close>

locale chunk_plan =
  fixes conds :: "'c list"
    and sel :: "'c \<Rightarrow> 'r \<Rightarrow> bool"
    and dom :: "'r \<Rightarrow> bool"
  assumes once: "length (filter (\<lambda>c. sel c r) conds) = (if dom r then 1 else 0)"
begin

lemma rows_exported: "mset (concat (map (\<lambda>c. filter (sel c) rows) conds)) = mset (filter dom rows)"
proof (induction rows)
  case Nil
  have "concat (map (\<lambda>c. []) conds) = []" by (induction conds) auto
  then show ?case by simp
next
  case (Cons r rows)
  have "mset (concat (map (\<lambda>c. filter (sel c) (r # rows)) cs)) =
      replicate_mset (length (filter (\<lambda>c. sel c r) cs)) r + mset (concat (map (\<lambda>c. filter (sel c) rows) cs))" for cs
    by (induction cs) auto
  then show ?case using Cons once [of r] by (simp split: if_splits)
qed

lemma no_row_twice: "i < length conds \<Longrightarrow> j < length conds \<Longrightarrow> sel (conds ! i) r \<Longrightarrow> sel (conds ! j) r \<Longrightarrow> i = j"
proof (rule ccontr)
  assume ij: "i < length conds" "j < length conds" "sel (conds ! i) r" "sel (conds ! j) r" "i \<noteq> j"
  have "card {k. k < length conds \<and> sel (conds ! k) r} \<le> 1"
    using once [of r] by (simp add: length_filter_conv_card split: if_splits)
  moreover have "{i, j} \<subseteq> {k. k < length conds \<and> sel (conds ! k) r}" using ij by auto
  then have "card {i, j} \<le> card {k. k < length conds \<and> sel (conds ! k) r}" by (intro card_mono) auto
  ultimately show False using ij(5) by simp
qed

end

section \<open>Key chunks select every row once\<close>

definition key_cond :: "string \<Rightarrow> bool \<Rightarrow> int \<Rightarrow> int \<Rightarrow> sqlcond" where
  "key_cond qf nulls lo hi =
     (let rng = Paren (AndC (GeCol qf lo) (LtCol qf hi)) in if nulls then OrC (IsNull qf) rng else rng)"

fun key_conds :: "string \<Rightarrow> int \<Rightarrow> int \<Rightarrow> bool \<Rightarrow> nat \<Rightarrow> sqlcond list" where
  "key_conds qf step lo nulls 0 = []"
| "key_conds qf step lo nulls (Suc n) = key_cond qf nulls lo (lo + step) # key_conds qf step (lo + step) False n"

lemma show_key_cond: "show_cond (key_cond qf nulls lo hi) = chunk_where qf nulls lo hi"
  by (simp add: key_cond_def chunk_where_def Let_def)

lemma key_cond_prec: "prec_ok (key_cond qf nulls lo hi)"
  by (simp add: key_cond_def Let_def)

lemma and3_or3 [simp]: "and3 (Some a) (Some b) = Some (a \<and> b)" "or3 (Some a) (Some b) = Some (a \<or> b)"
  by (cases a; cases b; simp)+

lemma selects_key_cond:
  "selects (key_cond qf nulls lo hi) r \<longleftrightarrow> (case key r of None \<Rightarrow> nulls | Some k \<Rightarrow> lo \<le> k \<and> k < hi)"
  by (auto simp: selects_def key_cond_def Let_def split: option.splits)

lemma key_conds_length [simp]: "length (key_conds qf step lo nulls n) = n"
  by (induction n arbitrary: lo nulls) auto

lemma key_conds_prec: "list_all prec_ok (key_conds qf step lo nulls n)"
  by (induction n arbitrary: lo nulls) (auto simp: key_cond_prec)

lemma key_conds_once:
  "0 < step \<Longrightarrow> length (filter (\<lambda>c. selects c r) (key_conds qf step lo nulls n)) =
    (if case key r of None \<Rightarrow> nulls \<and> 0 < n | Some k \<Rightarrow> lo \<le> k \<and> k < lo + int n * step then 1 else 0)"
proof (induction n arbitrary: lo nulls)
  case (Suc n)
  have "0 \<le> step * int n" using Suc.prems by simp
  then have "a < lo + (step + step * int n)" if "\<not> lo + step \<le> a" for a using that by linarith
  then show ?case
    using Suc.IH [OF Suc.prems, of "lo + step" False] Suc.prems
    by (cases "key r") (auto simp: selects_key_cond algebra_simps)
qed (simp split: option.splits)

interpretation key_plan: chunk_plan "key_conds qf (int (Suc s)) lo nulls n" selects
    "\<lambda>r. case key r of None \<Rightarrow> nulls \<and> 0 < n | Some k \<Rightarrow> lo \<le> k \<and> k < lo + int n * int (Suc s)"
  for qf s lo nulls n
  by unfold_locales (rule key_conds_once, simp)

text \<open>The loop sends one task per condition.\<close>

definition chunk_count :: "int \<Rightarrow> int \<Rightarrow> int \<Rightarrow> nat" where
  "chunk_count maxv step lo = (if maxv < lo then 0 else nat ((maxv - lo) div step) + 1)"

lemma chunk_count_step:
  assumes "0 < step" "lo \<le> maxv"
  shows "chunk_count maxv step lo = Suc (chunk_count maxv step (lo + step))"
proof (cases "maxv < lo + step")
  case True
  then have "(maxv - lo) div step = 0" using assms by (simp add: div_pos_pos_trivial)
  with True assms show ?thesis by (simp add: chunk_count_def)
next
  case False
  have "(maxv - lo) div step = (maxv - (lo + step)) div step + 1"
    using div_add_self2 [of step "maxv - (lo + step)"] assms by (simp add: algebra_simps)
  moreover have "0 \<le> (maxv - (lo + step)) div step"
    using False assms by (simp add: pos_imp_zdiv_nonneg_iff)
  ultimately show ?thesis using False assms by (simp add: chunk_count_def)
qed

definition send_all :: "(string \<Rightarrow> nat \<Rightarrow> Task) \<Rightarrow> nat \<Rightarrow> sqlcond list \<Rightarrow> sender \<Rightarrow> sender" where
  "send_all mk i cs st =
     \<lparr>sent = sent st @ map2 (\<lambda>c j. mk (show_cond c) j) cs [i..<i + length cs],
      attempts = attempts st + length cs\<rparr>"

lemma send_all_Cons:
  "send_all mk i (c # cs) st =
    send_all mk (i + 1) cs \<lparr>sent = sent st @ [mk (show_cond c) i], attempts = attempts st + 1\<rparr>"
  by (simp add: send_all_def upt_conv_Cons del: upt_Suc)

lemma send_all_Nil [simp]: "send_all mk i [] st = st"
  by (simp add: send_all_def)

lemma key_loop_runs:
  assumes "0 < step"
  shows "key_loop never e mk qf maxv step lo i nulls st =
    Some (send_all mk i (key_conds qf step lo nulls (chunk_count maxv step lo)) st, None)"
proof (induction n \<equiv> "chunk_count maxv step lo" arbitrary: lo i nulls st)
  case 0
  then have "maxv < lo" by (simp add: chunk_count_def split: if_splits)
  then show ?case by (subst key_loop.simps) (simp add: chunk_count_def)
next
  case (Suc n)
  then have le: "lo \<le> maxv" by (simp add: chunk_count_def split: if_splits)
  note c = chunk_count_step [OF assms le]
  with Suc.hyps(2) have "n = chunk_count maxv step (lo + step)" by simp
  note IH = Suc.hyps(1) [OF this]
  show ?case
    using le by (subst key_loop.simps) (simp add: Let_def IH c send_all_Cons show_key_cond)
qed

text \<open>With step zero nothing is ever left to do and the loop does not return.\<close>

lemma key_loop_stuck:
  assumes "lo \<le> maxv"
  shows "key_loop never e mk qf maxv 0 lo i nulls st = None"
proof -
  have "c = never \<longrightarrow> step = 0 \<longrightarrow> maxv < lo" if "key_loop c e mk qf maxv step lo i nulls st = Some r" for c step r
    using _ that
  proof (rule key_loop.raw_induct)
    fix kl :: "(nat \<Rightarrow> bool) \<Rightarrow> error \<Rightarrow> (string \<Rightarrow> nat \<Rightarrow> Task) \<Rightarrow> string \<Rightarrow> int \<Rightarrow> int \<Rightarrow> int \<Rightarrow> nat \<Rightarrow> bool \<Rightarrow> sender
        \<Rightarrow> (sender \<times> error option) option"
      and c e mk qf maxv step lo i nulls st r
    assume IH: "\<And>c e mk qf maxv step lo i nulls st r.
        kl c e mk qf maxv step lo i nulls st = Some r \<Longrightarrow> c = never \<longrightarrow> step = 0 \<longrightarrow> maxv < lo"
      and r: "(if maxv < lo then Some (st, None)
          else let nextCutOff = lo + step;
                   r = sendTaskToChan c (mk (chunk_where qf nulls lo nextCutOff) i) st
               in if snd r then Some (fst r, Some e)
                  else kl c e mk qf maxv step nextCutOff (i + 1) False (fst r)) = Some r"
    show "c = never \<longrightarrow> step = 0 \<longrightarrow> maxv < lo"
      using r by (auto simp: Let_def split: if_splits dest: IH)
  qed
  with assms show ?thesis by (cases "key_loop never e mk qf maxv 0 lo i nulls st") auto
qed

section \<open>Page chunks select every row once\<close>

fun ctid_conds :: "int \<Rightarrow> int \<Rightarrow> nat \<Rightarrow> sqlcond list" where
  "ctid_conds step lo 0 = []"
| "ctid_conds step lo (Suc 0) = [CtidGe lo]"
| "ctid_conds step lo (Suc (Suc n)) = AndC (CtidGe lo) (CtidLt (lo + step)) # ctid_conds step (lo + step) (Suc n)"

lemma ctid_conds_length [simp]: "length (ctid_conds step lo n) = n"
  by (induction step lo n rule: ctid_conds.induct) auto

lemma ctid_conds_once:
  "0 < step \<Longrightarrow> length (filter (\<lambda>c. selects c r) (ctid_conds step lo n)) =
    (if 0 < n \<and> selects (CtidGe lo) r then 1 else 0)"
  by (induction step lo n rule: ctid_conds.induct) (auto simp: selects_def)

interpretation ctid_plan: chunk_plan "ctid_conds (int (Suc s)) lo (Suc n)" selects "selects (CtidGe lo)"
  for s lo n
  by unfold_locales (simp add: ctid_conds_once)

text \<open>How many chunks the page loop makes, for page counts a relation can have.\<close>

lemma chunk_count_last: "0 < step \<Longrightarrow> lo \<le> maxv \<Longrightarrow> maxv < lo + step \<Longrightarrow> chunk_count maxv step lo = 1"
  by (simp add: chunk_count_def div_pos_pos_trivial)

lemma ctid_loop_runs:
  assumes "0 < step" "0 \<le> lo" "0 < pages" "step \<le> pages" "pages < 2 ^ 62" "lo < pages + step"
  shows "ctid_loop never e mk pages step lo i st =
    Some (send_all mk i (ctid_conds step lo (chunk_count (pages - 1) step lo)) st, None)"
  using assms(2,6)
proof (induction n \<equiv> "chunk_count (pages - 1) step lo" arbitrary: lo i st)
  case 0
  then have "pages \<le> lo" by (simp add: chunk_count_def split: if_splits)
  then show ?case by (subst ctid_loop.simps) (simp add: chunk_count_def)
next
  case (Suc n)
  then have le: "lo \<le> pages - 1" by (simp add: chunk_count_def split: if_splits)
  note c = chunk_count_step [OF assms(1) le]
  with Suc.hyps(2) have n: "n = chunk_count (pages - 1) step (lo + step)" by simp
  have w: "wrap_int64 (lo + step) = lo + step"
    using Suc.prems assms le by (intro wrap_int64_id) auto
  have IH: "ctid_loop never e mk pages step (lo + step) (i + 1) s =
      Some (send_all mk (i + 1) (ctid_conds step (lo + step) n) s, None)" for s
    using Suc.hyps(1) [OF n] Suc.prems assms(1) le n by simp
  have "show_cond (hd (ctid_conds step lo (Suc n))) = ctid_where pages lo (lo + step)"
  proof (cases n)
    case 0
    with n have "pages \<le> lo + step" by (simp add: chunk_count_def split: if_splits)
    with 0 show ?thesis by (simp add: ctid_where_def)
  next
    case (Suc m)
    with n have "\<not> pages \<le> lo + step" by (simp add: chunk_count_def split: if_splits)
    with Suc show ?thesis by (simp add: ctid_where_def)
  qed
  moreover have "tl (ctid_conds step lo (Suc n)) = ctid_conds step (lo + step) n" by (cases n) simp_all
  ultimately obtain h where h: "ctid_conds step lo (Suc n) = h # ctid_conds step (lo + step) n"
    "show_cond h = ctid_where pages lo (lo + step)"
    by (cases "ctid_conds step lo (Suc n)") (auto dest: arg_cong [where f = length])
  show ?case
    using le by (subst ctid_loop.simps) (simp add: Let_def w IH [simplified] c n [symmetric] h send_all_Cons)
qed

lemma ctid_step_bounds: "0 < pages \<Longrightarrow> 0 < ctid_step cnt rows pages \<and> ctid_step cnt rows pages \<le> pages"
  by (auto simp: ctid_step_def Let_def)

lemma ctid_total_count:
  assumes "0 < step" "step \<le> pages" "pages < 2 ^ 62"
  shows "ctid_total pages step = int (chunk_count (pages - 1) step 0)"
proof -
  have "wrap_int64 (pages + step) = pages + step" "wrap_int64 (pages + step - 1) = pages + step - 1"
    using assms by (intro wrap_int64_id; simp)+
  moreover have "(pages + step - 1) div step = (pages - 1) div step + 1"
    using div_add_self2 [of step "pages - 1"] assms(1) by (simp add: algebra_simps)
  moreover have "0 \<le> (pages - 1) div step" using assms by (simp add: pos_imp_zdiv_nonneg_iff)
  ultimately show ?thesis using assms by (simp add: ctid_total_def chunk_count_def)
qed

section \<open>Correctness of the split\<close>

definition key_between :: "int \<Rightarrow> int \<Rightarrow> row_key \<Rightarrow> bool" where
  "key_between minv maxv r \<longleftrightarrow> (case key r of None \<Rightarrow> True | Some k \<Rightarrow> minv \<le> k \<and> k \<le> maxv)"

lemma uint_big_Uint64: "0 \<le> x \<Longrightarrow> x < 2 ^ 64 \<Longrightarrow> uint (big_Uint64 x) = x"
  by (simp add: big_Uint64_def uint_word_of_int)

lemma div_le_self: "0 \<le> (a :: int) \<Longrightarrow> 0 \<le> b \<Longrightarrow> a div b \<le> a"
proof (cases "b = 0")
  case False
  assume "0 \<le> a" "0 \<le> b"
  with False have "a div b \<le> a div 1" by (intro zdiv_mono2) auto
  then show ?thesis by simp
qed simp

lemma uint_estimated_step:
  assumes "minv \<le> maxv" "maxv - minv < 2 ^ 64 - 1"
  shows "uint (estimated_step E minv maxv) = (maxv - minv) div uint E + 1"
proof -
  let ?d = "big_Uint64 (maxv - minv) div E"
  have d: "uint ?d = (maxv - minv) div uint E"
    using assms by (simp add: uint_div uint_big_Uint64)
  have "(maxv - minv) div uint E \<le> maxv - minv"
    using assms(1) div_le_self [of "maxv - minv" "uint E"] by simp
  then have "uint ?d + 1 < 2 ^ 64" using d assms(2) by linarith
  then have "uint (?d + 1) = uint ?d + 1" by (simp add: uint_word_ariths mod_pos_pos_trivial)
  then show ?thesis by (simp add: estimated_step_def d)
qed

lemma chunk_count_covers:
  assumes "0 < step" "minv \<le> k" "k \<le> maxv"
  shows "k < minv + int (chunk_count maxv step minv) * step"
proof -
  have "maxv - minv < ((maxv - minv) div step + 1) * step"
    using assms(1) by (metis (no_types, opaque_lifting) div_mult_mod_eq less_add_same_cancel1 add.commute
        distrib_right mult_1 pos_mod_bound add_less_cancel_left)
  moreover have "0 \<le> (maxv - minv) div step" using assms by (simp add: pos_imp_zdiv_nonneg_iff)
  ultimately show ?thesis using assms by (simp add: chunk_count_def algebra_simps)
qed

lemma key_plan_rows:
  assumes "0 < step" "minv \<le> maxv" "list_all (key_between minv maxv) rows"
  shows "mset (concat (map (\<lambda>c. filter (selects c) rows)
      (key_conds qf step minv nulls (chunk_count maxv step minv)))) =
    mset (filter (\<lambda>r. key r \<noteq> None \<or> nulls) rows)"
proof -
  define s where "s = nat step - 1"
  have s: "step = int (Suc s)" using assms(1) by (simp add: s_def)
  let ?n = "chunk_count maxv step minv"
  have "0 < ?n" using assms(2) by (simp add: chunk_count_def)
  then have "filter (\<lambda>r. case key r of None \<Rightarrow> nulls \<and> 0 < ?n | Some k \<Rightarrow> minv \<le> k \<and> k < minv + int ?n * step) rows =
      filter (\<lambda>r. key r \<noteq> None \<or> nulls) rows"
    using assms chunk_count_covers [OF assms(1)]
    by (intro filter_cong) (auto simp: list_all_iff key_between_def split: option.splits)
  with key_plan.rows_exported [of rows qf s minv nulls ?n] show ?thesis unfolding s [symmetric] by simp
qed

text \<open>C2: Splitting a table by an integer key exports every row once. When the chunked path is taken and the
  key's range is below \<open>2^64 - 1\<close>, the split ends, sends the chunks in order with one condition each,
  correctly bracketed, and the rows those conditions select together are exactly the table's rows (as a
  multiset): those with a key in the range, and those whose key is NULL when no \<open>--where\<close> is given. With
  \<open>--where\<close> the rows with a NULL key are not exported.\<close>

theorem key_chunks_export_rows_once:
  assumes "buildOrderByClause db conf (tm_database meta) (tm_table meta) (tm_hasImplicitRowID meta) = Inr ob"
    and "pickupPossibleField db meta = Inr field" "field \<noteq> ''''"
    and "Rows conf \<le> estimateCount db (tm_database meta) (tm_table meta)"
    and "selectMinAndMaxIntValue db conf (tm_database meta) (tm_table meta) field = Inr (minv, maxv)"
    and "minv \<le> maxv" "maxv - minv < 2 ^ 64 - 1" "list_all (key_between minv maxv) rows"
  shows "\<exists>conds st. concurrentDumpTable never e db conf meta no_tasks = Some (st, None) \<and>
    sent st = map2 (\<lambda>c i. chunk_task conf meta ob (show_cond c) i
      (total_chunks (estimateCount db (tm_database meta) (tm_table meta) div Rows conf) minv maxv)) conds [0..<length conds] \<and>
    list_all prec_ok conds \<and>
    mset (concat (map (\<lambda>c. filter (selects c) rows) conds)) =
      mset (filter (\<lambda>r. key r \<noteq> None \<or> Where conf = '''') rows)"
proof -
  let ?E = "estimateCount db (tm_database meta) (tm_table meta) div Rows conf"
  let ?s = "uint (estimated_step ?E minv maxv)"
  have pos: "0 < ?s"
    using uint_estimated_step [OF assms(6,7), of ?E] assms(6) pos_imp_zdiv_nonneg_iff [of "uint ?E" "maxv - minv"]
    by (cases "uint ?E = 0") (auto simp: div_by_0 order_less_le)
  define conds where
    "conds = key_conds (pgQuoteIdent field) ?s minv (Where conf = '''') (chunk_count maxv ?s minv)"
  have "concurrentDumpTable never e db conf meta no_tasks = Some (send_all (\<lambda>cond i. chunk_task conf meta ob cond i
      (total_chunks ?E minv maxv)) 0 conds no_tasks, None)"
    using assms(1-3,5) leD [OF assms(4)]
    by (simp add: concurrentDumpTable_def dump_by_key_def Let_def key_loop_runs [OF pos] conds_def)
  moreover have "list_all prec_ok conds" by (simp add: conds_def key_conds_prec)
  moreover have "mset (concat (map (\<lambda>c. filter (selects c) rows) conds)) =
      mset (filter (\<lambda>r. key r \<noteq> None \<or> Where conf = '''') rows)"
    unfolding conds_def by (rule key_plan_rows [OF pos assms(6,8)])
  ultimately show ?thesis by (auto simp: send_all_def no_tasks_def)
qed

definition sample_meta :: tableMeta where
  "sample_meta =
     \<lparr>tm_database = ''s'', tm_table = ''t'', tm_colTypes = [(''id'', ''INT8'')], tm_selectedField = ''*'',
      tm_selectColumns = '''', tm_selectedLen = 1, tm_specCmts = [], tm_showCreateTable = '''',
      tm_showCreateView = '''', tm_avgRowLength = 0, tm_hasImplicitRowID = False\<rparr>"

theorem key_chunks_export_rows_once_witness:
  "\<exists>conds st. concurrentDumpTable never (External '''') sample_catalog (DefaultConfig\<lparr>Rows := 5\<rparr>) sample_meta no_tasks
      = Some (st, None) \<and> length (sent st) = length conds \<and>
    mset (concat (map (\<lambda>c. filter (selects c) [\<lparr>key = Some 7, ctid = (0, 1)\<rparr>, \<lparr>key = None, ctid = (0, 2)\<rparr>]) conds)) =
      {#\<lparr>key = Some 7, ctid = (0, 1)\<rparr>, \<lparr>key = None, ctid = (0, 2)\<rparr>#}"
proof -
  let ?c = "DefaultConfig\<lparr>Rows := 5\<rparr>"
  have "buildOrderByClause sample_catalog ?c (tm_database sample_meta) (tm_table sample_meta) (tm_hasImplicitRowID sample_meta)
      = Inr (buildOrderByClauseString [''id''])"
    by (simp add: buildOrderByClause_def GetPrimaryKeyColumns_def sample_catalog_def sample_meta_def DefaultConfig_def)
  moreover have "pickupPossibleField sample_catalog sample_meta = Inr ''id''"
    by (simp add: pickupPossibleField_def getNumericIndex_def sample_catalog_def sample_meta_def)
  moreover have "Rows ?c \<le> estimateCount sample_catalog (tm_database sample_meta) (tm_table sample_meta)"
    by (simp add: estimateCount_def sample_catalog_def)
  moreover have "selectMinAndMaxIntValue sample_catalog ?c (tm_database sample_meta) (tm_table sample_meta) ''id'' = Inr (1, 10)"
    by code_simp
  moreover have "list_all (key_between 1 10) [\<lparr>key = Some 7, ctid = (0, 1)\<rparr>, \<lparr>key = None, ctid = (0, 2)\<rparr>]"
    by (simp add: key_between_def)
  ultimately obtain conds st where
    "concurrentDumpTable never (External '''') sample_catalog ?c sample_meta no_tasks = Some (st, None)"
    "sent st = map2 (\<lambda>c i. chunk_task ?c sample_meta (buildOrderByClauseString [''id'']) (show_cond c) i
      (total_chunks (estimateCount sample_catalog (tm_database sample_meta) (tm_table sample_meta) div Rows ?c) 1 10)) conds [0..<length conds]"
    "mset (concat (map (\<lambda>c. filter (selects c) [\<lparr>key = Some 7, ctid = (0, 1)\<rparr>, \<lparr>key = None, ctid = (0, 2)\<rparr>]) conds)) =
      mset (filter (\<lambda>r. key r \<noteq> None \<or> Where ?c = '''') [\<lparr>key = Some 7, ctid = (0, 1)\<rparr>, \<lparr>key = None, ctid = (0, 2)\<rparr>])"
    using key_chunks_export_rows_once [of sample_catalog ?c sample_meta _ "''id''" 1 10
        "[\<lparr>key = Some 7, ctid = (0, 1)\<rparr>, \<lparr>key = None, ctid = (0, 2)\<rparr>]" "External ''''"]
    by auto
  then show ?thesis by (intro exI [of _ conds] exI [of _ st]) (simp add: DefaultConfig_def)
qed

section \<open>How many chunks there are\<close>

lemma div_step_less:
  assumes "0 \<le> (d :: int)" "0 < E"
  shows "d div (d div E + 1) < E"
proof -
  have "d < E * (d div E + 1)"
    using assms(2) by (metis add.commute add_less_cancel_left distrib_left div_mult_mod_eq mult.commute
        mult.right_neutral pos_mod_bound)
  moreover have "0 \<le> d div E" using assms by (simp add: pos_imp_zdiv_nonneg_iff)
  then have pos: "0 < d div E + 1" by linarith
  moreover have "E * (d div E + 1) \<le> d" if "E \<le> d div (d div E + 1)"
  proof -
    have "E * (d div E + 1) \<le> d div (d div E + 1) * (d div E + 1)"
      using that pos by (intro mult_right_mono) auto
    also have "\<dots> \<le> d" using pos_mod_sign [OF pos, of d] div_mult_mod_eq [of d "d div E + 1"] by linarith
    finally show ?thesis .
  qed
  ultimately show ?thesis by linarith
qed

lemma sint_small: "uint (w :: u64) < 2 ^ 63 \<Longrightarrow> sint w = uint w"
proof -
  assume "uint w < 2 ^ 63"
  moreover have "- (2 ^ 63) \<le> uint w" using uint_ge_0 [of w] by (rule order_trans [rotated]) simp
  ultimately have "signed_take_bit 63 (uint w) = uint w" by (rule signed_take_bit_int_eq_self [rotated])
  then show ?thesis by (simp add: sint_uint)
qed

text \<open>The number of chunks a task announces.\<close>

fun announced :: "Task \<Rightarrow> int option" where
  "announced (TaskTableData _ _ _ n) = Some n"
| "announced _ = None"

lemma total_chunks_value:
  assumes "minv \<le> maxv" "maxv - minv < 2 ^ 63 - 1" "uint E < 2 ^ 63"
  shows "total_chunks E minv maxv = (if (maxv - minv) div uint E = 0 then maxv - minv + 1 else uint E)"
proof -
  define d where "d = maxv - minv"
  have d: "0 \<le> d" "d < 2 ^ 63 - 1" using assms(1,2) by (simp_all add: d_def)
  have s: "uint (estimated_step E minv maxv) = d div uint E + 1"
    using uint_estimated_step [of minv maxv E] assms(1,2) by (simp add: d_def)
  have u: "uint (big_Uint64 d) = d" using d by (intro uint_big_Uint64) auto
  have u1: "uint (big_Uint64 d + 1) = d + 1" using d u by (simp add: uint_word_ariths mod_pos_pos_trivial)
  have "estimated_step E minv maxv = 1 \<longleftrightarrow> d div uint E = 0"
    using s by (metis add_cancel_left_left uint_1 word_uint_eq_iff add.commute)
  then show ?thesis using u1 d assms(3) by (simp add: total_chunks_def d_def [symmetric] sint_small)
qed

lemma sent_send_all:
  "length (sent (send_all mk i cs st)) = length (sent st) + length cs"
  "list_all P (sent st) \<Longrightarrow> (\<And>c j. P (mk c j)) \<Longrightarrow> list_all P (sent (send_all mk i cs st))"
  by (auto simp: send_all_def list_all_iff set_zip)



text \<open>Fewer chunks than announced: the keys 0 to 10 in 7 chunks make 6.\<close>

lemma six_of_seven: "chunk_count 10 (uint (estimated_step 7 0 10)) 0 = 6" "total_chunks 7 0 10 = 7"
  by code_simp+

text \<open>C31: When the keys span the whole range of a 64-bit integer and one chunk is wanted, the step
  computed in 64 bits is 0 and the split does not end unless the context is cancelled.\<close>

theorem key_split_diverges:
  assumes "Rows conf \<le> cnt" "cnt < 2 * Rows conf" "uint (Rows conf) < 2 ^ 63"
  shows "uint (estimated_step (cnt div Rows conf) (- (2 ^ 63)) (2 ^ 63 - 1)) = 0 \<and>
    dump_by_key never e conf meta ob field cnt (- (2 ^ 63)) (2 ^ 63 - 1) st = None"
proof -
  let ?r = "uint (Rows conf)"
  have le: "?r \<le> uint cnt" using assms(1) by (simp add: word_le_def)
  have "uint (2 * Rows conf) = 2 * ?r" using assms(3) by (simp add: uint_word_ariths mod_pos_pos_trivial)
  with assms(2) have lt: "uint cnt < 2 * ?r" by (simp add: word_less_def)
  have "0 < ?r" using le lt uint_ge_0 [of cnt] by linarith
  with le lt have "uint cnt div ?r = 1" by (intro int_div_pos_eq [where r = "uint cnt - ?r"]) auto
  then have "uint (cnt div Rows conf) = uint (1 :: u64)" by (simp add: uint_div)
  then have E: "cnt div Rows conf = 1" by (simp only: word_uint_eq_iff)
  have "estimated_step 1 (- (2 ^ 63)) (2 ^ 63 - 1) = 0" by code_simp
  then have "uint (estimated_step (cnt div Rows conf) (- (2 ^ 63)) (2 ^ 63 - 1)) = 0" by (simp add: E)
  then show ?thesis by (simp add: dump_by_key_def Let_def key_loop_stuck)
qed

theorem key_split_diverges_witness:
  "dump_by_key never (External '''') (DefaultConfig\<lparr>Rows := 5\<rparr>) sample_meta '''' ''id'' 7 (- (2 ^ 63)) (2 ^ 63 - 1) no_tasks = None"
  using key_split_diverges [of "DefaultConfig\<lparr>Rows := 5\<rparr>" 7] by simp

section \<open>Splitting by pages\<close>

text \<open>C9: Splitting a heap table by its pages exports every row once: the split ends, announces exactly the
  number of chunks it sends, and the rows its conditions select together are all the rows, those on pages
  added after the pages were counted included, since the last chunk has no upper bound.\<close>

theorem ctid_chunks_export_rows_once:
  assumes "db_pages db (tm_database meta @ ''.'' @ tm_table meta) = Inr [pages]" "0 < pages" "pages < 2 ^ 62"
    and "list_all (\<lambda>r. 0 \<le> fst (ctid r) \<and> 0 \<le> snd (ctid r)) rows"
  shows "\<exists>conds st. concurrentDumpTableByCtid never e db conf meta cnt ob no_tasks = Some (st, True, None) \<and>
    sent st = map2 (\<lambda>c i. chunk_task conf meta ob (show_cond c) i (int (length conds))) conds [0..<length conds] \<and>
    mset (concat (map (\<lambda>c. filter (selects c) rows) conds)) = mset rows"
proof -
  let ?s = "ctid_step cnt (Rows conf) pages"
  note b = ctid_step_bounds [OF assms(2), of cnt "Rows conf"]
  define n where "n = chunk_count (pages - 1) ?s 0"
  define conds where "conds = ctid_conds ?s 0 n"
  have tot: "ctid_total pages ?s = int (length conds)"
    using ctid_total_count [of ?s pages] b assms(3) by (simp add: conds_def n_def)
  have "concurrentDumpTableByCtid never e db conf meta cnt ob no_tasks =
      Some (send_all (\<lambda>cond i. chunk_task conf meta ob cond i (int (length conds))) 0 conds no_tasks, True, None)"
    using ctid_loop_runs [of ?s 0 pages e "\<lambda>cond i. chunk_task conf meta ob cond i (int (length conds))" 0 no_tasks] b assms
    by (simp add: concurrentDumpTableByCtid_def Let_def tot conds_def [symmetric] n_def [symmetric])
  moreover have "mset (concat (map (\<lambda>c. filter (selects c) rows) conds)) = mset rows"
  proof -
    have "0 < n" using assms(2) by (simp add: n_def chunk_count_def)
    then obtain m where m: "n = Suc m" by (cases n) auto
    have s: "?s = int (Suc (nat ?s - 1))" using b by simp
    have "filter (selects (CtidGe 0)) rows = rows"
      using assms(4) by (intro filter_True) (auto simp: list_all_iff selects_def)
    then show ?thesis
      using ctid_plan.rows_exported [of rows "nat ?s - 1" 0 m] unfolding s [symmetric] conds_def m by simp
  qed
  ultimately show ?thesis by (auto simp: send_all_def no_tasks_def)
qed

theorem ctid_chunks_export_rows_once_witness:
  "\<exists>conds st. concurrentDumpTableByCtid never (External '''') sample_catalog (DefaultConfig\<lparr>Rows := 5\<rparr>) sample_meta 10 '''' no_tasks
      = Some (st, True, None) \<and> length (sent st) = length conds \<and>
    mset (concat (map (\<lambda>c. filter (selects c) [\<lparr>key = None, ctid = (9, 1)\<rparr>]) conds)) = {#\<lparr>key = None, ctid = (9, 1)\<rparr>#}"
proof -
  have "db_pages sample_catalog (tm_database sample_meta @ ''.'' @ tm_table sample_meta) = Inr [4]"
    by (simp add: sample_catalog_def)
  from ctid_chunks_export_rows_once [OF this, of "[\<lparr>key = None, ctid = (9, 1)\<rparr>]" "External ''''"
      "DefaultConfig\<lparr>Rows := 5\<rparr>" 10 "''''"]
  obtain conds st where "concurrentDumpTableByCtid never (External '''') sample_catalog (DefaultConfig\<lparr>Rows := 5\<rparr>)
        sample_meta 10 '''' no_tasks = Some (st, True, None)"
    "sent st = map2 (\<lambda>c i. chunk_task (DefaultConfig\<lparr>Rows := 5\<rparr>) sample_meta '''' (show_cond c) i (int (length conds)))
       conds [0..<length conds]"
    "mset (concat (map (\<lambda>c. filter (selects c) [\<lparr>key = None, ctid = (9, 1)\<rparr>]) conds)) = mset [\<lparr>key = None, ctid = (9, 1)\<rparr>]"
    by auto
  then show ?thesis by (intro exI [of _ conds] exI [of _ st]) simp
qed

section \<open>Chunk numbers\<close>

fun chunk_number :: "Task \<Rightarrow> nat option" where
  "chunk_number (TaskTableData _ _ i _) = Some i"
| "chunk_number _ = None"

text \<open>A task that reads rows of the table with its projection.\<close>

definition data_task :: "tableMeta \<Rightarrow> Task \<Rightarrow> bool" where
  "data_task meta t \<longleftrightarrow> (\<exists>cond ob i n. t = TaskTableData meta
     (tableData (buildSelectQuery (tm_database meta) (tm_table meta) (tm_selectedField meta) '''' cond ob) (tm_selectedLen meta) False) i n)"

text \<open>Data tasks numbered from \<open>i\<close> on are sent between the two states.\<close>

definition sends :: "tableMeta \<Rightarrow> nat \<Rightarrow> sender \<Rightarrow> sender \<Rightarrow> bool" where
  "sends meta i st st' \<longleftrightarrow>
     (\<exists>ts. sent st' = sent st @ ts \<and> list_all (data_task meta) ts \<and> map chunk_number ts = map Some [i..<i + length ts])"

lemma sends_refl [simp]: "sends meta i st st"
  by (simp add: sends_def)

lemma sends_one:
  assumes "data_task meta t" "chunk_number t = Some i"
  shows "sends meta i st (fst (sendTaskToChan c t st))"
proof (cases "c (attempts st)")
  case False
  then show ?thesis using assms unfolding sends_def by (intro exI [of _ "[t]"]) (simp add: sendTaskToChan_def)
qed (simp add: sends_def sendTaskToChan_def)

lemma sends_step:
  assumes "sends meta (i + 1) (fst (sendTaskToChan c t st)) st'" "\<not> snd (sendTaskToChan c t st)"
    and "data_task meta t" "chunk_number t = Some i"
  shows "sends meta i st st' \<and> sent st' \<noteq> sent st"
proof -
  from assms obtain ts where "sent st' = sent st @ t # ts" "list_all (data_task meta) ts"
    "map chunk_number ts = map Some [i + 1..<i + 1 + length ts]"
    by (auto simp: sends_def sendTaskToChan_def split: if_splits)
  then show ?thesis using assms(3,4)
    unfolding sends_def by (intro conjI exI [of _ "t # ts"]) (simp_all add: upt_conv_Cons del: upt_Suc)
qed

lemma chunk_task_data: "data_task meta (chunk_task conf meta ob w j n)" "chunk_number (chunk_task conf meta ob w j n) = Some j"
  by (auto simp: chunk_task_def newTableData_def data_task_def)

text \<open>The loops: what they send, and that they send something if there is something to do and no error.\<close>

lemma key_loop_sends:
  "key_loop c e mk qf maxv step lo i nulls st = Some r \<Longrightarrow>
    (\<forall>w j. data_task meta (mk w j) \<and> chunk_number (mk w j) = Some j) \<longrightarrow>
    sends meta i st (fst r) \<and> (snd r = None \<and> lo \<le> maxv \<longrightarrow> sent (fst r) \<noteq> sent st)"
proof (induction c e mk qf maxv step lo i nulls st r rule: key_loop.raw_induct [rotated, consumes 1])
  case (1 kl c e mk qf maxv step lo i nulls st r)
  let ?t = "mk (chunk_where qf nulls lo (lo + step)) i"
  show ?case
  proof
    assume mk: "\<forall>w j. data_task meta (mk w j) \<and> chunk_number (mk w j) = Some j"
    then have t: "data_task meta ?t" "chunk_number ?t = Some i" by simp_all
    show "sends meta i st (fst r) \<and> (snd r = None \<and> lo \<le> maxv \<longrightarrow> sent (fst r) \<noteq> sent st)"
    proof (cases "maxv < lo \<or> snd (sendTaskToChan c ?t st)")
      case True
      then show ?thesis using 1(2) sends_one [OF t, of st c] by (auto simp: Let_def split: if_splits)
    next
      case False
      with 1(2) have "kl c e mk qf maxv step (lo + step) (i + 1) False (fst (sendTaskToChan c ?t st)) = Some r" by (simp add: Let_def)
      from 1(1) [OF this] mk False show ?thesis using sends_step [OF _ _ t, of c st "fst r"] by blast
    qed
  qed
qed

lemma ctid_loop_sends:
  "ctid_loop c e mk pages step lo i st = Some r \<Longrightarrow>
    (\<forall>w j. data_task meta (mk w j) \<and> chunk_number (mk w j) = Some j) \<longrightarrow>
    sends meta i st (fst r) \<and> (snd r = None \<and> lo < pages \<longrightarrow> sent (fst r) \<noteq> sent st) \<and> (snd r \<noteq> None \<longrightarrow> (\<exists>a. c a))"
proof (induction c e mk pages step lo i st r rule: ctid_loop.raw_induct [rotated, consumes 1])
  case (1 cl c e mk pages step lo i st r)
  let ?t = "mk (ctid_where pages lo (wrap_int64 (lo + step))) i"
  show ?case
  proof
    assume mk: "\<forall>w j. data_task meta (mk w j) \<and> chunk_number (mk w j) = Some j"
    then have t: "data_task meta ?t" "chunk_number ?t = Some i" by simp_all
    show "sends meta i st (fst r) \<and> (snd r = None \<and> lo < pages \<longrightarrow> sent (fst r) \<noteq> sent st) \<and> (snd r \<noteq> None \<longrightarrow> (\<exists>a. c a))"
    proof (cases "pages \<le> lo \<or> snd (sendTaskToChan c ?t st)")
      case True
      then show ?thesis using 1(2) sends_one [OF t, of st c]
        by (auto simp: Let_def sendTaskToChan_def split: if_splits)
    next
      case False
      with 1(2) have "cl c e mk pages step (wrap_int64 (lo + step)) (i + 1) (fst (sendTaskToChan c ?t st)) = Some r" by (simp add: Let_def)
      from 1(1) [OF this] mk False show ?thesis using sends_step [OF _ _ t, of c st "fst r"] by blast
    qed
  qed
qed

lemma whole_sends:
  assumes "dumpWholeTableDirectly c e conf meta '''' ob 0 n st = (st', err)"
  shows "sends meta 0 st st' \<and> (err = None \<longrightarrow> sent st' \<noteq> sent st) \<and> (sent st' = sent st \<or> (\<exists>t. chunk_number t = Some 0 \<and> data_task meta t \<and> sent st' = sent st @ [t]))"
proof -
  let ?t = "TaskTableData meta (tableData (fst (SelectAllFromTable conf meta '''' ob)) (snd (SelectAllFromTable conf meta '''' ob)) False) 0 n"
  have r: "sendTaskToChan c ?t st = (st', err \<noteq> None)"
    using assms by (auto simp: dumpWholeTableDirectly_def Let_def split: prod.splits if_splits)
  have t: "data_task meta ?t" "chunk_number ?t = Some 0" by (auto simp: data_task_def SelectAllFromTable_def)
  show ?thesis using sends_one [OF t, of st c] r t by (auto simp: sendTaskToChan_def split: if_splits)
qed

text \<open>What dumping the data of a table sends, on every path.\<close>

definition numbering :: "bool \<Rightarrow> Task list \<Rightarrow> bool" where
  "numbering stopped ts \<longleftrightarrow> map chunk_number ts = map Some [0..<length ts] \<or>
     (stopped \<and> ts \<noteq> [] \<and> map chunk_number ts = map Some ([0..<length ts - 1] @ [0]))"

definition bounds_ordered :: "catalog \<Rightarrow> Config \<Rightarrow> bool" where
  "bounds_ordered db conf \<longleftrightarrow>
     (\<forall>schema tbl field a b. selectMinAndMaxIntValue db conf schema tbl field = Inr (a, b) \<longrightarrow> a \<le> b)"

definition dumps :: "bool \<Rightarrow> tableMeta \<Rightarrow> sender \<Rightarrow> sender \<Rightarrow> bool" where
  "dumps stopped meta st st' \<longleftrightarrow> (\<exists>ts. sent st' = sent st @ ts \<and> list_all (data_task meta) ts \<and> numbering stopped ts)"

lemma sends_dumps: "sends meta 0 st st' \<Longrightarrow> dumps stopped meta st st'"
  by (auto simp: sends_def dumps_def numbering_def)

lemma by_ctid_sends:
  assumes "concurrentDumpTableByCtid c e db conf meta cnt ob st = Some (st', split, err)"
  shows "sends meta 0 st st' \<and> (split \<and> err = None \<longrightarrow> sent st' \<noteq> sent st) \<and>
    (err \<noteq> None \<and> sent st' \<noteq> sent st \<longrightarrow> (\<exists>a. c a)) \<and> (\<not> split \<longrightarrow> st' = st)"
proof -
  from assms consider "st' = st" "split \<longrightarrow> err \<noteq> None" | step pages where "split" "\<not> pages \<le> 0"
    "ctid_loop c e (\<lambda>cond i. chunk_task conf meta ob cond i (ctid_total pages step)) pages step 0 0 st = Some (st', err)"
    by (auto simp: concurrentDumpTableByCtid_def Let_def split: sum.splits if_splits)
  then show ?thesis
  proof cases
    case 2
    then show ?thesis using ctid_loop_sends [OF 2(3), of meta] chunk_task_data by (simp add: not_le)
  qed auto
qed

lemma dumpTableData_dumps:
  assumes "dumpTableData c e db conf meta st = Some (st', err)"
  shows "dumps (\<exists>a. c a) meta st st' \<and> (NoData conf \<longrightarrow> st' = st) \<and>
    (err = None \<and> \<not> NoData conf \<and> bounds_ordered db conf \<longrightarrow> sent st' \<noteq> sent st)"
proof (cases "NoData conf \<or> Rows conf = UnspecifiedSize")
  case True
  then show ?thesis using assms
    by (auto simp: dumpTableData_def sequentialDumpTable_def dumps_def numbering_def split: if_splits sum.splits
        dest!: whole_sends intro: exI [of _ "[]"])
next
  case False
  with assms have c: "concurrentDumpTable c e db conf meta st = Some (st', err)" "\<not> NoData conf"
    by (simp_all add: dumpTableData_def)
  then consider "st' = st" "err \<noteq> None"
    | ob where "dumpWholeTableDirectly c e conf meta '''' ob 0 1 st = (st', err)"
    | cnt ob where "concurrentDumpTableByCtid c e db conf meta cnt ob st = Some (st', True, None)"
    | cnt ob st1 split err1 where "concurrentDumpTableByCtid c e db conf meta cnt ob st = Some (st1, split, err1)"
        "err1 \<noteq> None \<or> \<not> split" "dumpWholeTableDirectly c e conf meta '''' ob 0 1 st1 = (st', err)"
    | ob field cnt a b where "dump_by_key c e conf meta ob field cnt a b st = Some (st', err)"
        "selectMinAndMaxIntValue db conf (tm_database meta) (tm_table meta) field = Inr (a, b)"
    by (fastforce simp: concurrentDumpTable_def Let_def split: sum.splits if_splits option.splits prod.splits)
  then show ?thesis
  proof cases
    case 1
    then show ?thesis by (auto intro: sends_dumps)
  next
    case 2
    then show ?thesis using c(2) whole_sends [OF 2] sends_dumps by blast
  next
    case 3
    then show ?thesis using c(2) by_ctid_sends [OF 3] sends_dumps by blast
  next
    case 4
    note w = whole_sends [OF 4(3)] and ct = by_ctid_sends [OF 4(1)]
    have "dumps (\<exists>a. c a) meta st st'"
    proof (cases "sent st1 = sent st \<or> sent st' = sent st1")
      case True
      then have "sends meta 0 st st'" using w ct by (auto simp: sends_def)
      then show ?thesis by (rule sends_dumps)
    next
      case False
      then have stopped: "\<exists>a. c a" using ct 4(2) by auto
      from w False obtain t where t: "chunk_number t = Some 0" "data_task meta t" "sent st' = sent st1 @ [t]" by blast
      from ct obtain ts where ts: "sent st1 = sent st @ ts" "list_all (data_task meta) ts" "map chunk_number ts = map Some [0..<length ts]"
        by (auto simp: sends_def)
      show ?thesis unfolding dumps_def numbering_def
        by (rule exI [of _ "ts @ [t]"]) (use stopped t ts in simp)
    qed
    moreover have "sent st' \<noteq> sent st" if "err = None"
      using w ct that by (auto simp: sends_def)
    ultimately show ?thesis using c(2) by blast
  next
    case 5
    from 5(1) key_loop_sends [of c e _ _ _ _ a 0 _ st "(st', err)" meta] chunk_task_data
    have "sends meta 0 st st'" "err = None \<and> a \<le> b \<longrightarrow> sent st' \<noteq> sent st"
      by (fastforce simp: dump_by_key_def Let_def)+
    then show ?thesis using 5(2) c(2) sends_dumps by (auto simp: bounds_ordered_def)
  qed
qed



end
