(* ===== verification/Retry.thy ===== *)
theory Retry
  imports Sql_Build
begin

text \<open>
  Retries (\<open>export/retry.go\<close>) and the connection wrapper that uses them (\<open>export/conn.go\<close>).

  The action that is retried transforms a state of its own, so that its attempts can behave differently.
  Whether the context is found cancelled after the \<open>k\<close>-th failure is the parameter \<open>cancelled\<close>. An
  accumulated \<open>multierr\<close> is the list of the errors; the empty list is \<open>nil\<close>. Durations are in
  milliseconds.
\<close>

section \<open>Back-off\<close>

datatype Backoffer =
    dumpChunkBackoffer (bo_attempt: int) (bo_delayTime: int) (bo_maxDelayTime: int)
  | noopBackoffer (bo_attempt: int)

definition dumpChunkRetryTime :: int where "dumpChunkRetryTime = 3"
definition dumpChunkWaitInterval :: int where "dumpChunkWaitInterval = 50"
definition dumpChunkMaxWaitInterval :: int where "dumpChunkMaxWaitInterval = 200"

definition newRebuildConnBackOffer :: "bool \<Rightarrow> Backoffer" where
  "newRebuildConnBackOffer shouldRetry =
     (if \<not> shouldRetry then noopBackoffer 1
      else dumpChunkBackoffer dumpChunkRetryTime dumpChunkWaitInterval dumpChunkMaxWaitInterval)"

fun Attempt :: "Backoffer \<Rightarrow> int" where
  "Attempt (dumpChunkBackoffer a d m) = a"
| "Attempt (noopBackoffer a) = a"

fun NextBackoff :: "Backoffer \<Rightarrow> Backoffer \<times> int" where
  "NextBackoff (dumpChunkBackoffer a d m) =
     (dumpChunkBackoffer (a - 1) (2 * d) m, if 2 * d > m then m else 2 * d)"
| "NextBackoff (noopBackoffer a) = (noopBackoffer (a - 1), 0)"

fun Reset :: "Backoffer \<Rightarrow> Backoffer" where
  "Reset (dumpChunkBackoffer a d m) = dumpChunkBackoffer dumpChunkRetryTime dumpChunkWaitInterval m"
| "Reset (noopBackoffer a) = noopBackoffer 1"

lemma Attempt_next: "Attempt (fst (NextBackoff b)) = Attempt b - 1"
  by (cases b) simp_all

section \<open>The retry loop\<close>

text \<open>The result: the state after the last attempt, the back-offer, the errors, and the waits in between.\<close>

function WithRetry ::
  "(nat \<Rightarrow> bool) \<Rightarrow> ('s \<Rightarrow> 's \<times> error option) \<Rightarrow> Backoffer \<Rightarrow> error list \<Rightarrow> 's \<Rightarrow> 's \<times> Backoffer \<times> error list \<times> int list"
where
  "WithRetry cancelled f b allErrors s =
     (if Attempt b > 0
      then (case f s of
              (s', None) \<Rightarrow> (s', b, [], [])
            | (s', Some err) \<Rightarrow>
                let allErrors' = allErrors @ [err];
                    (b', wait) = NextBackoff b
                in if cancelled (length allErrors') then (s', b', allErrors', [])
                   else (case WithRetry cancelled f b' allErrors' s' of (t, c, es, ws) \<Rightarrow> (t, c, es, wait # ws)))
      else (s, b, allErrors, []))"
  by pat_completeness auto
termination
proof (relation "measure (\<lambda>(cancelled, f, b, errs, s). nat (Attempt b))", goal_cases)
  case (2 cancelled f b errs s s' r err errs' x b' wait)
  then show ?case using Attempt_next [of b] by (cases "NextBackoff b") simp
qed simp

declare WithRetry.simps [simp del]

lemma WithRetry_inv:
  assumes "P s" "\<And>s. P s \<Longrightarrow> P (fst (f s))"
  shows "P (fst (WithRetry cancelled f b errs s))"
  using assms
proof (induction cancelled f b errs s rule: WithRetry.induct)
  case (1 cancelled f b errs s)
  obtain s' r where f: "f s = (s', r)" by fastforce
  with 1(2,3) have "P s'" by (metis fst_conv)
  with 1 f show ?case
    by (subst WithRetry.simps) (auto simp: Let_def split: option.splits prod.splits)
qed

text \<open>The attempts: \<open>retry_state\<close> is the state before attempt \<open>k\<close>, \<open>retry_outcome\<close> what it returns.\<close>

definition retry_state :: "('s \<Rightarrow> 's \<times> error option) \<Rightarrow> nat \<Rightarrow> 's \<Rightarrow> 's" where
  "retry_state f k s = ((\<lambda>s. fst (f s)) ^^ k) s"

definition retry_outcome :: "('s \<Rightarrow> 's \<times> error option) \<Rightarrow> nat \<Rightarrow> 's \<Rightarrow> error option" where
  "retry_outcome f k s = snd (f (retry_state f k s))"

lemma retry_shift:
  "retry_state f (Suc k) s = retry_state f k (fst (f s))" "retry_outcome f (Suc k) s = retry_outcome f k (fst (f s))"
  by (simp_all add: retry_state_def retry_outcome_def funpow_Suc_right del: funpow.simps)

lemma retry_zero [simp]: "retry_state f 0 s = s" "retry_outcome f 0 s = snd (f s)"
  by (simp_all add: retry_state_def retry_outcome_def)

text \<open>
  A run of the loop: \<open>k\<close> attempts are made, all but the last of which failed; the loop stops because the
  last one succeeded, the context was cancelled, or no attempt was left.
\<close>

definition retried ::
  "(nat \<Rightarrow> bool) \<Rightarrow> ('s \<Rightarrow> 's \<times> error option) \<Rightarrow> nat \<Rightarrow> error list \<Rightarrow> 's \<Rightarrow> 's \<times> Backoffer \<times> error list \<times> int list \<Rightarrow> bool"
where
  "retried cancelled f n errs s res \<longleftrightarrow>
     (case res of (t, b, es, ws) \<Rightarrow>
       \<exists>k. 1 \<le> k \<and> k \<le> n \<and> t = retry_state f k s \<and>
         length ws = (if retry_outcome f (k - 1) s = None \<or> cancelled (length errs + k) then k - 1 else k) \<and>
         (\<forall>i. i < k - 1 \<longrightarrow> retry_outcome f i s \<noteq> None) \<and>
         (if retry_outcome f (k - 1) s = None then es = []
          else es = errs @ map (\<lambda>i. the (retry_outcome f i s)) [0..<k] \<and> (k = n \<or> cancelled (length es))))"

lemma retried_step:
  assumes "retried cancelled f n (errs @ [e]) s' (t, b, es, ws)" "f s = (s', Some e)"
  shows "retried cancelled f (Suc n) errs s (t, b, es, w # ws)"
proof -
  from assms(1) obtain k where k: "1 \<le> k" "k \<le> n" "t = retry_state f k s'"
    "length ws = (if retry_outcome f (k - 1) s' = None \<or> cancelled (length (errs @ [e]) + k) then k - 1 else k)"
    "\<forall>i. i < k - 1 \<longrightarrow> retry_outcome f i s' \<noteq> None"
    "if retry_outcome f (k - 1) s' = None then es = []
     else es = (errs @ [e]) @ map (\<lambda>i. the (retry_outcome f i s')) [0..<k] \<and> (k = n \<or> cancelled (length es))"
    by (auto simp: retried_def)
  have s': "retry_outcome f (Suc i) s = retry_outcome f i s'" "retry_outcome f 0 s = Some e" for i
    using assms(2) by (simp_all add: retry_shift)
  have "map (\<lambda>i. the (retry_outcome f i s)) [0..<Suc k] = e # map (\<lambda>i. the (retry_outcome f i s')) [0..<k]"
    by (simp add: map_upt_Suc s' assms(2) del: upt_Suc)
  moreover have "retry_outcome f i s \<noteq> None" if "i < Suc k - 1" for i
    using that k(5) s' by (cases i) auto
  moreover have "retry_outcome f (Suc k - 1) s = retry_outcome f (k - 1) s'"
    using k(1) s'(1) [of "k - 1"] by simp
  ultimately show ?thesis
    using k assms(2) unfolding retried_def prod.case
    by (intro exI [of _ "Suc k"]) (auto simp: retry_shift split: if_splits)
qed

lemma WithRetry_spec:
  "Attempt b = int n \<Longrightarrow> 0 < n \<Longrightarrow> retried cancelled f n errs s (WithRetry cancelled f b errs s)"
proof (induction cancelled f b errs s arbitrary: n rule: WithRetry.induct)
  case (1 cancelled f b errs s)
  obtain b' w where nb: "NextBackoff b = (b', w)" by fastforce
  have a': "Attempt b' = int n - 1" using Attempt_next [of b] nb 1(2) by simp
  obtain s' r where f: "f s = (s', r)" by fastforce
  show ?case
  proof (cases r)
    case None
    then have "WithRetry cancelled f b errs s = (s', b, [], [])"
      using f 1(2,3) by (subst WithRetry.simps) simp
    then show ?thesis using f None 1(3) by (auto simp: retried_def retry_state_def retry_outcome_def intro!: exI [of _ 1])
  next
    case (Some e)
    have run: "WithRetry cancelled f b errs s =
        (if cancelled (length (errs @ [e])) then (s', b', errs @ [e], [])
         else (case WithRetry cancelled f b' (errs @ [e]) s' of (t, c, es, ws) \<Rightarrow> (t, c, es, w # ws)))"
      using f Some 1(2,3) nb by (subst WithRetry.simps) (simp add: Let_def)
    have one: "retried cancelled f n errs s (s', b'', errs @ [e], ws)"
      if "n = 1 \<or> cancelled (length (errs @ [e]))" "length ws = (if cancelled (length (errs @ [e])) then 0 else 1)" for b'' ws
      using f Some 1(3) that by (auto simp: retried_def retry_state_def retry_outcome_def intro!: exI [of _ 1])
    show ?thesis
    proof (cases "cancelled (length (errs @ [e]))")
      case True
      then show ?thesis using one run by simp
    next
      case nc: False
      show ?thesis
      proof (cases "n = 1")
        case True
        then have "WithRetry cancelled f b' (errs @ [e]) s' = (s', b', errs @ [e], [])"
          using a' by (subst WithRetry.simps) simp
        then show ?thesis using run nc one [of "[w]" b'] True by simp
      next
        case False
        obtain m where m: "n = Suc m" "0 < m" using False 1(3) by (cases n) auto
        have "retried cancelled f m (errs @ [e]) s' (WithRetry cancelled f b' (errs @ [e]) s')"
          by (rule 1(1)) (use f Some nb nc a' m 1(2) in auto)
        then show ?thesis using retried_step f Some run nc m(1)
          by (cases "WithRetry cancelled f b' (errs @ [e]) s'") simp
      qed
    qed
  qed
qed

section \<open>Connections that retry\<close>

text \<open>
  The operations of a connection are parameters: \<open>query\<close> runs a query with its arguments, \<open>exec\<close> a
  statement, over a state \<open>'w\<close> of the outside world; \<open>rebuildConnFn\<close> returns the connection to use from
  then on, also when it fails.
\<close>

type_synonym ('c, 'w) rebuild = "'c \<Rightarrow> bool \<Rightarrow> 'w \<Rightarrow> 'w \<times> 'c \<times> error option"
type_synonym ('c, 'w) querier = "'c \<Rightarrow> string \<Rightarrow> string list \<Rightarrow> 'w \<Rightarrow> 'w \<times> (error + sql_rows)"

record ('c, 'w) BaseConn =
  DBConn :: 'c
  backOffer :: Backoffer
  rebuildConnFn :: "('c, 'w) rebuild option"

definition newBaseConn :: "'c \<Rightarrow> bool \<Rightarrow> ('c, 'w) rebuild \<Rightarrow> ('c, 'w) BaseConn" where
  "newBaseConn conn shouldRetry rebuild =
     \<lparr>DBConn = conn, backOffer = newRebuildConnBackOffer shouldRetry,
      rebuildConnFn = (if shouldRetry then Some rebuild else None)\<rparr>"

text \<open>The loop of \<open>simpleQueryWithArgs\<close>: the handler is run on every row, an error stops it.\<close>

fun handle_rows ::
  "('a \<Rightarrow> raw_bytes list \<Rightarrow> 'a \<times> error option) \<Rightarrow> 'a \<Rightarrow> (error + raw_bytes list) list \<Rightarrow> error option \<Rightarrow> 'a \<times> error option" where
  "handle_rows h a [] err = (a, err)"
| "handle_rows h a (Inl e # rs) err = (a, Some e)"
| "handle_rows h a (Inr row # rs) err =
     (case h a row of (a', None) \<Rightarrow> handle_rows h a' rs err | (a', Some e) \<Rightarrow> (a', Some e))"

definition query_error :: "string \<Rightarrow> string list \<Rightarrow> error \<Rightarrow> error" where
  "query_error q args e = Annotatef e ''sql: %s, args: %s'' [q, join '' '' args]"

definition simpleQueryWithArgs ::
  "('c, 'w) querier \<Rightarrow> 'c \<Rightarrow> ('a \<Rightarrow> raw_bytes list \<Rightarrow> 'a \<times> error option) \<Rightarrow> string \<Rightarrow> string list \<Rightarrow> 'a \<times> 'w
    \<Rightarrow> ('a \<times> 'w) \<times> error option" where
  "simpleQueryWithArgs qry conn h q args aw =
     (case aw of (a, w) \<Rightarrow>
        (case qry conn q args w of
           (w', Inl e) \<Rightarrow> ((a, w'), Some (query_error q args e))
         | (w', Inr rows) \<Rightarrow>
             (case handle_rows h a (rows_Scan rows) (rows_Err rows) of
                (a', r) \<Rightarrow> ((a', w'), map_option (query_error q args) r))))"

text \<open>The first lines of every retried closure: count the attempt and rebuild the connection from the second on.\<close>

definition retry_conn ::
  "('c, 'w) rebuild option \<Rightarrow> nat \<times> 'c \<times> 'w \<Rightarrow> (nat \<times> 'c \<times> 'w) \<times> error option" where
  "retry_conn rebuild st =
     (case st of (retryTime, c, w) \<Rightarrow>
        let retryTime' = retryTime + 1
        in case rebuild of
             Some f \<Rightarrow>
               if retryTime' > 1 then (case f c False w of (w', c', e) \<Rightarrow> ((retryTime', c', w'), e))
               else ((retryTime', c, w), None)
           | None \<Rightarrow> ((retryTime', c, w), None))"

definition QuerySQL_try ::
  "('c, 'w) querier \<Rightarrow> ('c, 'w) rebuild option \<Rightarrow> ('a \<Rightarrow> raw_bytes list \<Rightarrow> 'a \<times> error option) \<Rightarrow> ('a \<Rightarrow> 'a)
    \<Rightarrow> string \<Rightarrow> string list \<Rightarrow> nat \<times> 'c \<times> 'a \<times> 'w \<Rightarrow> (nat \<times> 'c \<times> 'a \<times> 'w) \<times> error option" where
  "QuerySQL_try qry rebuild h reset q args st =
     (case st of (n, c, a, w) \<Rightarrow>
        (case retry_conn rebuild (n, c, w) of
           ((n', c', w'), Some e) \<Rightarrow> ((n', c', a, w'), Some e)
         | ((n', c', w'), None) \<Rightarrow>
             (case simpleQueryWithArgs qry c' h q args (a, w') of
                ((a', w''), Some e) \<Rightarrow> ((n', c', reset a', w''), Some e)
              | ((a', w''), None) \<Rightarrow> ((n', c', a', w''), None))))"

definition QuerySQL ::
  "(nat \<Rightarrow> bool) \<Rightarrow> ('c, 'w) querier \<Rightarrow> ('c, 'w) BaseConn \<Rightarrow> ('a \<Rightarrow> raw_bytes list \<Rightarrow> 'a \<times> error option) \<Rightarrow> ('a \<Rightarrow> 'a)
    \<Rightarrow> string \<Rightarrow> string list \<Rightarrow> 'a \<Rightarrow> 'w \<Rightarrow> ('c, 'w) BaseConn \<times> 'a \<times> 'w \<times> error list" where
  "QuerySQL cancelled qry conn h reset q args a w =
     (case WithRetry cancelled (QuerySQL_try qry (rebuildConnFn conn) h reset q args) (backOffer conn) [] (0, DBConn conn, a, w) of
        ((n, c, a', w'), b, errs, waits) \<Rightarrow> (conn\<lparr>DBConn := c, backOffer := Reset b\<rparr>, a', w', errs))"

text \<open>\<open>QuerySQLWithColumns\<close>: the results of a failed attempt are thrown away.\<close>

definition QueryColumns_try ::
  "(string \<Rightarrow> string \<Rightarrow> bool) \<Rightarrow> ('c, 'w) querier \<Rightarrow> ('c, 'w) rebuild option \<Rightarrow> string list \<Rightarrow> string \<Rightarrow> string list
    \<Rightarrow> nat \<times> 'c \<times> string list list \<times> 'w \<Rightarrow> (nat \<times> 'c \<times> string list list \<times> 'w) \<times> error option" where
  "QueryColumns_try eqf qry rebuild columns q args st =
     (case st of (n, c, results, w) \<Rightarrow>
        (case retry_conn rebuild (n, c, w) of
           ((n', c', w'), Some e) \<Rightarrow> ((n', c', results, w'), Some e)
         | ((n', c', w'), None) \<Rightarrow>
             (case qry c' q args w' of
                (w'', Inl e) \<Rightarrow> ((n', c', results, w''), Some (Annotatef e ''sql: %s'' [q]))
              | (w'', Inr rows) \<Rightarrow>
                  (case GetSpecifiedColumnValuesAndClose eqf (Some rows) columns of
                     (rs, Some e) \<Rightarrow> ((n', c', [], w''), Some (Annotatef e ''sql: %s'' [q]))
                   | (rs, None) \<Rightarrow> ((n', c', rs, w''), None)))))"

definition QuerySQLWithColumns ::
  "(string \<Rightarrow> string \<Rightarrow> bool) \<Rightarrow> (nat \<Rightarrow> bool) \<Rightarrow> ('c, 'w) querier \<Rightarrow> ('c, 'w) BaseConn \<Rightarrow> string list \<Rightarrow> string
    \<Rightarrow> string list \<Rightarrow> 'w \<Rightarrow> ('c, 'w) BaseConn \<times> string list list \<times> 'w \<times> error list" where
  "QuerySQLWithColumns eqf cancelled qry conn columns q args w =
     (case WithRetry cancelled (QueryColumns_try eqf qry (rebuildConnFn conn) columns q args) (backOffer conn) [] (0, DBConn conn, [], w) of
        ((n, c, results, w'), b, errs, waits) \<Rightarrow> (conn\<lparr>DBConn := c, backOffer := Reset b\<rparr>, results, w', errs))"

definition ExecSQL ::
  "(nat \<Rightarrow> bool) \<Rightarrow> ('c \<Rightarrow> string \<Rightarrow> string list \<Rightarrow> 'w \<Rightarrow> 'w \<times> error option) \<Rightarrow> ('c, 'w) BaseConn
    \<Rightarrow> (error option \<Rightarrow> error option) \<Rightarrow> string \<Rightarrow> string list \<Rightarrow> 'w \<Rightarrow> ('c, 'w) BaseConn \<times> 'w \<times> error list" where
  "ExecSQL cancelled exec conn canRetryFunc q args w =
     (case WithRetry cancelled
             (\<lambda>st. case retry_conn (rebuildConnFn conn) st of
                     (st', Some e) \<Rightarrow> (st', Some e)
                   | ((n, c, w), None) \<Rightarrow> (case exec c q args w of (w', r) \<Rightarrow> ((n, c, w'), canRetryFunc r)))
             (backOffer conn) [] (0, DBConn conn, w) of
        ((n, c, w'), b, errs, waits) \<Rightarrow> (conn\<lparr>DBConn := c, backOffer := Reset b\<rparr>, w', errs))"

section \<open>Properties\<close>

text \<open>The waits of the two back-offers.\<close>

lemma retry_waits:
  "\<exists>m. snd (snd (snd (WithRetry cancelled f (newRebuildConnBackOffer shouldRetry) [] s))) =
     take m (if shouldRetry then [100, 200, 200] else [0])"
proof (cases shouldRetry)
  case True
  have end_run: "WithRetry cancelled f (dumpChunkBackoffer 0 d m) errs t = (t, dumpChunkBackoffer 0 d m, errs, [])" for d m errs t
    by (subst WithRetry.simps) simp
  have run: "\<exists>k. snd (snd (snd (WithRetry cancelled f (dumpChunkBackoffer (int (Suc n)) d m) errs t))) = take k (w # ws)"
    if "\<And>t errs. \<exists>k. snd (snd (snd (WithRetry cancelled f (dumpChunkBackoffer (int n) (2 * d) m) errs t))) = take k ws"
      "w = (if 2 * d > m then m else 2 * d)" for n d m errs t w ws
  proof (cases "f t")
    case (Pair t' r)
    have more: "\<exists>k. w # snd (snd (snd (WithRetry cancelled f (dumpChunkBackoffer (int n) (2 * d) m) errs' t'))) = take k (w # ws)" for errs'
      using that(1) [of errs' t'] by (metis take_Suc_Cons)
    show ?thesis
      using Pair that(2) more [of "errs @ [the r]"]
      by (subst WithRetry.simps) (auto simp: Let_def split: prod.splits option.splits intro: exI [of _ 0])
  qed
  let ?waits = "\<lambda>a d errs t. snd (snd (snd (WithRetry cancelled f (dumpChunkBackoffer a d 200) errs t)))"
  have w1: "\<exists>k. ?waits (int (Suc 0)) 200 errs t = take k [200]" for errs t
    by (rule run) (simp_all add: end_run)
  have w2: "\<exists>k. ?waits (int (Suc (Suc 0))) 100 errs t = take k [200, 200]" for errs t
    by (rule run) (use w1 in simp_all)
  have "\<exists>k. ?waits (int (Suc (Suc (Suc 0)))) 50 [] s = take k [100, 200, 200]"
    by (rule run) (use w2 in simp_all)
  then show ?thesis using True
    by (simp add: newRebuildConnBackOffer_def dumpChunkRetryTime_def dumpChunkWaitInterval_def dumpChunkMaxWaitInterval_def)
next
  case False
  have "WithRetry cancelled f (noopBackoffer 0) errs t = (t, noopBackoffer 0, errs, [])" for errs t
    by (subst WithRetry.simps) simp
  then show ?thesis using False
    by (subst WithRetry.simps)
       (auto simp: newRebuildConnBackOffer_def Let_def split: prod.splits option.splits intro: exI [of _ 0] exI [of _ 1])
qed

text \<open>C23: A retried action runs at least once and at most three times (once when retrying is off), and stops
  at the first attempt that succeeds, in which case no error is reported. Otherwise the errors of all the
  attempts are reported, one each, and either no attempt was left or the context was cancelled. After each failed
  attempt that does not find the context cancelled there is a wait, of 100, 200 and 200 milliseconds (0 when
  retrying is off), and no other.\<close>

theorem retry_attempts_bounded:
  assumes "WithRetry cancelled f (newRebuildConnBackOffer shouldRetry) [] s = (t, b, es, ws)"
  shows "\<exists>k. 1 \<le> k \<and> k \<le> (if shouldRetry then 3 else 1) \<and> t = retry_state f k s \<and>
    (\<forall>i. i < k - 1 \<longrightarrow> retry_outcome f i s \<noteq> None) \<and>
    (if retry_outcome f (k - 1) s = None then es = []
     else es = map (\<lambda>i. the (retry_outcome f i s)) [0..<k] \<and> (k = (if shouldRetry then 3 else 1) \<or> cancelled k)) \<and>
    ws = take (if retry_outcome f (k - 1) s = None \<or> cancelled k then k - 1 else k) (if shouldRetry then [100, 200, 200] else [0])"
proof -
  let ?n = "if shouldRetry then 3 else 1 :: nat"
  have "Attempt (newRebuildConnBackOffer shouldRetry) = int ?n"
    by (simp add: newRebuildConnBackOffer_def dumpChunkRetryTime_def)
  moreover have "0 < ?n" by simp
  ultimately have "retried cancelled f ?n [] s (t, b, es, ws)" using WithRetry_spec assms by metis
  then obtain k where "1 \<le> k" "k \<le> ?n" "t = retry_state f k s"
    "\<forall>i. i < k - 1 \<longrightarrow> retry_outcome f i s \<noteq> None"
    "length ws = (if retry_outcome f (k - 1) s = None \<or> cancelled k then k - 1 else k)"
    "if retry_outcome f (k - 1) s = None then es = []
     else es = map (\<lambda>i. the (retry_outcome f i s)) [0..<k] \<and> (k = ?n \<or> cancelled (length es))"
    unfolding retried_def prod.case append_Nil list.size add_0 by blast
  moreover have "ws = take (length ws) (if shouldRetry then [100, 200, 200] else [0])"
    using retry_waits [of cancelled f shouldRetry s] assms by (metis append_eq_conv_conj append_take_drop_id snd_conv)
  ultimately show ?thesis by (intro exI [of _ k]) (auto split: if_splits)
qed

definition flaky :: "nat \<Rightarrow> nat \<times> error option" where
  "flaky n = (n + 1, if n < 2 then Some (External (fmt_nat n)) else None)"

theorem retry_attempts_bounded_witness:
  "WithRetry (\<lambda>_. False) flaky (newRebuildConnBackOffer True) [] 0 = (3, dumpChunkBackoffer 1 200 200, [], [100, 200]) \<and>
   (\<exists>k. k \<le> 3 \<and> retry_state flaky k 0 = 3 \<and> (\<forall>i. i < k - 1 \<longrightarrow> retry_outcome flaky i 0 \<noteq> None))"
proof -
  have "WithRetry (\<lambda>_. False) flaky (newRebuildConnBackOffer True) [] 0 = (3, dumpChunkBackoffer 1 200 200, [], [100, 200])"
    by code_simp
  from retry_attempts_bounded [OF this] this show ?thesis by auto
qed

text \<open>The state of the accumulator while all attempts fail.\<close>

lemma QuerySQL_try_fail:
  "(\<And>x. reset x = a) \<Longrightarrow> QuerySQL_try qry rebuild h reset q args (n, c, a, w) = ((n', c', a', w'), Some e) \<Longrightarrow> a' = a"
  by (auto simp: QuerySQL_try_def split: prod.splits option.splits)

lemma QuerySQL_try_ok:
  assumes "QuerySQL_try qry rebuild h reset q args (n, c, a, w) = ((n', c', a', w'), None)"
  shows "\<exists>w1 rows. qry c' q args w1 = (w', Inr rows) \<and> handle_rows h a (rows_Scan rows) (rows_Err rows) = (a', None)"
  using assms by (auto simp: QuerySQL_try_def simpleQueryWithArgs_def split: prod.splits option.splits sum.splits)

lemma QuerySQL_acc:
  assumes "\<And>x. reset x = a" "\<forall>i < k. retry_outcome (QuerySQL_try qry rebuild h reset q args) i (n, c, a, w) \<noteq> None"
  shows "\<exists>n' c' w'. retry_state (QuerySQL_try qry rebuild h reset q args) k (n, c, a, w) = (n', c', a, w')"
  using assms(2)
proof (induction k)
  case (Suc k)
  let ?f = "QuerySQL_try qry rebuild h reset q args"
  from Suc obtain n' c' w' where st: "retry_state ?f k (n, c, a, w) = (n', c', a, w')" by auto
  obtain n2 c2 a2 w2 r where f: "?f (n', c', a, w') = ((n2, c2, a2, w2), r)" by (metis surj_pair)
  have "r \<noteq> None" using Suc(2) st f by (auto simp: retry_outcome_def)
  then have "a2 = a" using QuerySQL_try_fail [where reset = reset and a = a, OF assms(1)] f by fast
  then show ?case using st f by (simp add: retry_state_def)
qed (simp add: retry_state_def)

text \<open>C22: A query that is retried delivers its rows once. If the reset function puts the accumulator back to
  its initial value, a query that finally succeeds has accumulated exactly the rows of one result set read to
  its end without an error: rows handled before a failure in mid-stream are not kept.\<close>

theorem query_retry_no_duplicates:
  assumes "\<And>x. reset x = a" "0 < Attempt (backOffer conn)"
    and "QuerySQL cancelled qry conn h reset q args a w = (conn', a', w', [])"
  shows "\<exists>c w1 rows. qry c q args w1 = (w', Inr rows) \<and>
    handle_rows h a (rows_Scan rows) (rows_Err rows) = (a', None) \<and> DBConn conn' = c"
proof -
  let ?f = "QuerySQL_try qry (rebuildConnFn conn) h reset q args"
  obtain n c b ws where run: "WithRetry cancelled ?f (backOffer conn) [] (0, DBConn conn, a, w) = ((n, c, a', w'), b, [], ws)"
    and conn': "DBConn conn' = c"
    using assms(3) by (auto simp: QuerySQL_def split: prod.splits)
  have "Attempt (backOffer conn) = int (nat (Attempt (backOffer conn)))" "0 < nat (Attempt (backOffer conn))"
    using assms(2) by simp_all
  from WithRetry_spec [OF this, of cancelled ?f "[]" "(0, DBConn conn, a, w)"] run obtain k where
    k: "1 \<le> k" "(n, c, a', w') = retry_state ?f k (0, DBConn conn, a, w)"
      "\<forall>i < k - 1. retry_outcome ?f i (0, DBConn conn, a, w) \<noteq> None"
      "retry_outcome ?f (k - 1) (0, DBConn conn, a, w) = None"
    by (auto simp: retried_def split: if_splits)
  from QuerySQL_acc [OF assms(1) k(3)] obtain n0 c0 w0 where
    st: "retry_state ?f (k - 1) (0, DBConn conn, a, w) = (n0, c0, a, w0)" by auto
  have "retry_state ?f k (0, DBConn conn, a, w) = fst (?f (n0, c0, a, w0))"
    using st k(1) by (cases k) (simp_all add: retry_state_def)
  moreover have "snd (?f (n0, c0, a, w0)) = None" using k(4) st by (simp add: retry_outcome_def)
  ultimately have "?f (n0, c0, a, w0) = ((n, c, a', w'), None)" using k(2) by (metis prod.collapse)
  from QuerySQL_try_ok [OF this] conn' show ?thesis by blast
qed

text \<open>A database whose first result set breaks off after one row.\<close>

definition flaky_query :: "(nat, nat) querier" where
  "flaky_query c q args w =
     (w + 1, Inr \<lparr>rows_Columns = Inr [''a''], rows_Scan = [Inr [Some ''1'']] @ (if w = 0 then [] else [Inr [Some ''2'']]),
                  rows_Err = (if w = 0 then Some (External ''lost'') else None)\<rparr>)"

definition collect :: "raw_bytes list list \<Rightarrow> raw_bytes list \<Rightarrow> raw_bytes list list \<times> error option" where
  "collect a row = (a @ [row], None)"

definition flaky_conn :: "(nat, nat) BaseConn" where
  "flaky_conn = newBaseConn 0 True (\<lambda>c m w. (w, c + 1, None))"

theorem query_retry_no_duplicates_witness:
  "\<exists>conn' c w1 rows.
     QuerySQL (\<lambda>_. False) flaky_query flaky_conn collect (\<lambda>_. []) ''q'' [] [] 0 = (conn', [[Some ''1''], [Some ''2'']], 2, []) \<and>
     flaky_query c ''q'' [] w1 = (2, Inr rows) \<and> rows_Err rows = None"
proof -
  obtain conn' where r: "QuerySQL (\<lambda>_. False) flaky_query flaky_conn collect (\<lambda>_. []) ''q'' [] [] 0 =
      (conn', [[Some ''1''], [Some ''2'']], 2, [])"
  proof -
    have "snd (QuerySQL (\<lambda>_. False) flaky_query flaky_conn collect (\<lambda>_. []) ''q'' [] [] 0) =
      ([[Some ''1''], [Some ''2'']], 2, [])" by code_simp
    then show ?thesis using that by (metis prod.collapse)
  qed
  have "0 < Attempt (backOffer flaky_conn)" by code_simp
  from query_retry_no_duplicates [OF _ this r] obtain c w1 rows where
    "flaky_query c ''q'' [] w1 = (2, Inr rows)" "handle_rows collect [] (rows_Scan rows) (rows_Err rows) = ([[Some ''1''], [Some ''2'']], None)"
    by auto
  moreover from this(1) have "rows_Err rows = None" by (auto simp: flaky_query_def)
  ultimately show ?thesis using r by blast
qed

end
