(* ===== verification/Catalog.thy ===== *)
theory Catalog
  imports Retry
begin

text \<open>
  Choosing the tables to dump: the catalog queries of \<open>export/sql.go\<close> that list schemas and tables, the
  filters of \<open>export/block_allow_list.go\<close> and their composition in \<open>prepareDumpingDatabases\<close>
  (\<open>export/prepare.go\<close>) and \<open>prepareTableListToDump\<close> (\<open>export/dump.go\<close>).

  The database is a parameter: \<open>qry\<close> answers plain queries, \<open>cq\<close> the two queries over \<open>pg_class\<close>, whose
  bound arguments are arrays of names; both work on a state \<open>'w\<close> of the outside world. A row of the latter
  is given as \<open>Scan\<close> delivers it.

  The theorem: without \<open>-T\<close> and \<open>--sql\<close>, the tables of the dump are those of the visible schemas that have
  a wanted type and that the filter accepts, each as often and in the order the catalog lists them.
\<close>

section \<open>Queries\<close>

record class_row =
  cl_schema :: string
  cl_name :: string
  cl_type :: string
  cl_avgRowLength :: "int option"

record class_rows =
  cl_rows :: "(error + class_row) list"
  cl_err :: "error option"

type_synonym ('c, 'w) class_querier = "'c \<Rightarrow> string \<Rightarrow> string list list \<Rightarrow> 'w \<Rightarrow> 'w \<times> (error + class_rows)"

definition lines :: "string list \<Rightarrow> string" where
  "lines ls = join [NL] ls"

definition TAB :: char where "TAB = CHR 0x09"

definition showDatabasesQuery :: string where
  "showDatabasesQuery = lines
     [''SELECT nspname FROM pg_catalog.pg_namespace'',
      [TAB, TAB] @ ''WHERE nspname NOT IN ('pg_catalog','information_schema','pg_toast')'',
      [TAB, TAB] @ ''  AND nspname NOT LIKE 'pg_temp_%'' @ [SQ],
      [TAB, TAB] @ ''  AND nspname NOT LIKE 'pg_toast_temp_%'' @ [SQ],
      [TAB, TAB] @ ''ORDER BY nspname'']"

definition classColumns :: "string list" where
  "classColumns =
     ['''', ''SELECT n.nspname,'', ''       c.relname,'', ''       CASE c.relkind'',
      ''         WHEN 'r' THEN 'BASE TABLE'' @ [SQ], ''         WHEN 'p' THEN 'BASE TABLE'' @ [SQ],
      ''         WHEN 'v' THEN 'VIEW'' @ [SQ], ''         WHEN 'm' THEN 'VIEW'' @ [SQ],
      ''         WHEN 'S' THEN 'SEQUENCE'' @ [SQ], ''         ELSE 'BASE TABLE'' @ [SQ],
      ''       END AS table_type,'', ''       COALESCE('', ''         CASE WHEN c.reltuples > 0'',
      ''              THEN (pg_relation_size(c.oid) / c.reltuples)::bigint'', ''              ELSE 0'',
      ''         END, 0) AS avg_row_length'', ''FROM pg_catalog.pg_class c'',
      ''JOIN pg_catalog.pg_namespace n ON n.oid = c.relnamespace'']"

definition specifiedTablesQuery :: string where
  "specifiedTablesQuery = lines (classColumns @ [''WHERE n.nspname = ANY($1) AND c.relname = ANY($2)''])"

definition listTablesQuery :: string where
  "listTablesQuery = lines (classColumns @
     [''WHERE n.nspname = ANY($1)'', ''  AND c.relkind = ANY(ARRAY['r','p','v','m'])'', ''ORDER BY n.nspname, c.relname''])"

text \<open>\<open>oneStrColumnTable\<close>: \<open>Scan\<close> into one string fails on NULL and on another number of columns.\<close>

fun handleOneRow :: "string list \<Rightarrow> raw_bytes list \<Rightarrow> string list \<times> error option" where
  "handleOneRow dat [Some str] = (dat @ [str], None)"
| "handleOneRow dat row = (dat, Some (External ''sql: Scan error''))"

definition ShowDatabases :: "('c, 'w) querier \<Rightarrow> 'c \<Rightarrow> 'w \<Rightarrow> 'w \<times> (error + string list)" where
  "ShowDatabases qry conn w =
     (case simpleQueryWithArgs qry conn handleOneRow showDatabasesQuery [] ([], w) of
        ((dat, w'), Some e) \<Rightarrow> (w', Inl e)
      | ((dat, w'), None) \<Rightarrow> (w', Inr dat))"

section \<open>Listing tables\<close>

text \<open>\<open>uint64(avgRowLength.Int64)\<close>; zero when the value is NULL.\<close>

definition avg_u64 :: "int option \<Rightarrow> u64" where
  "avg_u64 a = (case a of None \<Rightarrow> 0 | Some n \<Rightarrow> of_int n)"

fun list_tables :: "TableType list \<Rightarrow> (error + class_row) list \<Rightarrow> error option \<Rightarrow> DatabaseTables \<Rightarrow> DatabaseTables \<times> error option" where
  "list_tables want [] err d = (d, err)"
| "list_tables want (Inl e # rs) err d = ([], Some e)"
| "list_tables want (Inr r # rs) err d =
     (case ParseTableType (cl_type r) of
        Inl e \<Rightarrow> ([], Some e)
      | Inr tt \<Rightarrow>
          if tt \<notin> set want \<and> want \<noteq> [] then list_tables want rs err d
          else list_tables want rs err
                 (AppendTable d (cl_schema r) \<lparr>ti_Name = cl_name r, ti_AvgRowLength = avg_u64 (cl_avgRowLength r), ti_Type = tt\<rparr>))"

definition ListAllDatabasesTables ::
  "('c, 'w) class_querier \<Rightarrow> 'c \<Rightarrow> string list \<Rightarrow> TableType list \<Rightarrow> 'w \<Rightarrow> 'w \<times> DatabaseTables \<times> error option" where
  "ListAllDatabasesTables cq conn databaseNames tableTypes w =
     (let dbTables = foldl (\<lambda>d schema. AList.update schema [] d) [] databaseNames
      in case cq conn listTablesQuery [databaseNames] w of
           (w', Inl e) \<Rightarrow> (w', [], Some (Annotatef e ''sql: %s'' [listTablesQuery]))
         | (w', Inr rows) \<Rightarrow> (w', list_tables tableTypes (cl_rows rows) (cl_err rows) dbTables))"

text \<open>The tables named by \<open>-T\<close> already stand in the map; their type and size are filled in.\<close>

definition update_info :: "TableType \<Rightarrow> class_row \<Rightarrow> TableInfo \<Rightarrow> TableInfo" where
  "update_info tt r tbl =
     (if ti_Name tbl = cl_name r
      then (case cl_avgRowLength r of
              None \<Rightarrow> tbl\<lparr>ti_Type := tt\<rparr>
            | Some n \<Rightarrow> tbl\<lparr>ti_Type := tt, ti_AvgRowLength := of_int n\<rparr>)
      else tbl)"

fun update_tables :: "(error + class_row) list \<Rightarrow> error option \<Rightarrow> DatabaseTables \<Rightarrow> DatabaseTables \<times> error option" where
  "update_tables [] err d = (d, err)"
| "update_tables (Inl e # rs) err d = (d, Some e)"
| "update_tables (Inr r # rs) err d =
     (case ParseTableType (cl_type r) of
        Inl e \<Rightarrow> (d, Some e)
      | Inr tt \<Rightarrow>
          update_tables rs err
            (map (\<lambda>(schema, tbls). (schema, if schema = cl_schema r then map (update_info tt r) tbls else tbls)) d))"

definition updateSpecifiedTablesMeta ::
  "('c, 'w) class_querier \<Rightarrow> 'c \<Rightarrow> DatabaseTables \<Rightarrow> 'w \<Rightarrow> 'w \<times> DatabaseTables \<times> error option" where
  "updateSpecifiedTablesMeta cq conn dbTables w =
     (let schemas = map fst dbTables;
          tables = concat (map (\<lambda>(schema, tbls). map ti_Name tbls) dbTables)
      in case cq conn specifiedTablesQuery [schemas, tables] w of
           (w', Inl e) \<Rightarrow> (w', dbTables, Some (Annotatef e ''sql: %s'' [specifiedTablesQuery]))
         | (w', Inr rows) \<Rightarrow> (w', update_tables (cl_rows rows) (cl_err rows) dbTables))"

section \<open>Filtering\<close>

definition filterDatabases :: "(string \<Rightarrow> string) \<Rightarrow> regexp_engine \<Rightarrow> Config \<Rightarrow> string list \<Rightarrow> string list" where
  "filterDatabases uni re conf databases = filter (MatchSchema uni re (TableFilter conf)) databases"

definition filter_schema ::
  "(string \<Rightarrow> string) \<Rightarrow> regexp_engine \<Rightarrow> Config \<Rightarrow> (string \<Rightarrow> string \<Rightarrow> bool) \<Rightarrow> DatabaseTables
    \<Rightarrow> string \<times> TableInfo list \<Rightarrow> DatabaseTables" where
  "filter_schema uni re conf matchTable dbTables entry =
     (case entry of (dbName, tables) \<Rightarrow>
        let d = foldl (\<lambda>d table. if matchTable dbName (ti_Name table) then AppendTable d dbName table else d) dbTables tables
        in if DumpEmptyDatabase conf \<and> map_of d dbName = None \<and> MatchSchema uni re (TableFilter conf) dbName
           then AList.update dbName [] d else d)"

definition filterTablesFunc ::
  "(string \<Rightarrow> string) \<Rightarrow> regexp_engine \<Rightarrow> Config \<Rightarrow> (string \<Rightarrow> string \<Rightarrow> bool) \<Rightarrow> Config" where
  "filterTablesFunc uni re conf matchTable =
     conf\<lparr>Tables := foldl (filter_schema uni re conf matchTable) [] (Tables conf)\<rparr>"

definition filterTables :: "(string \<Rightarrow> string) \<Rightarrow> regexp_engine \<Rightarrow> Config \<Rightarrow> Config" where
  "filterTables uni re conf = filterTablesFunc uni re conf (MatchTable uni re (TableFilter conf))"

definition prepareDumpingDatabases ::
  "(string \<Rightarrow> string) \<Rightarrow> regexp_engine \<Rightarrow> ('c, 'w) querier \<Rightarrow> Config \<Rightarrow> 'c \<Rightarrow> 'w \<Rightarrow> 'w \<times> (error + string list)" where
  "prepareDumpingDatabases uni re qry conf conn w =
     (case ShowDatabases qry conn w of
        (w', Inl e) \<Rightarrow> (w', Inl e)
      | (w', Inr databases) \<Rightarrow> (w', Inr (filterDatabases uni re conf databases)))"

definition wanted_types :: "Config \<Rightarrow> TableType list" where
  "wanted_types conf =
     [TableTypeBase] @ (if NoViews conf then [] else [TableTypeView]) @ (if NoSequences conf then [] else [TableTypeSequence])"

definition prepareTableListToDump ::
  "(string \<Rightarrow> string) \<Rightarrow> regexp_engine \<Rightarrow> ('c, 'w) querier \<Rightarrow> ('c, 'w) class_querier \<Rightarrow> 'c \<Rightarrow> Config \<Rightarrow> 'w
    \<Rightarrow> 'w \<times> Config \<times> error option" where
  "prepareTableListToDump uni re qry cq conn conf w =
     (if SQL conf \<noteq> '''' then (w, conf, None)
      else if SpecifiedTables conf
      then (case updateSpecifiedTablesMeta cq conn (Tables conf) w of
              (w', d, err) \<Rightarrow> (w', conf\<lparr>Tables := d\<rparr>, err))
      else (case prepareDumpingDatabases uni re qry conf conn w of
              (w1, Inl e) \<Rightarrow> (w1, conf, Some e)
            | (w1, Inr databases) \<Rightarrow>
                (case ListAllDatabasesTables cq conn databases (wanted_types conf) w1 of
                   (w2, d, Some e) \<Rightarrow> (w2, conf\<lparr>Tables := d\<rparr>, Some e)
                 | (w2, d, None) \<Rightarrow> (w2, filterTables uni re (conf\<lparr>Tables := d\<rparr>), None))))"

section \<open>The tables of the dump\<close>

text \<open>What the catalog lists of a schema: its classes of a wanted type.\<close>

definition class_info :: "class_row \<Rightarrow> TableInfo option" where
  "class_info r =
     (case ParseTableType (cl_type r) of
        Inl e \<Rightarrow> None
      | Inr tt \<Rightarrow> Some \<lparr>ti_Name = cl_name r, ti_AvgRowLength = avg_u64 (cl_avgRowLength r), ti_Type = tt\<rparr>)"

definition classes_of :: "TableType list \<Rightarrow> class_row list \<Rightarrow> string \<Rightarrow> TableInfo list" where
  "classes_of want classes s =
     filter (\<lambda>i. ti_Type i \<in> set want) (List.map_filter class_info (filter (\<lambda>r. cl_schema r = s) classes))"

lemma classes_of_simps [simp]:
  "classes_of want [] s = []"
  "classes_of want (r # rs) s =
     (case class_info r of
        None \<Rightarrow> classes_of want rs s
      | Some i \<Rightarrow> (if cl_schema r = s \<and> ti_Type i \<in> set want then [i] else []) @ classes_of want rs s)"
  by (auto simp: classes_of_def split: option.splits)

lemma classes_of_pruned: "P s \<Longrightarrow> classes_of want (filter (\<lambda>r. P (cl_schema r)) classes) s = classes_of want classes s"
  by (induction classes) (auto split: option.splits)

lemma list_tables_spec:
  assumes "list_tables want (map Inr rs) err d = (d', None)" "want \<noteq> []"
  shows "tables_of d' s = tables_of d s @ classes_of want rs s"
    "fst ` set d' = fst ` set d \<union> {s. classes_of want rs s \<noteq> []}" "err = None"
  using assms
  by (induction rs arbitrary: d)
     (auto simp: class_info_def AppendTable_def split: sum.splits if_splits)

lemma list_tables_wf:
  "list_tables want (map Inr rs) err d = (d', None) \<Longrightarrow> wf_tables d \<Longrightarrow> wf_tables d'"
  by (induction rs arbitrary: d) (auto simp: AppendTable_def split: sum.splits if_splits)

lemma tables_of_absent: "s \<notin> fst ` set d \<Longrightarrow> tables_of d s = []"
  by (simp add: tables_of_def map_of_eq_None_iff [symmetric])

lemma empty_schemas:
  "wf_tables d \<Longrightarrow> wf_tables (foldl (\<lambda>d schema. AList.update schema [] d) d ss) \<and>
   fst ` set (foldl (\<lambda>d schema. AList.update schema [] d) d ss) = fst ` set d \<union> set ss \<and>
   (\<forall>s. tables_of (foldl (\<lambda>d schema. AList.update schema [] d) d ss) s = (if s \<in> set ss then [] else tables_of d s))"
  by (induction ss arbitrary: d) (auto simp: wf_tables_def distinct_update dom_update)

lemma append_matching:
  defines "app \<equiv> \<lambda>m db. foldl (\<lambda>d table. if m db (ti_Name table) then AppendTable d db table else d)"
  shows "tables_of (app m db d ts) s = tables_of d s @ (if s = db then filter (\<lambda>i. m db (ti_Name i)) ts else [])"
    "wf_tables d \<Longrightarrow> wf_tables (app m db d ts)"
    "fst ` set (app m db d ts) = fst ` set d \<union> (if filter (\<lambda>i. m db (ti_Name i)) ts = [] then {} else {db})"
  unfolding app_def by (induction ts arbitrary: d) (auto simp: AppendTable_def)

text \<open>One schema of the filter loop, for a schema that the result does not have yet.\<close>

definition keeps_schema :: "(string \<Rightarrow> string) \<Rightarrow> regexp_engine \<Rightarrow> Config \<Rightarrow> (string \<Rightarrow> string \<Rightarrow> bool) \<Rightarrow> string \<Rightarrow> TableInfo list \<Rightarrow> bool" where
  "keeps_schema uni re conf m s ts \<longleftrightarrow>
     (\<exists>i \<in> set ts. m s (ti_Name i)) \<or> DumpEmptyDatabase conf \<and> MatchSchema uni re (TableFilter conf) s"

lemma filter_schema_spec:
  assumes "db \<notin> fst ` set d"
  shows "tables_of (filter_schema uni re conf m d (db, ts)) s = (if s = db then filter (\<lambda>i. m db (ti_Name i)) ts else tables_of d s)"
    "wf_tables d \<Longrightarrow> wf_tables (filter_schema uni re conf m d (db, ts))"
    "fst ` set (filter_schema uni re conf m d (db, ts)) = fst ` set d \<union> {s. s = db \<and> keeps_schema uni re conf m db ts}"
proof -
  define e where "e = foldl (\<lambda>d table. if m db (ti_Name table) then AppendTable d db table else d) d ts"
  have run: "filter_schema uni re conf m d (db, ts) =
      (if DumpEmptyDatabase conf \<and> map_of e db = None \<and> MatchSchema uni re (TableFilter conf) db then AList.update db [] e else e)"
    by (simp add: filter_schema_def e_def Let_def)
  note e = append_matching [where m = m and db = db and d = d and ts = ts, folded e_def]
  have none: "map_of e db = None \<longleftrightarrow> filter (\<lambda>i. m db (ti_Name i)) ts = []"
    using e(3) assms by (auto simp: map_of_eq_None_iff split: if_splits)
  show "tables_of (filter_schema uni re conf m d (db, ts)) s = (if s = db then filter (\<lambda>i. m db (ti_Name i)) ts else tables_of d s)"
    using e(1) assms none unfolding run by (auto simp: tables_of_absent)
  show "wf_tables d \<Longrightarrow> wf_tables (filter_schema uni re conf m d (db, ts))"
    using e(2) unfolding run by (simp add: wf_tables_def distinct_update)
  have "filter (\<lambda>i. m db (ti_Name i)) ts = [] \<longleftrightarrow> \<not> (\<exists>i \<in> set ts. m db (ti_Name i))" by (auto simp: filter_empty_conv)
  then show "fst ` set (filter_schema uni re conf m d (db, ts)) = fst ` set d \<union> {s. s = db \<and> keeps_schema uni re conf m db ts}"
    using e(3) none unfolding run keeps_schema_def by (auto simp: dom_update)
qed

lemma filter_tables_spec:
  assumes "wf_tables d" "fst ` set d \<inter> fst ` set acc = {}" "wf_tables acc"
  shows "(\<forall>s. tables_of (foldl (filter_schema uni re conf m) acc d) s =
      tables_of acc s @ filter (\<lambda>i. m s (ti_Name i)) (tables_of d s)) \<and>
    wf_tables (foldl (filter_schema uni re conf m) acc d) \<and>
    fst ` set (foldl (filter_schema uni re conf m) acc d) =
      fst ` set acc \<union> {s \<in> fst ` set d. keeps_schema uni re conf m s (tables_of d s)}"
  using assms
proof (induction d arbitrary: acc)
  case (Cons entry d)
  obtain db ts where entry: "entry = (db, ts)" by fastforce
  have db: "db \<notin> fst ` set acc" "db \<notin> fst ` set d" "wf_tables d"
    using Cons(2-4) entry by (auto simp: wf_tables_def image_iff)
  note one = filter_schema_spec [OF db(1), where uni = uni and re = re and conf = conf and m = m and ts = ts]
  have "fst ` set d \<inter> fst ` set (filter_schema uni re conf m acc (db, ts)) = {}"
    using Cons(3) db(2) entry one(3) by auto
  note rest = Cons(1) [OF db(3) this one(2) [OF Cons(4)]]
  have t: "tables_of (entry # d) s = (if s = db then ts else tables_of d s)" for s
    by (simp add: entry tables_of_def)
  have fold: "foldl (filter_schema uni re conf m) acc (entry # d) = foldl (filter_schema uni re conf m) (filter_schema uni re conf m acc (db, ts)) d"
    by (simp add: entry)
  show ?case unfolding fold
  proof (intro conjI allI)
    fix s
    show "tables_of (foldl (filter_schema uni re conf m) (filter_schema uni re conf m acc (db, ts)) d) s =
        tables_of acc s @ filter (\<lambda>i. m s (ti_Name i)) (tables_of (entry # d) s)"
      using rest one(1) [of s] tables_of_absent [OF db(1)] tables_of_absent [OF db(2)] t [of s] by simp
    show "wf_tables (foldl (filter_schema uni re conf m) (filter_schema uni re conf m acc (db, ts)) d)"
      using rest by blast
    have "fst ` set (entry # d) = insert db (fst ` set d)" by (simp add: entry)
    then show "fst ` set (foldl (filter_schema uni re conf m) (filter_schema uni re conf m acc (db, ts)) d) =
        fst ` set acc \<union> {s \<in> fst ` set (entry # d). keeps_schema uni re conf m s (tables_of (entry # d) s)}"
      using rest one(3) db(2) by (auto simp: t)
  qed
qed (simp add: tables_of_def)

lemma handle_strings: "handle_rows handleOneRow dat (map (\<lambda>s. Inr [Some s]) ss) None = (dat @ ss, None)"
  by (induction ss arbitrary: dat) auto

lemma wanted_nonempty [simp]: "wanted_types conf \<noteq> []"
  by (simp add: wanted_types_def)

text \<open>C6: The tables of a dump are exactly those the filter selects. If the catalog lists the visible schemas and,
  for the schemas asked for, their classes, then without \<open>-T\<close> and \<open>--sql\<close> every visible schema is dumped with
  just those of its classes that have a wanted type and that the filter accepts, each as often and in the order
  the catalog lists them, although schemas the filter rejects are never asked for. A schema is in the dump if it
  has such a table or if empty schemas are dumped and the filter accepts it; no other schema is.\<close>

theorem dumped_tables_exact:
  assumes "SQL conf = ''''" "\<not> SpecifiedTables conf"
    and "qry conn showDatabasesQuery [] w =
      (w1, Inr \<lparr>rows_Columns = cols, rows_Scan = map (\<lambda>s. Inr [Some s]) schemas, rows_Err = None\<rparr>)"
    and "cq conn listTablesQuery [filterDatabases uni re conf schemas] w1 =
      (w2, Inr \<lparr>cl_rows = map Inr (filter (\<lambda>r. cl_schema r \<in> set (filterDatabases uni re conf schemas)) classes), cl_err = None\<rparr>)"
    and "prepareTableListToDump uni re qry cq conn conf w = (w', conf', None)"
  shows "(\<forall>s. tables_of (Tables conf') s =
      (if s \<in> set schemas then filter (\<lambda>i. MatchTable uni re (TableFilter conf) s (ti_Name i)) (classes_of (wanted_types conf) classes s)
       else [])) \<and>
    distinct (map fst (Tables conf')) \<and>
    fst ` set (Tables conf') =
      {s \<in> set schemas. tables_of (Tables conf') s \<noteq> [] \<or> DumpEmptyDatabase conf \<and> MatchSchema uni re (TableFilter conf) s}"
proof -
  let ?L = "filterDatabases uni re conf schemas" and ?m = "MatchTable uni re (TableFilter conf)"
  let ?rs = "filter (\<lambda>r. cl_schema r \<in> set ?L) classes"
  let ?d0 = "foldl (\<lambda>d schema. AList.update schema [] d) [] ?L :: DatabaseTables"
  have "prepareDumpingDatabases uni re qry conf conn w = (w1, Inr ?L)"
    using assms(3) handle_strings [of "[]"] by (simp add: prepareDumpingDatabases_def ShowDatabases_def simpleQueryWithArgs_def)
  with assms(1,2,4,5) obtain d where d: "list_tables (wanted_types conf) (map Inr ?rs) None ?d0 = (d, None)"
    and conf': "conf' = filterTables uni re (conf\<lparr>Tables := d\<rparr>)"
    by (auto simp: prepareTableListToDump_def ListAllDatabasesTables_def Let_def split: prod.splits option.splits)
  have d0: "wf_tables ?d0" "fst ` set ?d0 = set ?L" "\<And>s. tables_of ?d0 s = []"
    using empty_schemas [OF wf_tables_Nil, of ?L] by (simp_all add: tables_of_absent)
  have L: "s \<in> set ?L \<longleftrightarrow> s \<in> set schemas \<and> MatchSchema uni re (TableFilter conf) s" for s
    by (auto simp: filterDatabases_def)
  have pruned: "classes_of (wanted_types conf) ?rs s = (if s \<in> set ?L then classes_of (wanted_types conf) classes s else [])" for s
    using classes_of_pruned [of "\<lambda>x. x \<in> set ?L" s] by (auto simp: classes_of_def filter_empty_conv List.map_filter_def)
  have tabs: "tables_of d s = (if s \<in> set ?L then classes_of (wanted_types conf) classes s else [])"
    and keys: "fst ` set d = set ?L" for s
    using list_tables_spec [OF d wanted_nonempty] d0 pruned by auto
  have run: "Tables conf' = foldl (filter_schema uni re (conf\<lparr>Tables := d\<rparr>) ?m) [] d"
    by (simp add: conf' filterTables_def filterTablesFunc_def)
  from filter_tables_spec [OF list_tables_wf [OF d d0(1)], of "[]" uni re "conf\<lparr>Tables := d\<rparr>" ?m]
  have res: "tables_of (Tables conf') s = filter (\<lambda>i. ?m s (ti_Name i)) (tables_of d s)" "wf_tables (Tables conf')"
    "fst ` set (Tables conf') = {s \<in> set ?L. keeps_schema uni re (conf\<lparr>Tables := d\<rparr>) ?m s (tables_of d s)}" for s
    unfolding run keys by (simp_all add: tables_of_def)
  have acc: "s \<in> set schemas \<Longrightarrow> ?m s t \<Longrightarrow> s \<in> set ?L" for s t using L filters.table_schema by blast
  have "tables_of (Tables conf') s = (if s \<in> set schemas then filter (\<lambda>i. ?m s (ti_Name i)) (classes_of (wanted_types conf) classes s) else [])" for s
  proof (cases "s \<in> set ?L")
    case False
    then have "s \<in> set schemas \<Longrightarrow> filter (\<lambda>i. ?m s (ti_Name i)) (classes_of (wanted_types conf) classes s) = []"
      using acc by (auto simp: filter_empty_conv)
    with False show ?thesis using res(1) [of s] tabs [of s] by simp
  qed (use res(1) tabs L in simp)
  moreover have "fst ` set (Tables conf') =
      {s \<in> set schemas. tables_of (Tables conf') s \<noteq> [] \<or> DumpEmptyDatabase conf \<and> MatchSchema uni re (TableFilter conf) s}"
    unfolding res(1,3) keeps_schema_def using L acc tabs by (auto simp: filter_empty_conv split: if_splits)
  ultimately show ?thesis using res(2) by (simp add: wf_tables_def)
qed

text \<open>A database with two schemas, of which the filter accepts one.\<close>

definition two_schemas :: "(unit, unit) querier" where
  "two_schemas c q args w =
     (w, Inr \<lparr>rows_Columns = Inr [''nspname''], rows_Scan = map (\<lambda>s. Inr [Some s]) [''app'', ''tmp''], rows_Err = None\<rparr>)"

definition sample_classes :: "class_row list" where
  "sample_classes =
     [\<lparr>cl_schema = ''app'', cl_name = ''t'', cl_type = ''BASE TABLE'', cl_avgRowLength = Some 8\<rparr>,
      \<lparr>cl_schema = ''app'', cl_name = ''v'', cl_type = ''VIEW'', cl_avgRowLength = None\<rparr>,
      \<lparr>cl_schema = ''tmp'', cl_name = ''x'', cl_type = ''BASE TABLE'', cl_avgRowLength = None\<rparr>]"

definition sample_class_query :: "(unit, unit) class_querier" where
  "sample_class_query c q args w =
     (w, Inr \<lparr>cl_rows = map Inr (filter (\<lambda>r. cl_schema r \<in> set (hd args)) sample_classes), cl_err = None\<rparr>)"

definition no_regexp :: regexp_engine where
  "no_regexp = (\<lambda>_. Inl (External ''regexp''))"

definition app_config :: Config where
  "app_config = DefaultConfig\<lparr>TableFilter := schemasFilter [''app''], NoViews := False\<rparr>"

theorem dumped_tables_exact_witness:
  "\<exists>conf'. prepareTableListToDump (\<lambda>s. s) no_regexp two_schemas sample_class_query () app_config () = ((), conf', None) \<and>
     map ti_Name (tables_of (Tables conf') ''app'') = [''t'', ''v''] \<and> tables_of (Tables conf') ''tmp'' = [] \<and>
     fst ` set (Tables conf') = {''app''}"
proof -
  have "snd (snd (prepareTableListToDump (\<lambda>s. s) no_regexp two_schemas sample_class_query () app_config ())) = None"
    by code_simp
  then obtain conf' where r: "prepareTableListToDump (\<lambda>s. s) no_regexp two_schemas sample_class_query () app_config () = ((), conf', None)"
    by (metis (full_types) old.unit.exhaust prod.collapse)
  have facts: "SQL app_config = ''''" "\<not> SpecifiedTables app_config" "filterDatabases (\<lambda>s. s) no_regexp app_config [''app'', ''tmp''] = [''app'']"
    "map ti_Name (classes_of (wanted_types app_config) sample_classes ''app'') = [''t'', ''v'']" "DumpEmptyDatabase app_config"
    by code_simp+
  have m: "MatchTable (\<lambda>s. s) no_regexp (TableFilter app_config) s t = (s = ''app'')"
    "MatchSchema (\<lambda>s. s) no_regexp (TableFilter app_config) s = (s = ''app'')" for s t
    by (simp_all add: app_config_def)
  from dumped_tables_exact [OF facts(1,2) two_schemas_def [of "()" showDatabasesQuery "[]" "()"] _ r, where classes = sample_classes]
  have "(\<forall>s. tables_of (Tables conf') s = (if s \<in> {''app'', ''tmp''} then
        filter (\<lambda>i. MatchTable (\<lambda>s. s) no_regexp (TableFilter app_config) s (ti_Name i)) (classes_of (wanted_types app_config) sample_classes s) else [])) \<and>
    fst ` set (Tables conf') = {s \<in> {''app'', ''tmp''}. tables_of (Tables conf') s \<noteq> [] \<or>
      DumpEmptyDatabase app_config \<and> MatchSchema (\<lambda>s. s) no_regexp (TableFilter app_config) s}"
    by (simp add: facts(3) sample_class_query_def)
  then show ?thesis using r facts(4,5) unfolding m by auto
qed

end
