(* ===== verification/Dump_Tasks.thy ===== *)
theory Dump_Tasks
  imports Chunking Catalog
begin

text \<open>
  The producer side of a dump: the metadata of a table (\<open>dumpTableMeta\<close>), the definitions fetched with
  \<open>pg_dump\<close> (\<open>runPgDumpSchema\<close> of \<open>export/sql.go\<close>), and the tasks made for all schemas and tables
  (\<open>dumpDatabases\<close>, \<open>dumpSQL\<close> of \<open>export/dump.go\<close>).

  Parameters: \<open>db\<close> answers catalog queries, \<open>coltypes\<close> the query for the column types (those of its first
  row, \<^const>\<open>None\<close> when there is no row), and \<open>pg_dump\<close> is the external program, with its arguments and
  environment.

  The theorem: the task stream has, schema by schema and table by table, exactly one metadata task for each
  schema and table, followed by the data tasks of that table if it is a base table.
\<close>

section \<open>Definitions from pg\_dump\<close>

datatype exec_error = ExitError error string | StartError error

type_synonym pg_dump_prog = "string list \<Rightarrow> string list \<Rightarrow> exec_error + string"

definition runPgDumpSchema :: "pg_dump_prog \<Rightarrow> string list \<Rightarrow> string list \<Rightarrow> string \<Rightarrow> string \<Rightarrow> error + string" where
  "runPgDumpSchema pg_dump osEnviron pgDumpEnv schema name =
     (let target = schema @ ''.'' @ name
      in case pg_dump [''--schema-only'', ''--no-owner'', ''--no-privileges'', ''-t'', target] (osEnviron @ pgDumpEnv) of
           Inl (ExitError e stderr) \<Rightarrow> Inl (Annotatef e ''pg_dump %s failed: %s'' [target, stderr])
         | Inl (StartError e) \<Rightarrow> Inl (Annotatef e ''pg_dump %s'' [target])
         | Inr out \<Rightarrow> Inr out)"

definition ShowCreateDatabase :: "string \<Rightarrow> SQLDialect \<Rightarrow> error + string" where
  "ShowCreateDatabase database dialect = Inr (CreateDatabaseStmt dialect database)"

text \<open>The program with its environments, as the dumper holds it.\<close>

type_synonym show_schema = "string \<Rightarrow> string \<Rightarrow> error + string"

definition ShowCreateTable :: "show_schema \<Rightarrow> string \<Rightarrow> string \<Rightarrow> error + string" where
  "ShowCreateTable run database table = run database table"

definition ShowCreateView :: "show_schema \<Rightarrow> string \<Rightarrow> string \<Rightarrow> error + string \<times> string" where
  "ShowCreateView run database view = bindR (run database view) (\<lambda>ddl. Inr ('''', ddl))"

definition setupPgDumpEnv :: "Config \<Rightarrow> string list" where
  "setupPgDumpEnv conf =
     [''PGHOST='' @ Host conf, ''PGPORT='' @ fmt_int (Port conf)] @
     (if User conf \<noteq> '''' then [''PGUSER='' @ User conf] else []) @
     (if Password conf \<noteq> '''' then [''PGPASSWORD='' @ Password conf] else []) @
     (if SSLMode conf \<noteq> '''' then [''PGSSLMODE='' @ SSLMode conf] else []) @
     (if CAPath conf \<noteq> '''' then [''PGSSLROOTCERT='' @ CAPath conf] else []) @
     (if CertPath conf \<noteq> '''' then [''PGSSLCERT='' @ CertPath conf] else []) @
     (if KeyPath conf \<noteq> '''' then [''PGSSLKEY='' @ KeyPath conf] else []) @
     (if Databases conf \<noteq> [] then [''PGDATABASE='' @ hd (Databases conf)] else [])"

section \<open>The metadata of a table\<close>

type_synonym column_types = "string \<Rightarrow> error + (string \<times> string) list option"

definition GetColumnTypes :: "column_types \<Rightarrow> string \<Rightarrow> string \<Rightarrow> string \<Rightarrow> error + (string \<times> string) list" where
  "GetColumnTypes coltypes flds database table =
     bindR (coltypes (''SELECT '' @ flds @ '' FROM '' @ pgQuoteQName database table @ '' LIMIT 1''))
       (\<lambda>ts. Inr (case ts of None \<Rightarrow> [] | Some cs \<Rightarrow> cs))"

definition dumpTableMeta ::
  "catalog \<Rightarrow> column_types \<Rightarrow> show_schema \<Rightarrow> Config \<Rightarrow> string \<Rightarrow> TableInfo \<Rightarrow> error + tableMeta" where
  "dumpTableMeta db coltypes run conf dbName table =
     (let tbl = ti_Name table; dialect = conf_Dialect conf
      in bindR (buildSelectField db dbName tbl (CompleteInsert conf) (WantMigrationCasts dialect (FileType conf))
                  (FileType conf = ''csv'') dialect) (\<lambda>(selectField, selectColumns, selectLen).
         bindR (if ti_Type table = TableTypeBase
                then GetColumnTypes coltypes (if selectField = '''' then ''*'' else selectField) dbName tbl
                else Inr []) (\<lambda>colTypes.
         let meta = \<lparr>tm_database = dbName, tm_table = tbl, tm_colTypes = colTypes, tm_selectedField = selectField,
                     tm_selectColumns = selectColumns, tm_selectedLen = selectLen, tm_specCmts = EffectivePreamble conf,
                     tm_showCreateTable = '''', tm_showCreateView = '''', tm_avgRowLength = ti_AvgRowLength table,
                     tm_hasImplicitRowID = False\<rparr>
         in if NoSchemas conf then Inr meta
            else if ti_Type table = TableTypeView
            then bindR (ShowCreateView run dbName tbl) (\<lambda>(createTableSQL, createViewSQL).
                   Inr (meta\<lparr>tm_showCreateTable := createTableSQL, tm_showCreateView := createViewSQL\<rparr>))
            else bindR (ShowCreateTable run dbName tbl) (\<lambda>createTableSQL.
                   Inr (meta\<lparr>tm_showCreateTable := createTableSQL\<rparr>)))))"

section \<open>The tasks of a dump\<close>

definition newTaskTableData :: "tableMeta \<Rightarrow> TableDataIR \<Rightarrow> nat \<Rightarrow> int \<Rightarrow> Task" where
  "newTaskTableData meta ir currentChunk totalChunks = TaskTableData meta ir currentChunk totalChunks"

definition dumpSQL :: "(nat \<Rightarrow> bool) \<Rightarrow> Config \<Rightarrow> sender \<Rightarrow> sender" where
  "dumpSQL cancelled conf st =
     (let meta = \<lparr>tm_database = '''', tm_table = '''', tm_colTypes = [], tm_selectedField = '''', tm_selectColumns = '''',
                  tm_selectedLen = 0, tm_specCmts = [], tm_showCreateTable = '''', tm_showCreateView = '''',
                  tm_avgRowLength = 0, tm_hasImplicitRowID = False\<rparr>
      in fst (sendTaskToChan cancelled (newTaskTableData meta (newTableData (SQL conf) 0 True) 0 1) st))"

definition meta_task :: "string \<Rightarrow> TableInfo \<Rightarrow> tableMeta \<Rightarrow> Task" where
  "meta_task dbName table meta =
     (case ti_Type table of
        TableTypeView \<Rightarrow> TaskViewMeta dbName (ti_Name table) (tm_showCreateTable meta) (tm_showCreateView meta)
      | TableTypeSequence \<Rightarrow> TaskSequenceMeta dbName (ti_Name table) (tm_showCreateTable meta)
      | TableTypeBase \<Rightarrow> TaskTableMeta dbName (ti_Name table) (tm_showCreateTable meta))"

definition dump_table ::
  "(nat \<Rightarrow> bool) \<Rightarrow> error \<Rightarrow> catalog \<Rightarrow> column_types \<Rightarrow> show_schema \<Rightarrow> Config \<Rightarrow> string \<Rightarrow> TableInfo \<Rightarrow> sender
    \<Rightarrow> (sender \<times> error option) option" where
  "dump_table cancelled ctxErr db coltypes run conf dbName table st =
     (case dumpTableMeta db coltypes run conf dbName table of
        Inl e \<Rightarrow> Some (st, Some e)
      | Inr meta \<Rightarrow>
          (case (if NoSchemas conf then (st, False) else sendTaskToChan cancelled (meta_task dbName table meta) st) of
             (st1, True) \<Rightarrow> Some (st1, Some ctxErr)
           | (st1, False) \<Rightarrow>
               if ti_Type table = TableTypeBase then dumpTableData cancelled ctxErr db conf meta st1
               else Some (st1, None)))"

fun dump_tables ::
  "(nat \<Rightarrow> bool) \<Rightarrow> error \<Rightarrow> catalog \<Rightarrow> column_types \<Rightarrow> show_schema \<Rightarrow> Config \<Rightarrow> string \<Rightarrow> TableInfo list \<Rightarrow> sender
    \<Rightarrow> (sender \<times> error option) option" where
  "dump_tables cancelled ctxErr db coltypes run conf dbName [] st = Some (st, None)"
| "dump_tables cancelled ctxErr db coltypes run conf dbName (table # ts) st =
     (case dump_table cancelled ctxErr db coltypes run conf dbName table st of
        None \<Rightarrow> None
      | Some (st1, Some e) \<Rightarrow> Some (st1, Some e)
      | Some (st1, None) \<Rightarrow> dump_tables cancelled ctxErr db coltypes run conf dbName ts st1)"

fun dump_schemas ::
  "(nat \<Rightarrow> bool) \<Rightarrow> error \<Rightarrow> catalog \<Rightarrow> column_types \<Rightarrow> show_schema \<Rightarrow> Config \<Rightarrow> DatabaseTables \<Rightarrow> sender
    \<Rightarrow> (sender \<times> error option) option" where
  "dump_schemas cancelled ctxErr db coltypes run conf [] st = Some (st, None)"
| "dump_schemas cancelled ctxErr db coltypes run conf ((dbName, tables) # ds) st =
     (case (if NoSchemas conf then Inr (st, False)
            else bindR (ShowCreateDatabase dbName (conf_Dialect conf)) (\<lambda>createDatabaseSQL.
                   Inr (sendTaskToChan cancelled (TaskDatabaseMeta dbName createDatabaseSQL) st))) of
        Inl e \<Rightarrow> Some (st, Some e)
      | Inr (st1, True) \<Rightarrow> Some (st1, Some ctxErr)
      | Inr (st1, False) \<Rightarrow>
          (case dump_tables cancelled ctxErr db coltypes run conf dbName tables st1 of
             None \<Rightarrow> None
           | Some (st2, Some e) \<Rightarrow> Some (st2, Some e)
           | Some (st2, None) \<Rightarrow> dump_schemas cancelled ctxErr db coltypes run conf ds st2))"

definition dumpDatabases ::
  "(nat \<Rightarrow> bool) \<Rightarrow> error \<Rightarrow> catalog \<Rightarrow> column_types \<Rightarrow> show_schema \<Rightarrow> Config \<Rightarrow> sender \<Rightarrow> (sender \<times> error option) option" where
  "dumpDatabases cancelled ctxErr db coltypes run conf st =
     dump_schemas cancelled ctxErr db coltypes run conf (Tables conf) st"

section \<open>The order of the tasks\<close>

text \<open>
  What the stream should hold, in terms of the tasks' fields: the definition of a table, view or sequence as
  \<open>run\<close> returns it, and data tasks for a base table.
\<close>

definition def_task :: "show_schema \<Rightarrow> string \<Rightarrow> TableInfo \<Rightarrow> Task \<Rightarrow> bool" where
  "def_task run dbName table t \<longleftrightarrow>
     (\<exists>ddl. run dbName (ti_Name table) = Inr ddl \<and>
        (ti_Type table = TableTypeBase \<and> t = TaskTableMeta dbName (ti_Name table) ddl \<or>
         ti_Type table = TableTypeView \<and> t = TaskViewMeta dbName (ti_Name table) '''' ddl \<or>
         ti_Type table = TableTypeSequence \<and> t = TaskSequenceMeta dbName (ti_Name table) ddl))"

definition table_tasks ::
  "bool \<Rightarrow> catalog \<Rightarrow> show_schema \<Rightarrow> Config \<Rightarrow> string \<Rightarrow> TableInfo \<Rightarrow> Task list \<Rightarrow> bool" where
  "table_tasks stopped db run conf dbName table ts \<longleftrightarrow>
     (\<exists>defs meta dat. ts = defs @ dat \<and>
        (if NoSchemas conf then defs = [] else \<exists>t. defs = [t] \<and> def_task run dbName table t) \<and>
        tm_database meta = dbName \<and> tm_table meta = ti_Name table \<and>
        buildSelectField db dbName (ti_Name table) (CompleteInsert conf) (WantMigrationCasts (conf_Dialect conf) (FileType conf))
          (FileType conf = ''csv'') (conf_Dialect conf) =
          Inr (tm_selectedField meta, tm_selectColumns meta, tm_selectedLen meta) \<and>
        list_all (data_task meta) dat \<and> numbering stopped dat \<and>
        (dat = [] \<longleftrightarrow> ti_Type table \<noteq> TableTypeBase \<or> NoData conf))"

definition schema_tasks ::
  "bool \<Rightarrow> catalog \<Rightarrow> show_schema \<Rightarrow> Config \<Rightarrow> string \<times> TableInfo list \<Rightarrow> Task list \<Rightarrow> bool" where
  "schema_tasks stopped db run conf entry ts \<longleftrightarrow>
     (case entry of (dbName, tables) \<Rightarrow>
        \<exists>segs. ts = (if NoSchemas conf then [] else [TaskDatabaseMeta dbName (CreateDatabaseStmt (conf_Dialect conf) dbName)]) @ concat segs \<and>
          list_all2 (table_tasks stopped db run conf dbName) tables segs)"

lemma dumpTableMeta_fields:
  assumes "dumpTableMeta db coltypes run conf dbName table = Inr meta"
  shows "tm_database meta = dbName \<and> tm_table meta = ti_Name table \<and>
    buildSelectField db dbName (ti_Name table) (CompleteInsert conf) (WantMigrationCasts (conf_Dialect conf) (FileType conf))
      (FileType conf = ''csv'') (conf_Dialect conf) = Inr (tm_selectedField meta, tm_selectColumns meta, tm_selectedLen meta) \<and>
    (\<not> NoSchemas conf \<longrightarrow> def_task run dbName table (meta_task dbName table meta))"
  using assms
  by (auto simp: dumpTableMeta_def Let_def bindR_def def_task_def meta_task_def ShowCreateTable_def ShowCreateView_def
      split: sum.splits if_splits prod.splits TableType.splits)

lemma send_cases:
  "sendTaskToChan cancelled t st = (st', b) \<Longrightarrow> \<not> b \<Longrightarrow> sent st' = sent st @ [t]"
  by (auto simp: sendTaskToChan_def split: if_splits)

lemma dump_table_tasks:
  assumes "dump_table cancelled ctxErr db coltypes run conf dbName table st = Some (st', None)" "bounds_ordered db conf"
  shows "\<exists>ts. sent st' = sent st @ ts \<and> table_tasks (\<exists>a. cancelled a) db run conf dbName table ts"
proof -
  from assms(1) obtain meta st1 where m: "dumpTableMeta db coltypes run conf dbName table = Inr meta"
    and s: "(if NoSchemas conf then (st, False) else sendTaskToChan cancelled (meta_task dbName table meta) st) = (st1, False)"
    and d: "(if ti_Type table = TableTypeBase then dumpTableData cancelled ctxErr db conf meta st1 else Some (st1, None)) = Some (st', None)"
    by (auto simp: dump_table_def split: sum.splits prod.splits bool.splits)
  let ?m = "if NoSchemas conf then [] else [meta_task dbName table meta]"
  have st1: "sent st1 = sent st @ ?m" using s send_cases [of cancelled] by (auto split: if_splits)
  obtain dat where "sent st' = sent st1 @ dat" "list_all (data_task meta) dat" "numbering (\<exists>a. cancelled a) dat"
    "dat = [] \<longleftrightarrow> ti_Type table \<noteq> TableTypeBase \<or> NoData conf"
  proof (cases "ti_Type table = TableTypeBase")
    case True
    with d dumpTableData_dumps [of cancelled ctxErr db conf meta st1 st' None] assms(2) show ?thesis
      by (auto simp: dumps_def intro: that)
  next
    case False
    then show ?thesis using d that [of "[]"] by (simp add: numbering_def)
  qed
  with st1 dumpTableMeta_fields [OF m] show ?thesis
    unfolding table_tasks_def by (intro exI [of _ "?m @ dat"] conjI exI [of _ ?m] exI [of _ meta] exI [of _ dat]) auto
qed

lemma dump_tables_tasks:
  "dump_tables cancelled ctxErr db coltypes run conf dbName tables st = Some (st', None) \<Longrightarrow> bounds_ordered db conf \<Longrightarrow>
    \<exists>segs. sent st' = sent st @ concat segs \<and> list_all2 (table_tasks (\<exists>a. cancelled a) db run conf dbName) tables segs"
proof (induction tables arbitrary: st)
  case (Cons table tables)
  from Cons(2) obtain st1 where t: "dump_table cancelled ctxErr db coltypes run conf dbName table st = Some (st1, None)"
    and ts: "dump_tables cancelled ctxErr db coltypes run conf dbName tables st1 = Some (st', None)"
    by (auto split: option.splits prod.splits)
  from dump_table_tasks [OF t Cons(3)] Cons(1) [OF ts Cons(3)] obtain seg segs where
    "sent st1 = sent st @ seg" "table_tasks (\<exists>a. cancelled a) db run conf dbName table seg"
    "sent st' = sent st1 @ concat segs" "list_all2 (table_tasks (\<exists>a. cancelled a) db run conf dbName) tables segs" by blast
  then show ?case by (intro exI [of _ "seg # segs"]) simp
qed simp

lemma dump_schemas_tasks:
  "dump_schemas cancelled ctxErr db coltypes run conf ds st = Some (st', None) \<Longrightarrow> bounds_ordered db conf \<Longrightarrow>
    \<exists>segs. sent st' = sent st @ concat segs \<and> list_all2 (schema_tasks (\<exists>a. cancelled a) db run conf) ds segs"
proof (induction ds arbitrary: st)
  case (Cons entry ds)
  obtain dbName tables where entry: "entry = (dbName, tables)" by fastforce
  let ?t = "TaskDatabaseMeta dbName (CreateDatabaseStmt (conf_Dialect conf) dbName)"
  from Cons(2) entry obtain st1 st2 where
    s: "(if NoSchemas conf then (st, False) else sendTaskToChan cancelled ?t st) = (st1, False)"
    and t: "dump_tables cancelled ctxErr db coltypes run conf dbName tables st1 = Some (st2, None)"
    and r: "dump_schemas cancelled ctxErr db coltypes run conf ds st2 = Some (st', None)"
    by (auto simp: ShowCreateDatabase_def split: if_splits option.splits prod.splits bool.splits)
  have st1: "sent st1 = sent st @ (if NoSchemas conf then [] else [?t])" using s send_cases [of cancelled] by (auto split: if_splits)
  from dump_tables_tasks [OF t Cons(3)] obtain segs where
    seg: "sent st2 = sent st1 @ concat segs" "list_all2 (table_tasks (\<exists>a. cancelled a) db run conf dbName) tables segs" by blast
  from Cons(1) [OF r Cons(3)] obtain rest where rest: "sent st' = sent st2 @ concat rest" "list_all2 (schema_tasks (\<exists>a. cancelled a) db run conf) ds rest" by blast
  have "schema_tasks (\<exists>a. cancelled a) db run conf entry ((if NoSchemas conf then [] else [?t]) @ concat segs)"
    using seg(2) by (auto simp: schema_tasks_def entry)
  with st1 seg(1) rest show ?case
    by (intro exI [of _ "((if NoSchemas conf then [] else [?t]) @ concat segs) # rest"]) simp
qed simp

text \<open>C7: The tasks of a dump cover its tables once and in order. If the producer ends without an error, the task
  stream consists of one segment per schema of the table list, in its order: the statement that creates the
  schema, and then for each of its tables, in order, one task that carries the definition \<open>pg_dump\<close> gives for
  it, as a table, view or sequence under its own name, followed, for a base table, by at least one data task. Data
  tasks read this table with its projection and are numbered from 0 on (with the exception for a cancelled
  context that the numbering of chunks has). Without schemas the definitions, without data the data tasks are missing. The
  bounds of the key that the database reports for a split are assumed to be in order.\<close>

theorem dump_tasks_in_order:
  assumes "dumpDatabases cancelled ctxErr db coltypes run conf no_tasks = Some (st, None)" "bounds_ordered db conf"
  shows "\<exists>segs. sent st = concat segs \<and> list_all2 (schema_tasks (\<exists>a. cancelled a) db run conf) (Tables conf) segs"
  using dump_schemas_tasks [OF assms(1) [unfolded dumpDatabases_def] assms(2)] by (simp add: no_tasks_def)

definition app_tables :: Config where
  "app_tables = DefaultConfig\<lparr>Tables := [(''app'', [\<lparr>ti_Name = ''t'', ti_AvgRowLength = 0, ti_Type = TableTypeBase\<rparr>,
     \<lparr>ti_Name = ''v'', ti_AvgRowLength = 0, ti_Type = TableTypeView\<rparr>])], SortByPk := False\<rparr>"

definition view_ddl :: show_schema where
  "view_ddl s t = Inr (''CREATE '' @ t)"

definition view_catalog :: catalog where
  "view_catalog =
     \<lparr>db_primaryKey = (\<lambda>_ _. Inr []), db_numericIndex = (\<lambda>_ _. Inr []), db_columns = (\<lambda>_ _. Inr [[''a'', ''NEVER'', ''integer'', ''int4'']]),
      db_estimate = (\<lambda>_ _. Inr []), db_minmax = (\<lambda>_. Inr []), db_pages = (\<lambda>_. Inr []), db_partitions = (\<lambda>_ _. Inr [])\<rparr>"

lemma view_catalog_bounds: "bounds_ordered view_catalog conf"
  by (simp add: bounds_ordered_def selectMinAndMaxIntValue_def view_catalog_def Let_def)

theorem dump_tasks_in_order_witness:
  "\<exists>st segs. dumpDatabases never (External '''') view_catalog (\<lambda>_. Inr None) view_ddl app_tables no_tasks = Some (st, None) \<and>
     map Brief (sent st) = map Brief [TaskDatabaseMeta ''app'' '''', TaskTableMeta ''app'' ''t'' '''', TaskTableData
       (sample_meta\<lparr>tm_database := ''app''\<rparr>) (tableData '''' 1 False) 0 1, TaskViewMeta ''app'' ''v'' '''' ''''] \<and>
     sent st = concat segs \<and> list_all2 (schema_tasks False view_catalog view_ddl app_tables) (Tables app_tables) segs"
proof -
  have "map_option (\<lambda>r. (map Brief (sent (fst r)), snd r)) (dumpDatabases never (External '''') view_catalog (\<lambda>_. Inr None) view_ddl app_tables no_tasks) =
      Some (map Brief [TaskDatabaseMeta ''app'' '''', TaskTableMeta ''app'' ''t'' '''', TaskTableData
       (sample_meta\<lparr>tm_database := ''app''\<rparr>) (tableData '''' 1 False) 0 1, TaskViewMeta ''app'' ''v'' '''' ''''], None)"
    by code_simp
  then obtain st where st: "dumpDatabases never (External '''') view_catalog (\<lambda>_. Inr None) view_ddl app_tables no_tasks = Some (st, None)"
    "map Brief (sent st) = map Brief [TaskDatabaseMeta ''app'' '''', TaskTableMeta ''app'' ''t'' '''', TaskTableData
       (sample_meta\<lparr>tm_database := ''app''\<rparr>) (tableData '''' 1 False) 0 1, TaskViewMeta ''app'' ''v'' '''' '''']"
    by (auto simp del: Brief.simps)
  with dump_tasks_in_order [OF this(1) view_catalog_bounds] show ?thesis by (auto simp: never_def simp del: Brief.simps)
qed

end
