(* ===== verification/Consistency.thy ===== *)
theory Consistency
  imports Retry
begin

text \<open>
  Consistent snapshots (\<open>export/consistency.go\<close>), replication slots (\<open>export/cdc.go\<close>) and the connections
  that adopt the snapshot (\<open>createConnWithConsistency\<close> of \<open>export/sql.go\<close>).

  The database drivers are a parameter, the record \<open>db_env\<close>: the answer to each call is a function of
  the history of calls so far, so that the theorems hold for every behaviour of the server. The state keeps
  this history, the configuration, which \<open>Setup\<close> changes, and the package variable \<open>pgSnapshotToken\<close>.
  A connection is named by its position in the history.
\<close>

section \<open>The database\<close>

datatype db_event =
    OpenConn
  | Exec nat string
  | QueryRow nat string
  | Ping nat
  | CloseConn nat
  | OpenRepl string "(string \<times> string) list"
  | ReplExec nat string
  | CloseRepl nat

record db_env =
  env_Conn :: "db_event list \<Rightarrow> error option"
  env_Exec :: "db_event list \<Rightarrow> error option"
  env_QueryRow :: "db_event list \<Rightarrow> error + string"
  env_Ping :: "db_event list \<Rightarrow> error option"
  env_ParseConfig :: "string \<Rightarrow> error option"
  env_Connect :: "db_event list \<Rightarrow> error option"
  env_ReplExec :: "db_event list \<Rightarrow> error + string list list list"

record dump_state =
  ds_trace :: "db_event list"
  ds_conf :: Config
  pgSnapshotToken :: string

definition call :: "db_event \<Rightarrow> dump_state \<Rightarrow> dump_state" where
  "call ev w = w\<lparr>ds_trace := ds_trace w @ [ev]\<rparr>"

definition db_Conn :: "db_env \<Rightarrow> dump_state \<Rightarrow> dump_state \<times> (error + nat)" where
  "db_Conn env w =
     (let w' = call OpenConn w
      in (w', case env_Conn env (ds_trace w') of Some e \<Rightarrow> Inl e | None \<Rightarrow> Inr (length (ds_trace w))))"

definition ExecContext :: "db_env \<Rightarrow> nat \<Rightarrow> string \<Rightarrow> dump_state \<Rightarrow> dump_state \<times> error option" where
  "ExecContext env c q w = (let w' = call (Exec c q) w in (w', env_Exec env (ds_trace w')))"

section \<open>Replication slots\<close>

definition openReplicationConn :: "db_env \<Rightarrow> string \<Rightarrow> dump_state \<Rightarrow> dump_state \<times> (error + nat)" where
  "openReplicationConn env dsn w =
     (case env_ParseConfig env dsn of
        Some e \<Rightarrow> (w, Inl (Annotatef e ''parse replication DSN'' []))
      | None \<Rightarrow>
          let w' = call (OpenRepl dsn [(''replication'', ''database'')]) w
          in (w', case env_Connect env (ds_trace w') of
                    Some e \<Rightarrow> Inl (Annotatef e ''open replication connection'' [])
                  | None \<Rightarrow> Inr (length (ds_trace w))))"

definition createSlotStmt :: "string \<Rightarrow> string \<Rightarrow> string" where
  "createSlotStmt name plugin = ''CREATE_REPLICATION_SLOT '' @ name @ '' LOGICAL '' @ plugin @ '' EXPORT_SNAPSHOT''"

definition dropSlotStmt :: "string \<Rightarrow> string" where
  "dropSlotStmt name = ''DROP_REPLICATION_SLOT '' @ name"

definition createCDCSlot ::
  "db_env \<Rightarrow> string \<Rightarrow> string \<Rightarrow> string \<Rightarrow> dump_state \<Rightarrow> dump_state \<times> (error + nat \<times> cdcSlotInfo)" where
  "createCDCSlot env dsn name plugin w =
     (case ValidateCDCName ''--cdc-slot'' name of
        Some e \<Rightarrow> (w, Inl e)
      | None \<Rightarrow>
     (case ValidateCDCName ''--cdc-plugin'' plugin of
        Some e \<Rightarrow> (w, Inl e)
      | None \<Rightarrow>
     (case openReplicationConn env dsn w of
        (w1, Inl e) \<Rightarrow> (w1, Inl e)
      | (w1, Inr conn) \<Rightarrow>
          let w2 = call (ReplExec conn (createSlotStmt name plugin)) w1; w3 = call (CloseRepl conn) w2
          in case env_ReplExec env (ds_trace w2) of
               Inl e \<Rightarrow> (w3, Inl (Annotatef e ''CREATE_REPLICATION_SLOT %s'' [name]))
             | Inr [] \<Rightarrow> (w3, Inl (Errorf ''CREATE_REPLICATION_SLOT returned no rows'' []))
             | Inr ([] # results) \<Rightarrow> (w3, Inl (Errorf ''CREATE_REPLICATION_SLOT returned no rows'' []))
             | Inr ((row # rows) # results) \<Rightarrow>
                 if length row < 4
                 then (w3, Inl (Errorf ''CREATE_REPLICATION_SLOT returned %d columns, expected 4'' [fmt_nat (length row)]))
                 else (w2, Inr (conn, \<lparr>SlotName = row ! 0, ConsistentPoint = row ! 1, SnapshotName = row ! 2,
                                       OutputPlugin = row ! 3\<rparr>)))))"

definition dropCDCSlot :: "db_env \<Rightarrow> string \<Rightarrow> string \<Rightarrow> dump_state \<Rightarrow> dump_state \<times> error option" where
  "dropCDCSlot env dsn name w =
     (case ValidateCDCName ''--cdc-slot'' name of
        Some e \<Rightarrow> (w, Some e)
      | None \<Rightarrow>
     (case openReplicationConn env dsn w of
        (w1, Inl e) \<Rightarrow> (w1, Some e)
      | (w1, Inr conn) \<Rightarrow>
          let w2 = call (ReplExec conn (dropSlotStmt name)) w1; w3 = call (CloseRepl conn) w2
          in case env_ReplExec env (ds_trace w2) of
               Inr _ \<Rightarrow> (w3, None)
             | Inl e \<Rightarrow>
                 if contains_str ''does not exist'' (error_text e) then (w3, None)
                 else (w3, Some (Annotatef e ''DROP_REPLICATION_SLOT %s'' [name]))))"

section \<open>Controllers\<close>

record snapshot_ctrl =
  cs_conn :: "nat option"
  cs_snapshotName :: string
  cs_cdcConn :: "nat option"
  cs_cdcSlot :: "cdcSlotInfo option"

datatype ConsistencyController = ConsistencyNone | ConsistencySnapshot snapshot_ctrl

definition NewConsistencyController ::
  "db_env \<Rightarrow> dump_state \<Rightarrow> dump_state \<times> (error + ConsistencyController)" where
  "NewConsistencyController env w =
     (case db_Conn env w of
        (w1, Inl e) \<Rightarrow> (w1, Inl e)
      | (w1, Inr conn) \<Rightarrow>
          let c = Consistency (ds_conf w)
          in if c = ConsistencyTypeAuto \<or> c = ConsistencyTypeSnapshot
             then (w1, Inr (ConsistencySnapshot \<lparr>cs_conn = Some conn, cs_snapshotName = '''', cs_cdcConn = None, cs_cdcSlot = None\<rparr>))
             else if c = ConsistencyTypeNone then (call (CloseConn conn) w1, Inr ConsistencyNone)
             else (call (CloseConn conn) w1, Inl (Errorf ''invalid consistency option %s'' [c])))"

definition beginStmt :: string where
  "beginStmt = ''BEGIN ISOLATION LEVEL REPEATABLE READ READ ONLY''"

definition setSnapshotStmt :: "string \<Rightarrow> string" where
  "setSnapshotStmt token = ''SET TRANSACTION SNAPSHOT '' @ [SQ] @ escapeStringLiteral token @ [SQ]"

definition SetPgSnapshotToken :: "string \<Rightarrow> dump_state \<Rightarrow> dump_state" where
  "SetPgSnapshotToken token w = w\<lparr>pgSnapshotToken := token\<rparr>"

text \<open>The first part of \<open>Setup\<close>: the slot, whose snapshot becomes the configured one.\<close>

definition setup_slot ::
  "db_env \<Rightarrow> snapshot_ctrl \<Rightarrow> dump_state \<Rightarrow> dump_state \<times> snapshot_ctrl \<times> error option" where
  "setup_slot env c w =
     (let conf = ds_conf w
      in if CDCSlot conf \<noteq> '''' \<and> Snapshot conf = ''''
         then (case createCDCSlot env (GetDSN conf '''') (CDCSlot conf) (CDCPlugin conf) w of
                 (w1, Inl e) \<Rightarrow> (w1, c, Some e)
               | (w1, Inr (conn, slot)) \<Rightarrow>
                   (w1\<lparr>ds_conf := conf\<lparr>conf_cdcSlotInfo := Some slot, Snapshot := SnapshotName slot\<rparr>\<rparr>,
                    c\<lparr>cs_cdcConn := Some conn, cs_cdcSlot := Some slot\<rparr>, None))
         else (w, c, None))"

definition snapshot_Setup ::
  "db_env \<Rightarrow> snapshot_ctrl \<Rightarrow> dump_state \<Rightarrow> dump_state \<times> snapshot_ctrl \<times> error option" where
  "snapshot_Setup env c0 w0 =
     (case setup_slot env c0 w0 of
        (w, c, Some e) \<Rightarrow> (w, c, Some e)
      | (w, c, None) \<Rightarrow>
     (case cs_conn c of
        None \<Rightarrow> (w, c, Some (Panic ''nil pointer dereference''))
      | Some conn \<Rightarrow>
     (case ExecContext env conn beginStmt w of
        (w1, Some e) \<Rightarrow> (w1, c, Some (Annotatef e ''begin snapshot transaction'' []))
      | (w1, None) \<Rightarrow>
          let snap = Snapshot (ds_conf w1)
          in if snap \<noteq> ''''
             then (case ExecContext env conn (setSnapshotStmt snap) w1 of
                     (w2, Some e) \<Rightarrow> (w2, c, Some (Annotatef e ''set transaction snapshot'' []))
                   | (w2, None) \<Rightarrow> (SetPgSnapshotToken snap w2, c\<lparr>cs_snapshotName := snap\<rparr>, None))
             else let w2 = call (QueryRow conn ''SELECT pg_export_snapshot()'') w1
                  in case env_QueryRow env (ds_trace w2) of
                       Inl e \<Rightarrow> (w2, c, Some (Annotatef e ''pg_export_snapshot'' []))
                     | Inr token \<Rightarrow>
                         (SetPgSnapshotToken token (w2\<lparr>ds_conf := (ds_conf w2)\<lparr>Snapshot := token\<rparr>\<rparr>),
                          c\<lparr>cs_snapshotName := token\<rparr>, None))))"

definition snapshot_TearDown ::
  "db_env \<Rightarrow> snapshot_ctrl \<Rightarrow> dump_state \<Rightarrow> dump_state \<times> snapshot_ctrl \<times> error option" where
  "snapshot_TearDown env c w =
     (let w1 = (case cs_cdcConn c of None \<Rightarrow> w | Some r \<Rightarrow> call (CloseRepl r) w);
          c1 = c\<lparr>cs_cdcConn := None\<rparr>
      in case cs_conn c1 of
           None \<Rightarrow> (w1, c1, None)
         | Some conn \<Rightarrow>
             (case ExecContext env conn ''COMMIT'' w1 of
                (w2, err) \<Rightarrow> (call (CloseConn conn) w2, c1\<lparr>cs_conn := None\<rparr>, err)))"

definition snapshot_OnFailure ::
  "db_env \<Rightarrow> snapshot_ctrl \<Rightarrow> dump_state \<Rightarrow> dump_state \<times> snapshot_ctrl \<times> error option" where
  "snapshot_OnFailure env c w =
     (case cs_cdcSlot c of
        None \<Rightarrow> (w, c, None)
      | Some slot \<Rightarrow>
          if \<not> CDCCleanupOnFailure (ds_conf w) then (w, c, None)
          else let w1 = (case cs_cdcConn c of None \<Rightarrow> w | Some r \<Rightarrow> call (CloseRepl r) w)
               in case dropCDCSlot env (GetDSN (ds_conf w) '''') (SlotName slot) w1 of
                    (w2, err) \<Rightarrow> (w2, c\<lparr>cs_cdcConn := None\<rparr>, err))"

definition snapshot_Ping :: "db_env \<Rightarrow> snapshot_ctrl \<Rightarrow> dump_state \<Rightarrow> dump_state \<times> error option" where
  "snapshot_Ping env c w =
     (case cs_conn c of
        None \<Rightarrow> (w, Some (Errorf ''snapshot connection has already been closed'' []))
      | Some conn \<Rightarrow> let w' = call (Ping conn) w in (w', env_Ping env (ds_trace w')))"

text \<open>The methods of the interface.\<close>

fun lift_ctrl ::
  "(snapshot_ctrl \<Rightarrow> dump_state \<Rightarrow> dump_state \<times> snapshot_ctrl \<times> error option) \<Rightarrow> ConsistencyController \<Rightarrow> dump_state
    \<Rightarrow> dump_state \<times> ConsistencyController \<times> error option" where
  "lift_ctrl f ConsistencyNone w = (w, ConsistencyNone, None)"
| "lift_ctrl f (ConsistencySnapshot c) w = (case f c w of (w', c', err) \<Rightarrow> (w', ConsistencySnapshot c', err))"

definition "ctrl_Setup env = lift_ctrl (snapshot_Setup env)"
definition "ctrl_TearDown env = lift_ctrl (snapshot_TearDown env)"
definition "ctrl_OnFailure env = lift_ctrl (snapshot_OnFailure env)"

fun ctrl_Ping :: "db_env \<Rightarrow> ConsistencyController \<Rightarrow> dump_state \<Rightarrow> dump_state \<times> error option" where
  "ctrl_Ping env ConsistencyNone w = (w, None)"
| "ctrl_Ping env (ConsistencySnapshot c) w = snapshot_Ping env c w"

section \<open>Worker connections\<close>

definition needRepeatableRead :: "string \<Rightarrow> bool" where
  "needRepeatableRead consistency \<longleftrightarrow> consistency = ConsistencyTypeSnapshot"

definition createConnWithConsistency :: "db_env \<Rightarrow> bool \<Rightarrow> dump_state \<Rightarrow> dump_state \<times> (error + nat)" where
  "createConnWithConsistency env repeatableRead w =
     (case db_Conn env w of
        (w1, Inl e) \<Rightarrow> (w1, Inl e)
      | (w1, Inr conn) \<Rightarrow>
          if \<not> repeatableRead then (w1, Inr conn)
          else (case ExecContext env conn beginStmt w1 of
                  (w2, Some e) \<Rightarrow> (w2, Inl (Annotatef e ''sql: %s'' [beginStmt]))
                | (w2, None) \<Rightarrow>
                    if pgSnapshotToken w2 \<noteq> ''''
                    then (case ExecContext env conn (setSnapshotStmt (pgSnapshotToken w2)) w2 of
                            (w3, Some e) \<Rightarrow> (w3, Inl (Annotatef e ''sql: %s'' [setSnapshotStmt (pgSnapshotToken w2)]))
                          | (w3, None) \<Rightarrow> (w3, Inr conn))
                    else (w2, Inr conn)))"

text \<open>The loop of \<open>startWriters\<close> (\<open>export/dump.go\<close>) over the connections of the writers.\<close>

fun open_workers :: "db_env \<Rightarrow> nat \<Rightarrow> dump_state \<Rightarrow> dump_state \<times> (error + nat list)" where
  "open_workers env 0 w = (w, Inr [])"
| "open_workers env (Suc n) w =
     (case createConnWithConsistency env (needRepeatableRead (Consistency (ds_conf w))) w of
        (w1, Inl e) \<Rightarrow> (w1, Inl e)
      | (w1, Inr c) \<Rightarrow>
          (case open_workers env n w1 of
             (w2, Inl e) \<Rightarrow> (w2, Inl e)
           | (w2, Inr cs) \<Rightarrow> (w2, Inr (c # cs))))"

section \<open>One snapshot for all connections\<close>

text \<open>The calls made on a connection.\<close>

fun ev_conn :: "db_event \<Rightarrow> nat option" where
  "ev_conn (Exec c q) = Some c"
| "ev_conn (QueryRow c q) = Some c"
| "ev_conn (Ping c) = Some c"
| "ev_conn (CloseConn c) = Some c"
| "ev_conn _ = None"

definition conn_calls :: "nat \<Rightarrow> db_event list \<Rightarrow> db_event list" where
  "conn_calls c t = filter (\<lambda>ev. ev_conn ev = Some c) t"

lemma conn_calls_append [simp]: "conn_calls c (s @ t) = conn_calls c s @ conn_calls c t"
  by (simp add: conn_calls_def)

lemma conn_calls_Cons [simp]: "conn_calls c (e # t) = (if ev_conn e = Some c then e # conn_calls c t else conn_calls c t)"
  by (simp add: conn_calls_def)

lemma conn_calls_Nil [simp]: "conn_calls c [] = []"
  by (simp add: conn_calls_def)

text \<open>Calls are made on connections opened before.\<close>

definition opened :: "db_event list \<Rightarrow> bool" where
  "opened t \<longleftrightarrow> (\<forall>ev c. ev \<in> set t \<longrightarrow> ev_conn ev = Some c \<longrightarrow> c < length t)"

lemma opened_Nil [simp]: "opened []"
  by (simp add: opened_def)

lemma opened_append: "opened t \<Longrightarrow> (\<And>ev c. ev \<in> set s \<Longrightarrow> ev_conn ev = Some c \<Longrightarrow> c < length t + length s) \<Longrightarrow> opened (t @ s)"
  unfolding opened_def by fastforce

lemma fresh_calls: "opened t \<Longrightarrow> length t \<le> c \<Longrightarrow> conn_calls c t = []"
  unfolding conn_calls_def filter_empty_conv opened_def by (metis linorder_not_less)

lemmas world_defs = call_def db_Conn_def ExecContext_def SetPgSnapshotToken_def Let_def

lemma createConn_spec:
  assumes "createConnWithConsistency env True w = (w', Inr c)" "pgSnapshotToken w \<noteq> ''''"
  shows "c = length (ds_trace w) \<and>
    w' = w\<lparr>ds_trace := ds_trace w @ [OpenConn, Exec c beginStmt, Exec c (setSnapshotStmt (pgSnapshotToken w))]\<rparr>"
  using assms by (auto simp: createConnWithConsistency_def world_defs split: option.splits if_splits)

lemma open_workers_spec:
  assumes "open_workers env n w = (w', Inr cs)" "pgSnapshotToken w \<noteq> ''''" "needRepeatableRead (Consistency (ds_conf w))"
    and "opened (ds_trace w)"
  shows "opened (ds_trace w') \<and> length cs = n \<and> distinct cs \<and> (\<forall>c \<in> set cs. length (ds_trace w) \<le> c) \<and>
    (\<forall>c. c < length (ds_trace w) \<longrightarrow> conn_calls c (ds_trace w') = conn_calls c (ds_trace w)) \<and>
    (\<forall>c \<in> set cs. conn_calls c (ds_trace w') = [Exec c beginStmt, Exec c (setSnapshotStmt (pgSnapshotToken w))])"
  using assms
proof (induction n arbitrary: w cs)
  case (Suc n)
  from Suc(2,4) obtain w1 c cs' where one: "createConnWithConsistency env True w = (w1, Inr c)"
    and rest: "open_workers env n w1 = (w', Inr cs')" and cs: "cs = c # cs'"
    by (auto split: prod.splits sum.splits)
  let ?calls = "[Exec c beginStmt, Exec c (setSnapshotStmt (pgSnapshotToken w))]"
  from createConn_spec [OF one Suc(3)] have c: "c = length (ds_trace w)"
    and w1: "w1 = w\<lparr>ds_trace := ds_trace w @ [OpenConn] @ ?calls\<rparr>" by simp_all
  have op: "opened (ds_trace w1)" unfolding w1 by (simp, rule opened_append [OF Suc(5)]) (auto simp: c)
  have IH: "opened (ds_trace w') \<and> length cs' = n \<and> distinct cs' \<and> (\<forall>c \<in> set cs'. length (ds_trace w1) \<le> c) \<and>
    (\<forall>c. c < length (ds_trace w1) \<longrightarrow> conn_calls c (ds_trace w') = conn_calls c (ds_trace w1)) \<and>
    (\<forall>c \<in> set cs'. conn_calls c (ds_trace w') = [Exec c beginStmt, Exec c (setSnapshotStmt (pgSnapshotToken w1))])"
    by (rule Suc(1) [OF rest]) (use Suc(3,4) op w1 in simp_all)
  have "length (ds_trace w1) = length (ds_trace w) + 3" "pgSnapshotToken w1 = pgSnapshotToken w" by (simp_all add: w1)
  moreover have "conn_calls c (ds_trace w1) = ?calls" using fresh_calls [OF Suc(5), of c] c by (simp add: w1)
  moreover have "conn_calls d (ds_trace w1) = conn_calls d (ds_trace w)" if "d < length (ds_trace w)" for d
    using that c by (simp add: w1)
  ultimately show ?case using IH c cs by (auto simp: le_eq_less_or_eq)
qed simp

text \<open>What \<open>Setup\<close> leaves behind when it succeeds.\<close>

lemma createCDCSlot_trace:
  "createCDCSlot env dsn name plugin w = (w', r) \<Longrightarrow>
    (\<exists>evs. ds_trace w' = ds_trace w @ evs \<and> (\<forall>ev \<in> set evs. ev_conn ev = None)) \<and>
    ds_conf w' = ds_conf w \<and> pgSnapshotToken w' = pgSnapshotToken w"
  by (auto simp: createCDCSlot_def openReplicationConn_def call_def Let_def split: option.splits prod.splits sum.splits if_splits list.splits)

lemma setup_slot_trace:
  assumes "setup_slot env c w = (w', c', r)"
  shows "(\<exists>evs. ds_trace w' = ds_trace w @ evs \<and> (\<forall>ev \<in> set evs. ev_conn ev = None)) \<and>
    cs_conn c' = cs_conn c \<and> Consistency (ds_conf w') = Consistency (ds_conf w)"
proof (cases "CDCSlot (ds_conf w) \<noteq> '''' \<and> Snapshot (ds_conf w) = ''''")
  case True
  obtain w1 r1 where s: "createCDCSlot env (GetDSN (ds_conf w) '''') (CDCSlot (ds_conf w)) (CDCPlugin (ds_conf w)) w = (w1, r1)"
    by fastforce
  from createCDCSlot_trace [OF s] assms True s show ?thesis
    by (cases r1) (auto simp: setup_slot_def Let_def split: prod.splits)
qed (use assms in \<open>auto simp: setup_slot_def\<close>)

lemma Setup_spec:
  assumes "snapshot_Setup env c0 w0 = (w, c, None)" "cs_conn c0 = Some h"
  shows "\<exists>evs stmt. ds_trace w = ds_trace w0 @ evs @ [Exec h beginStmt, stmt] \<and> (\<forall>ev \<in> set evs. ev_conn ev = None) \<and>
    stmt \<in> {Exec h (setSnapshotStmt (cs_snapshotName c)), QueryRow h ''SELECT pg_export_snapshot()''} \<and>
    cs_conn c = Some h \<and> pgSnapshotToken w = cs_snapshotName c \<and> Snapshot (ds_conf w) = cs_snapshotName c \<and>
    Consistency (ds_conf w) = Consistency (ds_conf w0)"
proof -
  obtain w1 c1 r where s: "setup_slot env c0 w0 = (w1, c1, r)" by (metis surj_pair)
  note t = setup_slot_trace [OF s]
  from assms s t show ?thesis
    by (fastforce simp: snapshot_Setup_def world_defs split: option.splits prod.splits sum.splits if_splits)
qed

text \<open>C5: All connections of a dump see one snapshot. If the controller is set up for snapshot consistency and the
  writers' connections are opened, then the controller's connection has begun its transaction and has exported
  or adopted the snapshot and nothing else, so the transaction is still open; and every writer has a connection
  of its own, on which a repeatable-read transaction was begun and bound to the same snapshot, before anything
  else.\<close>

theorem one_snapshot_for_all:
  assumes "ds_trace w0 = []" "Consistency (ds_conf w0) = ConsistencyTypeSnapshot"
    and "NewConsistencyController env w0 = (w1, Inr (ConsistencySnapshot c))"
    and "snapshot_Setup env c w1 = (w2, c', None)" "cs_snapshotName c' \<noteq> ''''"
    and "open_workers env n w2 = (w3, Inr workers)"
  shows "\<exists>h stmt. cs_conn c' = Some h \<and> conn_calls h (ds_trace w3) = [Exec h beginStmt, stmt] \<and>
    stmt \<in> {Exec h (setSnapshotStmt (cs_snapshotName c')), QueryRow h ''SELECT pg_export_snapshot()''} \<and>
    length workers = n \<and> distinct workers \<and> h \<notin> set workers \<and>
    (\<forall>x \<in> set workers. conn_calls x (ds_trace w3) = [Exec x beginStmt, Exec x (setSnapshotStmt (cs_snapshotName c'))])"
proof -
  have c: "cs_conn c = Some 0" "ds_trace w1 = [OpenConn]" "ds_conf w1 = ds_conf w0"
    using assms(1,3) by (auto simp: NewConsistencyController_def world_defs split: option.splits if_splits)
  from Setup_spec [OF assms(4) c(1)] obtain evs stmt where
    t: "ds_trace w2 = OpenConn # evs @ [Exec 0 beginStmt, stmt]" "\<forall>ev \<in> set evs. ev_conn ev = None"
    and st: "stmt \<in> {Exec 0 (setSnapshotStmt (cs_snapshotName c')), QueryRow 0 ''SELECT pg_export_snapshot()''}"
    and w2: "cs_conn c' = Some 0" "pgSnapshotToken w2 = cs_snapshotName c'" "Consistency (ds_conf w2) = ConsistencyTypeSnapshot"
    using c assms(2) by auto
  have calls: "conn_calls 0 (ds_trace w2) = [Exec 0 beginStmt, stmt]"
    using t st by (auto simp: conn_calls_def filter_empty_conv)
  have "opened (ds_trace w2)" using t st by (auto simp: opened_def)
  from open_workers_spec [OF assms(6) _ _ this] w2 assms(5) calls st show ?thesis
    by (auto simp: needRepeatableRead_def t(1) intro!: exI [of _ 0] exI [of _ stmt])
qed

text \<open>A server on which every call succeeds and whose snapshot is named.\<close>

definition good_env :: "string \<Rightarrow> db_env" where
  "good_env token =
     \<lparr>env_Conn = (\<lambda>_. None), env_Exec = (\<lambda>_. None), env_QueryRow = (\<lambda>_. Inr token), env_Ping = (\<lambda>_. None),
      env_ParseConfig = (\<lambda>_. None), env_Connect = (\<lambda>_. None),
      env_ReplExec = (\<lambda>_. Inr [[[''slot'', ''0/16B'', token, ''pgoutput'']]])\<rparr>"

definition fresh_state :: "Config \<Rightarrow> dump_state" where
  "fresh_state conf = \<lparr>ds_trace = [], ds_conf = conf, pgSnapshotToken = ''''\<rparr>"

theorem one_snapshot_for_all_witness:
  "let env = good_env ''00000003-1''; conf = DefaultConfig\<lparr>Consistency := ConsistencyTypeSnapshot\<rparr>;
       (w1, r) = NewConsistencyController env (fresh_state conf);
       c = \<lparr>cs_conn = Some 0, cs_snapshotName = '''', cs_cdcConn = None, cs_cdcSlot = None\<rparr>;
       (w2, c', err) = snapshot_Setup env c w1;
       (w3, ws) = open_workers env 2 w2
   in r = Inr (ConsistencySnapshot c) \<and> err = None \<and> ws = Inr [3, 6] \<and>
      conn_calls 0 (ds_trace w3) = [Exec 0 beginStmt, QueryRow 0 ''SELECT pg_export_snapshot()''] \<and>
      conn_calls 6 (ds_trace w3) = [Exec 6 beginStmt, Exec 6 (setSnapshotStmt ''00000003-1'')]"
proof -
  let ?env = "good_env ''00000003-1''" and ?w0 = "fresh_state (DefaultConfig\<lparr>Consistency := ConsistencyTypeSnapshot\<rparr>)"
  let ?c = "\<lparr>cs_conn = Some 0, cs_snapshotName = '''', cs_cdcConn = None, cs_cdcSlot = None\<rparr>"
  obtain w1 r where n: "NewConsistencyController ?env ?w0 = (w1, r)" by fastforce
  obtain w2 c' err where s: "snapshot_Setup ?env ?c w1 = (w2, c', err)" by (metis surj_pair)
  obtain w3 ws where o: "open_workers ?env 2 w2 = (w3, ws)" by fastforce
  have "snd (NewConsistencyController ?env ?w0) = Inr (ConsistencySnapshot ?c)"
    "snd (snd (snapshot_Setup ?env ?c (fst (NewConsistencyController ?env ?w0)))) = None"
    "cs_snapshotName (fst (snd (snapshot_Setup ?env ?c (fst (NewConsistencyController ?env ?w0))))) = ''00000003-1''"
    "snd (open_workers ?env 2 (fst (snapshot_Setup ?env ?c (fst (NewConsistencyController ?env ?w0))))) = Inr [3, 6]"
    "conn_calls 0 (ds_trace (fst (open_workers ?env 2 (fst (snapshot_Setup ?env ?c (fst (NewConsistencyController ?env ?w0))))))) =
      [Exec 0 beginStmt, QueryRow 0 ''SELECT pg_export_snapshot()'']"
    by code_simp+
  then have r: "r = Inr (ConsistencySnapshot ?c)" "err = None" "cs_snapshotName c' = ''00000003-1''" "ws = Inr [3, 6]"
    "conn_calls 0 (ds_trace w3) = [Exec 0 beginStmt, QueryRow 0 ''SELECT pg_export_snapshot()'']"
    using n s o by simp_all
  have "ds_trace ?w0 = []" "Consistency (ds_conf ?w0) = ConsistencyTypeSnapshot" by (simp_all add: fresh_state_def)
  from one_snapshot_for_all [OF this n [unfolded r(1)] s [unfolded r(2)] _ o [unfolded r(4)]] r(3)
  have "conn_calls 6 (ds_trace w3) = [Exec 6 beginStmt, Exec 6 (setSnapshotStmt ''00000003-1'')]" by auto
  with n s o r show ?thesis by (simp add: Let_def)
qed

end
