(* ===== verification/Row_Iter.thy ===== *)
theory Row_Iter
  imports Tasks
begin

text \<open>
  Row iterators and table data (\<open>export/ir.go\<close>, \<open>export/ir_impl.go\<close>): the iterator over one result set,
  the iterator over the result sets of several queries, the table data that owns them, and the small
  iterators and metadata objects beside them.

  The database connection is the parameter \<open>conn\<close>, which answers a query with an error or a result
  set. A result set is the rows still to come, the row \<open>Scan\<close> reads, and the error \<open>Err\<close> reports once
  the rows have run out (a connection lost in mid-stream). The contract of an iterator is the locale
  \<open>row_stream\<close>: it delivers, in order, the rows it has left.
\<close>

section \<open>Result sets\<close>

record query_result =
  qr_cols :: "(string \<times> string) list"
  qr_rows :: "raw_bytes list list"
  qr_err :: "error option"

type_synonym connection = "string \<Rightarrow> error + query_result"

record Rows =
  rs_cols :: "(string \<times> string) list"
  rs_current :: "raw_bytes list option"
  rs_pending :: "raw_bytes list list"
  rs_err :: "error option"

definition open_rows :: "query_result \<Rightarrow> Rows" where
  "open_rows q = \<lparr>rs_cols = qr_cols q, rs_current = None, rs_pending = qr_rows q, rs_err = qr_err q\<rparr>"

definition Rows_Next :: "Rows \<Rightarrow> Rows \<times> bool" where
  "Rows_Next rs =
     (case rs_pending rs of
        [] \<Rightarrow> (rs\<lparr>rs_current := None\<rparr>, False)
      | r # rest \<Rightarrow> (rs\<lparr>rs_current := Some r, rs_pending := rest\<rparr>, True))"

definition Rows_Err :: "Rows \<Rightarrow> error option" where
  "Rows_Err rs = (if rs_current rs = None \<and> rs_pending rs = [] then rs_err rs else None)"

definition Rows_Scan :: "nat \<Rightarrow> Rows \<Rightarrow> RowReceiverStringer list \<Rightarrow> error + RowReceiverStringer list" where
  "Rows_Scan argLen rs row =
     (case rs_current rs of
        None \<Rightarrow> Inl (External ''sql: Scan called without calling Next'')
      | Some cells \<Rightarrow> decodeFromRows argLen cells row)"

section \<open>Iterators\<close>

record rowIter =
  ri_rows :: Rows
  ri_hasNext :: bool
  ri_argLen :: nat

definition newRowIter :: "Rows \<Rightarrow> nat \<Rightarrow> rowIter" where
  "newRowIter rows argLen =
     (case Rows_Next rows of (rs, b) \<Rightarrow> \<lparr>ri_rows = rs, ri_hasNext = b, ri_argLen = argLen\<rparr>)"

definition rowIter_Next :: "rowIter \<Rightarrow> rowIter" where
  "rowIter_Next it = (case Rows_Next (ri_rows it) of (rs, b) \<Rightarrow> it\<lparr>ri_rows := rs, ri_hasNext := b\<rparr>)"

record multiQueriesChunkIter =
  mi_rows :: "Rows option"
  mi_hasNext :: bool
  mi_id :: nat
  mi_queries :: "string list"
  mi_argLen :: nat
  mi_err :: "error option"

text \<open>
  \<open>nextRows\<close>: close the result set at hand, whose error ends the iteration, then run the queries that
  are left until one of them has a row. (Closing a result set that was read to its end does not fail.)
\<close>

function nextRows :: "connection \<Rightarrow> multiQueriesChunkIter \<Rightarrow> multiQueriesChunkIter" where
  "nextRows conn it =
     (if mi_id it \<ge> length (mi_queries it) then it\<lparr>mi_hasNext := False\<rparr>
      else (case (case mi_rows it of None \<Rightarrow> None | Some rs \<Rightarrow> Rows_Err rs) of
              Some e \<Rightarrow> it\<lparr>mi_hasNext := False, mi_err := Some e\<rparr>
            | None \<Rightarrow>
                (case conn (mi_queries it ! mi_id it) of
                   Inl e \<Rightarrow> it\<lparr>mi_hasNext := False, mi_err := Some e\<rparr>
                 | Inr q \<Rightarrow>
                     (case Rows_Next (open_rows q) of
                        (rs, b) \<Rightarrow>
                          let it' = it\<lparr>mi_id := mi_id it + 1, mi_rows := Some rs, mi_hasNext := b\<rparr>
                          in if b then it'
                             else if mi_id it' < length (mi_queries it') then nextRows conn it' else it'))))"
  by pat_completeness auto
termination
  by (relation "measure (\<lambda>(conn, it). length (mi_queries it) - mi_id it)") auto

definition newMultiQueryChunkIter :: "connection \<Rightarrow> string list \<Rightarrow> nat \<Rightarrow> multiQueriesChunkIter" where
  "newMultiQueryChunkIter conn queries argLen =
     nextRows conn \<lparr>mi_rows = None, mi_hasNext = False, mi_id = 0, mi_queries = queries, mi_argLen = argLen, mi_err = None\<rparr>"

definition multiIter_Next :: "connection \<Rightarrow> multiQueriesChunkIter \<Rightarrow> multiQueriesChunkIter" where
  "multiIter_Next conn it =
     (if mi_err it \<noteq> None then it
      else (case mi_rows it of
              None \<Rightarrow> it \<comment> \<open>the code would dereference a nil result set\<close>
            | Some rs \<Rightarrow>
                (case Rows_Next rs of
                   (rs', b) \<Rightarrow>
                     let it' = it\<lparr>mi_rows := Some rs', mi_hasNext := b\<rparr>
                     in if b then it' else nextRows conn it')))"

text \<open>\<open>SQLRowIter\<close> is one of the two.\<close>

datatype SQLRowIter = RowIter rowIter | MultiIter multiQueriesChunkIter

fun HasNext :: "SQLRowIter \<Rightarrow> bool" where
  "HasNext (RowIter it) = ri_hasNext it"
| "HasNext (MultiIter it) = mi_hasNext it"

fun Next :: "connection \<Rightarrow> SQLRowIter \<Rightarrow> SQLRowIter" where
  "Next conn (RowIter it) = RowIter (rowIter_Next it)"
| "Next conn (MultiIter it) = MultiIter (multiIter_Next conn it)"

fun Decode :: "SQLRowIter \<Rightarrow> RowReceiverStringer list \<Rightarrow> error + RowReceiverStringer list" where
  "Decode (RowIter it) row = Rows_Scan (ri_argLen it) (ri_rows it) row"
| "Decode (MultiIter it) row =
     (case mi_err it of
        Some e \<Rightarrow> Inl e
      | None \<Rightarrow>
          (case mi_rows it of
             None \<Rightarrow> Inl (Errorf ''no valid rows found, id: %d'' [fmt_nat (mi_id it)])
           | Some rs \<Rightarrow> Rows_Scan (mi_argLen it) rs row))"

fun Iter_Error :: "SQLRowIter \<Rightarrow> error option" where
  "Iter_Error (RowIter it) = Rows_Err (ri_rows it)"
| "Iter_Error (MultiIter it) =
     (case mi_err it of
        Some e \<Rightarrow> Some e
      | None \<Rightarrow> (case mi_rows it of None \<Rightarrow> None | Some rs \<Rightarrow> Rows_Err rs))"

section \<open>Table data\<close>

record table_data =
  td_ir :: TableDataIR
  td_rows :: "Rows option"
  td_colLen :: nat
  td_colTypes :: "string list"
  td_iter :: "SQLRowIter option"

definition td_new :: "TableDataIR \<Rightarrow> table_data" where
  "td_new ir =
     \<lparr>td_ir = ir, td_rows = None,
      td_colLen = (case ir of tableData _ n _ \<Rightarrow> n | multiQueriesChunk _ n \<Rightarrow> n),
      td_colTypes = [], td_iter = None\<rparr>"

text \<open>\<open>Start\<close>: a single query is run at once, several queries only when the rows are asked for.\<close>

definition Start :: "connection \<Rightarrow> table_data \<Rightarrow> error + table_data" where
  "Start conn td =
     (case td_ir td of
        tableData query colLen needColTypes \<Rightarrow>
          (case conn query of
             Inl e \<Rightarrow> Inl (Annotatef e ''sql: %s'' [query])
           | Inr q \<Rightarrow>
               let td' = td\<lparr>td_iter := None, td_rows := Some (open_rows q)\<rparr>
               in Inr (if needColTypes
                       then td'\<lparr>td_colLen := length (qr_cols q), td_colTypes := map snd (qr_cols q)\<rparr>
                       else td'))
      | multiQueriesChunk queries colLen \<Rightarrow> Inr (td\<lparr>td_iter := None\<rparr>))"

text \<open>\<open>Rows\<close> creates the iterator the first time it is called; it fails on data that was not started.\<close>

definition td_Rows :: "connection \<Rightarrow> table_data \<Rightarrow> error + table_data \<times> SQLRowIter" where
  "td_Rows conn td =
     (case td_iter td of
        Some it \<Rightarrow> Inr (td, it)
      | None \<Rightarrow>
          (case td_ir td of
             tableData _ _ _ \<Rightarrow>
               (case td_rows td of
                  None \<Rightarrow> Inl (Panic ''nil pointer dereference'')
                | Some rs \<Rightarrow>
                    let it = RowIter (newRowIter rs (td_colLen td)) in Inr (td\<lparr>td_iter := Some it\<rparr>, it))
           | multiQueriesChunk queries colLen \<Rightarrow>
               let it = MultiIter (newMultiQueryChunkIter conn queries colLen)
               in Inr (td\<lparr>td_iter := Some it\<rparr>, it)))"

section \<open>Other iterators and metadata\<close>

record stringIter =
  si_idx :: nat
  si_ss :: "string list"

definition newStringIter :: "string list \<Rightarrow> stringIter" where
  "newStringIter ss = \<lparr>si_idx = 0, si_ss = ss\<rparr>"

definition stringIter_HasNext :: "stringIter \<Rightarrow> bool" where
  "stringIter_HasNext m \<longleftrightarrow> si_idx m < length (si_ss m)"

definition stringIter_Next :: "stringIter \<Rightarrow> stringIter \<times> string" where
  "stringIter_Next m =
     (if si_idx m \<ge> length (si_ss m) then (m, '''')
      else (m\<lparr>si_idx := si_idx m + 1\<rparr>, si_ss m ! si_idx m))"

record metaData =
  md_target :: string
  md_metaSQL :: string
  md_specCmts :: "string list"

definition MetaSQL :: "metaData \<Rightarrow> string" where
  "MetaSQL m = (if has_suffix ('';'' @ [NL]) (md_metaSQL m) then md_metaSQL m else md_metaSQL m @ '';'' @ [NL])"

definition setTableMetaFromRows :: "Rows \<Rightarrow> Config \<Rightarrow> tableMeta" where
  "setTableMetaFromRows rows conf =
     (let nms = map fst (rs_cols rows)
      in \<lparr>tm_database = '''', tm_table = '''', tm_colTypes = rs_cols rows,
          tm_selectedField = join '','' (map pgQuoteIdent nms),
          tm_selectColumns = join '','' (map (QuoteIdent (conf_Dialect conf)) nms),
          tm_selectedLen = length nms, tm_specCmts = EffectivePreamble conf,
          tm_showCreateTable = '''', tm_showCreateView = '''', tm_avgRowLength = 0, tm_hasImplicitRowID = False\<rparr>)"

section \<open>The contract of an iterator\<close>

locale row_stream =
  fixes ok :: "'i \<Rightarrow> bool"
    and has_next :: "'i \<Rightarrow> bool"
    and next_row :: "'i \<Rightarrow> 'i"
    and err :: "'i \<Rightarrow> error option"
    and left :: "'i \<Rightarrow> 'row list"
    and final :: "'i \<Rightarrow> error option"
  assumes ok_next: "ok i \<Longrightarrow> has_next i \<Longrightarrow> ok (next_row i)"
    and has_next_iff: "ok i \<Longrightarrow> has_next i \<longleftrightarrow> left i \<noteq> []"
    and left_next: "ok i \<Longrightarrow> has_next i \<Longrightarrow> left (next_row i) = tl (left i)"
    and err_more: "ok i \<Longrightarrow> has_next i \<Longrightarrow> err i = None"
    and err_end: "ok i \<Longrightarrow> \<not> has_next i \<Longrightarrow> err i = final i"
    and final_next: "ok i \<Longrightarrow> has_next i \<Longrightarrow> final (next_row i) = final i"
begin

lemma next_shorter: "ok i \<Longrightarrow> has_next i \<Longrightarrow> length (left (next_row i)) < length (left i)"
  using has_next_iff [of i] left_next [of i] by (cases "left i") auto

lemma iterate:
  "ok i \<Longrightarrow> n \<le> length (left i) \<Longrightarrow>
    ok ((next_row ^^ n) i) \<and> left ((next_row ^^ n) i) = drop n (left i) \<and> final ((next_row ^^ n) i) = final i"
proof (induction n)
  case (Suc n)
  let ?j = "(next_row ^^ n) i"
  from Suc have j: "ok ?j" "left ?j = drop n (left i)" "final ?j = final i" "has_next ?j"
    using has_next_iff [of ?j] by auto
  then show ?case by (simp add: ok_next left_next final_next drop_Suc tl_drop)
qed simp

text \<open>Reading to the end delivers every row and then the error the stream broke off with, if any.\<close>

lemma read_to_end:
  assumes "ok i"
  shows "\<not> has_next ((next_row ^^ length (left i)) i) \<and> err ((next_row ^^ length (left i)) i) = final i"
  using iterate [OF assms, of "length (left i)"] has_next_iff err_end by auto

end

section \<open>The two iterators keep the contract\<close>

text \<open>The rows of a result set that are left, the current one first.\<close>

definition rows_left :: "Rows \<Rightarrow> raw_bytes list list" where
  "rows_left rs = (case rs_current rs of None \<Rightarrow> [] | Some r \<Rightarrow> [r]) @ rs_pending rs"

text \<open>The rows of a list of queries, up to the first that fails or breaks off, and its error.\<close>

fun query_rows :: "connection \<Rightarrow> string list \<Rightarrow> raw_bytes list list" where
  "query_rows conn [] = []"
| "query_rows conn (q # qs) =
     (case conn q of
        Inl _ \<Rightarrow> []
      | Inr r \<Rightarrow> qr_rows r @ (if qr_err r = None then query_rows conn qs else []))"

fun query_err :: "connection \<Rightarrow> string list \<Rightarrow> error option" where
  "query_err conn [] = None"
| "query_err conn (q # qs) =
     (case conn q of
        Inl e \<Rightarrow> Some e
      | Inr r \<Rightarrow> (case qr_err r of Some e \<Rightarrow> Some e | None \<Rightarrow> query_err conn qs))"

definition cur_err :: "multiQueriesChunkIter \<Rightarrow> error option" where
  "cur_err it = (case mi_rows it of None \<Rightarrow> None | Some rs \<Rightarrow> rs_err rs)"

definition todo :: "multiQueriesChunkIter \<Rightarrow> string list" where
  "todo it = drop (mi_id it) (mi_queries it)"

fun iter_left :: "connection \<Rightarrow> SQLRowIter \<Rightarrow> raw_bytes list list" where
  "iter_left conn (RowIter it) = (if ri_hasNext it then rows_left (ri_rows it) else [])"
| "iter_left conn (MultiIter it) =
     (if mi_hasNext it
      then (case mi_rows it of None \<Rightarrow> [] | Some rs \<Rightarrow> rows_left rs) @
           (if cur_err it = None then query_rows conn (todo it) else [])
      else [])"

fun iter_final :: "connection \<Rightarrow> SQLRowIter \<Rightarrow> error option" where
  "iter_final conn (RowIter it) = rs_err (ri_rows it)"
| "iter_final conn (MultiIter it) =
     (case mi_err it of
        Some e \<Rightarrow> Some e
      | None \<Rightarrow> (case cur_err it of Some e \<Rightarrow> Some e | None \<Rightarrow> query_err conn (todo it)))"

definition exhausted :: "Rows \<Rightarrow> bool" where
  "exhausted rs \<longleftrightarrow> rs_current rs = None \<and> rs_pending rs = []"

fun iter_ok :: "SQLRowIter \<Rightarrow> bool" where
  "iter_ok (RowIter it) =
     (if ri_hasNext it then rs_current (ri_rows it) \<noteq> None else exhausted (ri_rows it))"
| "iter_ok (MultiIter it) =
     (if mi_hasNext it
      then mi_err it = None \<and> (case mi_rows it of None \<Rightarrow> False | Some rs \<Rightarrow> rs_current rs \<noteq> None)
      else mi_err it \<noteq> None \<or>
           todo it = [] \<and> (case mi_rows it of None \<Rightarrow> True | Some rs \<Rightarrow> exhausted rs))"

lemmas iter_defs = rows_left_def cur_err_def exhausted_def Rows_Err_def Rows_Next_def open_rows_def

declare nextRows.simps [simp del]

lemma todo_Cons: "mi_id it < length (mi_queries it) \<Longrightarrow>
    todo it = mi_queries it ! mi_id it # todo (it\<lparr>mi_id := mi_id it + 1\<rparr>)"
  by (simp add: todo_def Cons_nth_drop_Suc)

lemma todo_update [simp]:
  "todo (it\<lparr>mi_hasNext := b\<rparr>) = todo it" "todo (it\<lparr>mi_rows := r\<rparr>) = todo it"
  "todo (it\<lparr>mi_err := e\<rparr>) = todo it"
  by (simp_all add: todo_def)

lemma nextRows_spec:
  assumes "mi_err it = None" "case mi_rows it of None \<Rightarrow> True | Some rs \<Rightarrow> exhausted rs"
  shows "iter_ok (MultiIter (nextRows conn it)) \<and>
    iter_left conn (MultiIter (nextRows conn it)) = (if cur_err it = None then query_rows conn (todo it) else []) \<and>
    iter_final conn (MultiIter (nextRows conn it)) = iter_final conn (MultiIter it)"
  using assms
proof (induction conn it rule: nextRows.induct)
  case (1 conn it)
  have e: "(case mi_rows it of None \<Rightarrow> None | Some rs \<Rightarrow> Rows_Err rs) = cur_err it"
    using 1(3) by (auto simp: iter_defs split: option.splits)
  show ?case
  proof (cases "mi_id it < length (mi_queries it) \<and> cur_err it = None")
    case False
    then show ?thesis
      using 1(2,3) e by (subst (1 2 3) nextRows.simps) (auto simp: todo_def cur_err_def split: option.splits)
  next
    case True
    then have at: "mi_id it < length (mi_queries it)" "cur_err it = None" by simp_all
    note t = todo_Cons [OF at(1)]
    show ?thesis
    proof (cases "conn (mi_queries it ! mi_id it)")
      case (Inl er)
      then have "nextRows conn it = it\<lparr>mi_hasNext := False, mi_err := Some er\<rparr>"
        using at e by (subst nextRows.simps) simp
      then show ?thesis using Inl at 1(2) t by (simp split: option.splits)
    next
      case (Inr q)
      obtain rs b where n: "Rows_Next (open_rows q) = (rs, b)" by (cases "Rows_Next (open_rows q)")
      define it' where "it' = it\<lparr>mi_id := mi_id it + 1, mi_rows := Some rs, mi_hasNext := b\<rparr>"
      have step: "nextRows conn it =
          (if b then it' else if mi_id it' < length (mi_queries it') then nextRows conn it' else it')"
        using True e Inr n by (subst nextRows.simps) (simp add: it'_def Let_def)
      have rs: "rs_err rs = qr_err q" "rows_left rs = qr_rows q" "b \<longleftrightarrow> rs_current rs \<noteq> None"
        "\<not> b \<Longrightarrow> exhausted rs \<and> qr_rows q = []"
        using n by (auto simp: iter_defs split: list.splits)
      have it': "mi_err it' = None" "mi_rows it' = Some rs" "mi_hasNext it' = b" "cur_err it' = qr_err q"
        "todo it = mi_queries it ! mi_id it # todo it'"
        using 1(2) rs(1) t by (simp_all add: it'_def cur_err_def todo_def)
      have f: "iter_final conn (MultiIter it') = iter_final conn (MultiIter it)"
        using it' 1(2) True Inr by (simp split: option.splits)
      show ?thesis
      proof (cases "\<not> b \<and> mi_id it' < length (mi_queries it')")
        case True
        then have "nextRows conn it = nextRows conn it'" using step by simp
        moreover have "iter_ok (MultiIter (nextRows conn it')) \<and>
            iter_left conn (MultiIter (nextRows conn it')) = (if cur_err it' = None then query_rows conn (todo it') else []) \<and>
            iter_final conn (MultiIter (nextRows conn it')) = iter_final conn (MultiIter it')"
          by (rule 1(1) [OF _ _ Inr n [symmetric] it'_def])
            (use True at e it' rs(4) in simp_all)
        ultimately show ?thesis using it' Inr rs(4) True f at by auto
      next
        case False
        then have "nextRows conn it = it'" using step by auto
        moreover have "todo it' = []" if "\<not> b" using False that by (simp add: todo_def)
        ultimately show ?thesis
          using it' Inr rs f at by (cases b) auto
      qed
    qed
  qed
qed

lemma rowIter_Next_spec:
  assumes "iter_ok (RowIter it)" "ri_hasNext it"
  shows "iter_ok (Next conn (RowIter it)) \<and>
    iter_left conn (Next conn (RowIter it)) = tl (iter_left conn (RowIter it)) \<and>
    iter_final conn (Next conn (RowIter it)) = iter_final conn (RowIter it)"
  using assms by (auto simp: rowIter_Next_def iter_defs split: list.splits)

lemma multiIter_Next_spec:
  assumes "iter_ok (MultiIter it)" "mi_hasNext it"
  shows "iter_ok (Next conn (MultiIter it)) \<and>
    iter_left conn (Next conn (MultiIter it)) = tl (iter_left conn (MultiIter it)) \<and>
    iter_final conn (Next conn (MultiIter it)) = iter_final conn (MultiIter it)"
proof -
  from assms obtain rs r where it: "mi_err it = None" "mi_rows it = Some rs" "rs_current rs = Some r"
    by (auto split: option.splits)
  show ?thesis
  proof (cases "rs_pending rs")
    case Nil
    define rs' where "rs' = rs\<lparr>rs_current := None\<rparr>"
    define it' where "it' = it\<lparr>mi_rows := Some rs', mi_hasNext := False\<rparr>"
    have nx: "Next conn (MultiIter it) = MultiIter (nextRows conn it')"
      using it Nil by (simp add: multiIter_Next_def Rows_Next_def Let_def it'_def rs'_def)
    have "mi_err it' = None" "case mi_rows it' of None \<Rightarrow> True | Some rs \<Rightarrow> exhausted rs"
      using it Nil by (simp_all add: it'_def rs'_def exhausted_def)
    note sp = nextRows_spec [OF this, of conn]
    have same: "cur_err it' = cur_err it" "todo it' = todo it" "mi_err it' = mi_err it"
      using it by (simp_all add: it'_def rs'_def cur_err_def todo_def)
    have "iter_left conn (MultiIter it) = r # (if cur_err it = None then query_rows conn (todo it) else [])"
      "iter_final conn (MultiIter it') = iter_final conn (MultiIter it)"
      using same it Nil assms(2) by (simp_all add: rows_left_def split: option.splits)
    with sp same show ?thesis unfolding nx by (metis list.sel(3))
  next
    case (Cons a list)
    then have "Next conn (MultiIter it) =
        MultiIter (it\<lparr>mi_rows := Some (rs\<lparr>rs_current := Some a, rs_pending := list\<rparr>), mi_hasNext := True\<rparr>)"
      using it by (simp add: multiIter_Next_def Rows_Next_def Let_def)
    with it Cons assms(2) show ?thesis by (simp add: rows_left_def cur_err_def todo_def split: option.splits)
  qed
qed

lemma iter_Next_spec:
  assumes "iter_ok it" "HasNext it"
  shows "iter_ok (Next conn it)" "iter_left conn (Next conn it) = tl (iter_left conn it)"
    "iter_final conn (Next conn it) = iter_final conn it"
  using assms rowIter_Next_spec multiIter_Next_spec by (cases it; auto simp del: Next.simps iter_left.simps iter_ok.simps iter_final.simps)+

interpretation rows: row_stream iter_ok HasNext "Next conn" Iter_Error "iter_left conn" "iter_final conn" for conn
proof
  fix i
  assume ok: "iter_ok i"
  show "HasNext i \<longleftrightarrow> iter_left conn i \<noteq> []"
    using ok by (cases i) (auto simp: rows_left_def split: option.splits)
  show "HasNext i \<Longrightarrow> Iter_Error i = None"
    using ok by (cases i) (auto simp: Rows_Err_def split: option.splits)
  show "\<not> HasNext i \<Longrightarrow> Iter_Error i = iter_final conn i"
    using ok by (cases i) (auto simp: Rows_Err_def exhausted_def cur_err_def split: option.splits)
qed (simp_all add: iter_Next_spec)

lemma new_rowIter:
  "iter_ok (RowIter (newRowIter (open_rows q) n))"
  "iter_left conn (RowIter (newRowIter (open_rows q) n)) = qr_rows q"
  "iter_final conn (RowIter (newRowIter (open_rows q) n)) = qr_err q"
  by (auto simp: newRowIter_def iter_defs split: list.splits)

lemma new_multiIter:
  "iter_ok (MultiIter (newMultiQueryChunkIter conn queries n))"
  "iter_left conn (MultiIter (newMultiQueryChunkIter conn queries n)) = query_rows conn queries"
  "iter_final conn (MultiIter (newMultiQueryChunkIter conn queries n)) = query_err conn queries"
proof -
  define it where "it = \<lparr>mi_rows = None, mi_hasNext = False, mi_id = 0, mi_queries = queries, mi_argLen = n, mi_err = None\<rparr>"
  have "newMultiQueryChunkIter conn queries n = nextRows conn it"
    by (simp add: newMultiQueryChunkIter_def it_def)
  moreover have "mi_err it = None" "case mi_rows it of None \<Rightarrow> True | Some rs \<Rightarrow> exhausted rs"
    "cur_err it = None" "todo it = queries" "iter_final conn (MultiIter it) = query_err conn queries"
    by (simp_all add: it_def cur_err_def todo_def)
  ultimately show "iter_ok (MultiIter (newMultiQueryChunkIter conn queries n))"
    "iter_left conn (MultiIter (newMultiQueryChunkIter conn queries n)) = query_rows conn queries"
    "iter_final conn (MultiIter (newMultiQueryChunkIter conn queries n)) = query_err conn queries"
    using nextRows_spec [of it conn] by metis+
qed

text \<open>The queries of a table's data, and what they answer.\<close>

fun ir_queries :: "TableDataIR \<Rightarrow> string list" where
  "ir_queries (tableData q _ _) = [q]"
| "ir_queries (multiQueriesChunk qs _) = qs"

lemma td_Rows_spec:
  assumes "Start conn (td_new ir) = Inr td" "td_Rows conn td = Inr (td', it)"
  shows "iter_ok it \<and> iter_left conn it = query_rows conn (ir_queries ir) \<and>
    iter_final conn it = query_err conn (ir_queries ir)"
proof (cases ir)
  case (tableData q n b)
  with assms obtain r where "conn q = Inr r" "it = RowIter (newRowIter (open_rows r) (td_colLen td))"
    by (auto simp: Start_def td_new_def td_Rows_def Let_def split: sum.splits if_splits)
  then show ?thesis using tableData new_rowIter [where q = r] by (simp del: iter_ok.simps iter_left.simps iter_final.simps split: option.splits)
next
  case (multiQueriesChunk qs n)
  with assms have "it = MultiIter (newMultiQueryChunkIter conn qs n)"
    by (auto simp: Start_def td_new_def td_Rows_def Let_def)
  then show ?thesis using multiQueriesChunk new_multiIter by (simp del: iter_ok.simps iter_left.simps iter_final.simps)
qed

text \<open>The rows of a chunk are delivered completely and in order: reading the iterator of started table
  data to its end takes exactly as many steps as its queries return rows, across all the queries of a
  chunk and past the empty ones, leaves no row behind, and ends with the error of the first query that
  failed or broke off, and with no error if none did.\<close>

theorem iterator_delivers_all_rows:
  assumes "Start conn (td_new ir) = Inr td" "td_Rows conn td = Inr (td', it)"
  shows "(\<forall>n \<le> length (query_rows conn (ir_queries ir)).
      iter_left conn ((Next conn ^^ n) it) = drop n (query_rows conn (ir_queries ir)) \<and>
      HasNext ((Next conn ^^ n) it) = (n < length (query_rows conn (ir_queries ir)))) \<and>
    Iter_Error ((Next conn ^^ length (query_rows conn (ir_queries ir))) it) = query_err conn (ir_queries ir)"
proof -
  from td_Rows_spec [OF assms] have it: "iter_ok it" "iter_left conn it = query_rows conn (ir_queries ir)"
    "iter_final conn it = query_err conn (ir_queries ir)" by blast+
  note run = rows.iterate [OF it(1), where conn = conn, unfolded it(2,3)]
  have "HasNext ((Next conn ^^ n) it) = (n < length (query_rows conn (ir_queries ir)))"
    if "n \<le> length (query_rows conn (ir_queries ir))" for n
    using rows.has_next_iff [where conn = conn] run that by (metis drop_eq_Nil not_less)
  moreover have "Iter_Error ((Next conn ^^ length (query_rows conn (ir_queries ir))) it) = query_err conn (ir_queries ir)"
    using rows.read_to_end [OF it(1), where conn = conn] it by simp
  ultimately show ?thesis using run by blast
qed

definition sample_conn :: connection where
  "sample_conn q =
     (if q = ''a'' then Inr \<lparr>qr_cols = [], qr_rows = [[Some ''1''], [Some ''2'']], qr_err = None\<rparr>
      else if q = ''b'' then Inr \<lparr>qr_cols = [], qr_rows = [], qr_err = None\<rparr>
      else if q = ''c'' then Inr \<lparr>qr_cols = [], qr_rows = [[Some ''3'']], qr_err = Some (External ''lost'')\<rparr>
      else Inl (External ''no such query''))"

theorem iterator_delivers_all_rows_witness:
  "let ir = multiQueriesChunk [''a'', ''b'', ''c'', ''a''] 1; td = td_new ir;
       it = MultiIter (newMultiQueryChunkIter sample_conn [''a'', ''b'', ''c'', ''a''] 1)
   in Iter_Error ((Next sample_conn ^^ 3) it) = Some (External ''lost'') \<and>
      \<not> HasNext ((Next sample_conn ^^ 3) it) \<and>
      query_rows sample_conn (ir_queries ir) = [[Some ''1''], [Some ''2''], [Some ''3'']]"
proof -
  have "Start sample_conn (td_new (multiQueriesChunk [''a'', ''b'', ''c'', ''a''] 1)) =
      Inr (td_new (multiQueriesChunk [''a'', ''b'', ''c'', ''a''] 1))"
    by (simp add: Start_def td_new_def)
  moreover obtain td' where "td_Rows sample_conn (td_new (multiQueriesChunk [''a'', ''b'', ''c'', ''a''] 1)) =
      Inr (td', MultiIter (newMultiQueryChunkIter sample_conn [''a'', ''b'', ''c'', ''a''] 1))"
    by (simp add: td_Rows_def td_new_def Let_def)
  ultimately show ?thesis
    using iterator_delivers_all_rows [of sample_conn "multiQueriesChunk [''a'', ''b'', ''c'', ''a''] 1"]
    by (force simp: sample_conn_def eval_nat_numeral)
qed

end
