(* ===== verification/File_Naming.thy ===== *)
theory File_Naming
  imports Config Tasks
begin

text \<open>
  Names of the output files: the built-in template and its escaping function \<open>fn\<close>
  (\<open>export/prepare.go\<close>), the namer and its index format (\<open>export/writer.go\<close>), and the suffixes of
  formats and compressions (\<open>export/writer_util.go\<close>).

  The theorems: escaped names can be decoded and hold no dot, so names of schemas and
  tables never run together; and all files of one dump have different names.
\<close>

section \<open>Escaping\<close>

definition special_bytes :: "char list" where
  "special_bytes = CHR ''%'' # DQ # BS # ''*./:<>?|''"

definition must_escape :: "char \<Rightarrow> bool" where
  "must_escape c \<longleftrightarrow> byte c \<le> 0x1F \<or> c \<in> set special_bytes"

text \<open>
  \<open>(?i:schema)\<close>: the letters in either case, and the long s, the one other rune that folds to one of
  them, in its UTF-8 form. Of a match only the hyphen is rewritten; the letters after it contain
  nothing to escape.
\<close>

definition schema_follows :: "string \<Rightarrow> bool" where
  "schema_follows s \<longleftrightarrow>
     map lower_byte (take 6 s) = ''schema'' \<or>
     take 2 s = [CHR 0xC5, CHR 0xBF] \<and> map lower_byte (take 5 (drop 2 s)) = ''chema''"

fun fn :: "string \<Rightarrow> string" where
  "fn [] = []"
| "fn (c # s) =
     (if must_escape c \<or> (c = CHR ''-'' \<and> schema_follows s) then CHR ''%'' # fmt_02X c else [c]) @ fn s"

section \<open>Namers\<close>

datatype index_format = ChunkAndFile | FileOnly | ChunkOnly

record outputFileNamer =
  ChunkIndex :: nat
  FileIndex :: nat
  Policy :: string
  DB :: string
  nm_Table :: string
  nm_format :: index_format

definition newOutputFileNamer :: "tableMeta \<Rightarrow> nat \<Rightarrow> bool \<Rightarrow> bool \<Rightarrow> outputFileNamer" where
  "newOutputFileNamer meta chunkIdx rows fileSize =
     \<lparr>ChunkIndex = chunkIdx, FileIndex = 0, Policy = '''', DB = tm_database meta, nm_Table = tm_table meta,
      nm_format = (if rows \<and> fileSize then ChunkAndFile else if fileSize then FileOnly else ChunkOnly)\<rparr>"

text \<open>The formats \<open>%09d%04d\<close>, \<open>%09[2]d\<close> and \<open>%09[1]d\<close>.\<close>

definition Index :: "outputFileNamer \<Rightarrow> string" where
  "Index namer =
     (case nm_format namer of
        ChunkAndFile \<Rightarrow> fmt_pad 9 (ChunkIndex namer) @ fmt_pad 4 (FileIndex namer)
      | FileOnly \<Rightarrow> fmt_pad 9 (FileIndex namer)
      | ChunkOnly \<Rightarrow> fmt_pad 9 (ChunkIndex namer))"

datatype template_name = TSchema | TTable | TView | TSequence | TData | TPolicy

fun default_template :: "template_name \<Rightarrow> outputFileNamer \<Rightarrow> string" where
  "default_template TSchema n = fn (DB n) @ ''-schema-create''"
| "default_template TTable n = fn (DB n) @ ''.'' @ fn (nm_Table n) @ ''-schema''"
| "default_template TView n = fn (DB n) @ ''.'' @ fn (nm_Table n) @ ''-schema-view''"
| "default_template TSequence n = fn (DB n) @ ''.'' @ fn (nm_Table n) @ ''-schema-sequence''"
| "default_template TData n = fn (DB n) @ ''.'' @ fn (nm_Table n) @ ''.'' @ Index n"
| "default_template TPolicy n = fn (Policy n) @ ''-placement-policy-create''"

text \<open>
  \<open>render\<close>: the built-in template when no text was given; the text for query results; any other text is
  executed by the template package, the parameter \<open>tmpl\<close>.
\<close>

type_synonym template_engine = "string \<Rightarrow> template_name \<Rightarrow> outputFileNamer \<Rightarrow> error + string"

definition render :: "template_engine \<Rightarrow> string \<Rightarrow> template_name \<Rightarrow> outputFileNamer \<Rightarrow> error + string" where
  "render tmpl text sub namer =
     (if text = '''' then Inr (default_template sub namer)
      else if text = DefaultAnonymousOutputFileTemplateText \<and> sub = TData then Inr (''result.'' @ Index namer)
      else if text = DefaultAnonymousOutputFileTemplateText then Inr (default_template sub namer)
      else tmpl text sub namer)"

definition NextName ::
  "template_engine \<Rightarrow> string \<Rightarrow> string \<Rightarrow> outputFileNamer \<Rightarrow> outputFileNamer \<times> (error + string)" where
  "NextName tmpl text fileType namer =
     (namer\<lparr>FileIndex := FileIndex namer + 1\<rparr>,
      bindR (render tmpl text TData namer) (\<lambda>res. Inr (res @ ''.'' @ fileType)))"

fun compressFileSuffix :: "CompressType \<Rightarrow> string" where
  "compressFileSuffix NoCompression = ''''"
| "compressFileSuffix Gzip = ''.gz''"
| "compressFileSuffix Snappy = ''.snappy''"
| "compressFileSuffix Zstd = ''.zst''"

datatype FileFormat = FileFormatUnknown | FileFormatSQLText | FileFormatCSV

fun FileFormat_String :: "FileFormat \<Rightarrow> string" where
  "FileFormat_String FileFormatSQLText = map upper_byte FileFormatSQLTextString"
| "FileFormat_String FileFormatCSV = map upper_byte FileFormatCSVString"
| "FileFormat_String FileFormatUnknown = ''unknown''"

fun Extension :: "FileFormat \<Rightarrow> string" where
  "Extension FileFormatSQLText = FileFormatSQLTextString"
| "Extension FileFormatCSV = FileFormatCSVString"
| "Extension FileFormatUnknown = ''unknown_format''"

section \<open>Escaped names can be decoded\<close>

lemma special_facts:
  "must_escape CHR ''%''" "must_escape CHR ''.''" "\<not> must_escape CHR ''-''" "must_escape CHR ''/''"
  by (simp_all add: must_escape_def special_bytes_def)

lemma hex_upper_plain:
  assumes "n < 16"
  shows "\<not> must_escape (hex_upper n)"
proof -
  have b: "byte (hex_upper n) = (if n < 10 then 48 + n else 55 + n)"
    using assms by (simp add: hex_upper_def)
  have "byte d \<noteq> byte (hex_upper n)" if "d \<in> set special_bytes" for d
    using that assms unfolding b by (auto simp: special_bytes_def)
  with b show ?thesis by (auto simp: must_escape_def)
qed

lemma percent_decode_fn: "percent_decode (fn s) = Some s"
proof (induction s)
  case (Cons c s)
  obtain h l where hl: "fmt_02X c = [h, l]" using fmt_02X_two by blast
  then have u: "unhex [h, l] = Some [c]" using unhex_02X [of c] by simp
  show ?case
  proof (cases "must_escape c \<or> (c = CHR ''-'' \<and> schema_follows s)")
    case True
    then have "fn (c # s) = CHR ''%'' # h # l # fn s" by (simp add: hl)
    then show ?thesis using Cons u by simp
  next
    case False
    then have "fn (c # s) = c # fn s" "c \<noteq> CHR ''%''" using special_facts(1) by auto
    then show ?thesis using Cons by simp
  qed
qed simp

lemma fn_inj [simp]: "fn s = fn t \<longleftrightarrow> s = t"
  by (metis option.inject percent_decode_fn)

lemma fn_chars: "d \<in> set (fn s) \<Longrightarrow> d = CHR ''%'' \<or> \<not> must_escape d"
proof (induction s)
  case (Cons c s)
  obtain h l where "fmt_02X c = [h, l]" "\<not> must_escape h" "\<not> must_escape l"
    using fmt_02X_two [of c] hex_upper_plain by blast
  moreover have "set (fn (c # s)) = set (CHR ''%'' # fmt_02X c) \<union> set (fn s) \<or>
      \<not> must_escape c \<and> set (fn (c # s)) = insert c (set (fn s))"
    by auto
  ultimately show ?case using Cons by (auto simp del: fn.simps)
qed simp

lemma fn_no_dot: "CHR ''.'' \<notin> set (fn s)"
  using fn_chars [of "CHR ''.''"] special_facts by auto

text \<open>The escaping of names in file names can be undone: percent-decoding an escaped name gives the name
  back, so different names have different escaped forms, and an escaped name holds none of the characters
  that separate its parts or directories (dots, slashes, backslashes, control characters).\<close>

theorem escaped_name_decodable:
  "percent_decode (fn s) = Some s \<and> (\<forall>c. must_escape c \<and> c \<noteq> CHR ''%'' \<longrightarrow> c \<notin> set (fn s))"
  using percent_decode_fn fn_chars by blast

theorem escaped_name_decodable_witness:
  "percent_decode (fn ''a.b-Schema'') = Some ''a.b-Schema'' \<and> CHR ''.'' \<notin> set (fn ''a.b-Schema'')"
  using escaped_name_decodable [of "''a.b-Schema''"] special_facts by auto

section \<open>Different files have different names\<close>

text \<open>Everything a dump writes beside its metadata file.\<close>

datatype out_file =
    SchemaFile string
  | TableFile string string
  | ViewFile string string
  | SequenceFile string string
  | DataFile string string nat nat

text \<open>The path of a file: the name the writer renders, its extension and the compression suffix.\<close>

fun out_path :: "bool \<Rightarrow> bool \<Rightarrow> FileFormat \<Rightarrow> CompressType \<Rightarrow> tableMeta \<Rightarrow> out_file \<Rightarrow> string" where
  "out_path rows fileSize fmt ct m (SchemaFile db) =
     default_template TSchema ((newOutputFileNamer m 0 rows fileSize)\<lparr>DB := db\<rparr>) @ ''.sql'' @ compressFileSuffix ct"
| "out_path rows fileSize fmt ct m (TableFile db t) =
     default_template TTable ((newOutputFileNamer m 0 rows fileSize)\<lparr>DB := db, nm_Table := t\<rparr>) @ ''.sql'' @ compressFileSuffix ct"
| "out_path rows fileSize fmt ct m (ViewFile db t) =
     default_template TView ((newOutputFileNamer m 0 rows fileSize)\<lparr>DB := db, nm_Table := t\<rparr>) @ ''.sql'' @ compressFileSuffix ct"
| "out_path rows fileSize fmt ct m (SequenceFile db t) =
     default_template TSequence ((newOutputFileNamer m 0 rows fileSize)\<lparr>DB := db, nm_Table := t\<rparr>) @ ''.sql'' @ compressFileSuffix ct"
| "out_path rows fileSize fmt ct m (DataFile db t chunk file) =
     default_template TData ((newOutputFileNamer m chunk rows fileSize)\<lparr>DB := db, nm_Table := t, FileIndex := file\<rparr>) @
     ''.'' @ Extension fmt @ compressFileSuffix ct"

text \<open>
  The files a dump can ask for: without a row limit a table is one chunk, without a size limit a chunk is
  one file, and chunk numbers stay below the billion the nine digits hold.
\<close>

fun out_possible :: "bool \<Rightarrow> bool \<Rightarrow> out_file \<Rightarrow> bool" where
  "out_possible rows fileSize (DataFile db t chunk file) =
     ((rows \<or> chunk = 0) \<and> (fileSize \<or> file = 0) \<and> chunk < 10 ^ 9)"
| "out_possible rows fileSize _ = True"

definition dots :: "string \<Rightarrow> nat" where
  "dots s = length (filter (\<lambda>c. c = CHR ''.'') s)"

lemma dots_append [simp]: "dots (s @ t) = dots s + dots t"
  by (simp add: dots_def)

lemma dots_Cons [simp]: "dots (c # s) = (if c = CHR ''.'' then 1 else 0) + dots s" "dots [] = 0"
  by (simp_all add: dots_def)

lemma dots_none: "CHR ''.'' \<notin> set s \<Longrightarrow> dots s = 0"
  by (auto simp: dots_def filter_empty_conv)

lemma dots_fn [simp]: "dots (fn s) = 0"
  by (rule dots_none) (rule fn_no_dot)

lemma fmt_pad_no_dot: "CHR ''.'' \<notin> set (fmt_pad w n)"
  using fmt_pad_digits [of "CHR ''.''" w n] by auto

lemma dots_Index [simp]: "dots (Index n) = 0"
  by (rule dots_none) (auto simp: Index_def fmt_pad_no_dot split: index_format.splits)

lemma dots_Extension [simp]: "dots (Extension f) = 0"
  by (cases f) (simp_all add: FileFormatSQLTextString_def FileFormatCSVString_def)

lemma dot_split:
  "CHR ''.'' \<notin> set a \<Longrightarrow> CHR ''.'' \<notin> set b \<Longrightarrow> a @ CHR ''.'' # x = b @ CHR ''.'' # y \<longleftrightarrow> a = b \<and> x = y"
  using split2_append [of "CHR ''.''" a x] split2_append [of "CHR ''.''" b y]
  by (metis option.inject prod.inject)

lemma fn_dot_split: "fn a @ CHR ''.'' # x = fn b @ CHR ''.'' # y \<longleftrightarrow> a = b \<and> x = y"
  by (simp add: dot_split fn_no_dot)

lemma Index_unique:
  assumes "rows \<or> c = 0 \<and> c' = 0" "fileSize \<or> f = 0 \<and> f' = 0" "c < 10 ^ 9" "c' < 10 ^ 9"
    and "Index ((newOutputFileNamer m c rows fileSize)\<lparr>DB := db, nm_Table := t, FileIndex := f\<rparr>) =
         Index ((newOutputFileNamer m c' rows fileSize)\<lparr>DB := db, nm_Table := t, FileIndex := f'\<rparr>)"
  shows "c = c' \<and> f = f'"
proof (cases "rows \<and> fileSize")
  case True
  with assms(5) have eq: "fmt_pad 9 c @ fmt_pad 4 f = fmt_pad 9 c' @ fmt_pad 4 f'"
    by (simp add: Index_def newOutputFileNamer_def)
  have "length (fmt_pad 9 c) = length (fmt_pad 9 c')" using assms(3,4) by (simp add: length_fmt_pad)
  with eq have "fmt_pad 9 c = fmt_pad 9 c' \<and> fmt_pad 4 f = fmt_pad 4 f'" by simp
  then show ?thesis by simp
next
  case False
  with assms show ?thesis by (auto simp: Index_def newOutputFileNamer_def split: if_splits)
qed

definition sample_tm :: tableMeta where
  "sample_tm =
     \<lparr>tm_database = ''s'', tm_table = ''t'', tm_colTypes = [], tm_selectedField = ''*'', tm_selectColumns = '''',
      tm_selectedLen = 1, tm_specCmts = [], tm_showCreateTable = '''', tm_showCreateView = '''',
      tm_avgRowLength = 0, tm_hasImplicitRowID = False\<rparr>"

text \<open>C10: No two files of a dump share a name: with the built-in template, two of the files a dump can write
  (a schema, a table, view or sequence definition, or one file of one chunk of a table's data) have the
  same path only if they are the same file, whatever the schemas and tables are called.\<close>

theorem output_paths_distinct:
  assumes "out_possible rows fileSize f" "out_possible rows fileSize g" "fmt \<noteq> FileFormatUnknown"
  shows "out_path rows fileSize fmt ct m f = out_path rows fileSize fmt ct m g \<longleftrightarrow> f = g"
proof
  assume eq: "out_path rows fileSize fmt ct m f = out_path rows fileSize fmt ct m g"
  then have "dots (out_path rows fileSize fmt ct m f) = dots (out_path rows fileSize fmt ct m g)" by simp
  with eq consider "f = g" | db t c x db' t' c' x' where "f = DataFile db t c x" "g = DataFile db' t' c' x'"
    by (cases f; cases g) (auto simp: fn_dot_split)
  then show "f = g"
  proof cases
    case 2
    with eq have "db = db' \<and> t = t' \<and>
        Index ((newOutputFileNamer m c rows fileSize)\<lparr>DB := db, nm_Table := t, FileIndex := x\<rparr>) =
        Index ((newOutputFileNamer m c' rows fileSize)\<lparr>DB := db, nm_Table := t, FileIndex := x'\<rparr>)"
      by (auto simp: fn_dot_split)
    with 2 assms(1,2) Index_unique [where rows = rows and fileSize = fileSize and c = c and c' = c' and f = x and f' = x' and m = m and db = db and t = t] show ?thesis by auto
  qed
qed simp

theorem output_paths_distinct_witness:
  "out_path True True FileFormatSQLText Gzip sample_tm (DataFile ''a'' ''b.c'' 3 1) \<noteq>
   out_path True True FileFormatSQLText Gzip sample_tm (DataFile ''a.b'' ''c'' 3 1)"
  using output_paths_distinct [of True True "DataFile ''a'' ''b.c'' 3 1" "DataFile ''a.b'' ''c'' 3 1"
      FileFormatSQLText Gzip sample_tm] by simp

end
