(* ===== verification/File_Writer.thy ===== *)
theory File_Writer
  imports Row_Iter File_Naming
begin

text \<open>
  Writing to files of the external storage (\<open>export/writer_util.go\<close>): opening and closing a file, the
  intercepting writer that creates its file at the first write, and the text of metadata files.

  The storage is third-party code, the parameter \<open>S\<close>: an operation each to create a file, to append to
  it and to close it, over a state of its own. What the program relies on is \<open>storage_laws\<close>: a successful
  creation makes the file empty, a successful write appends to it (compression is undone by who reads the
  file, \<open>contents\<close>), a successful close leaves it, and no operation touches another file.
\<close>

section \<open>The external storage\<close>

record 's ext_storage =
  sto_create :: "CompressType \<Rightarrow> string \<Rightarrow> 's \<Rightarrow> 's \<times> error option"
  sto_write :: "string \<Rightarrow> bytes \<Rightarrow> 's \<Rightarrow> 's \<times> error option"
  sto_close :: "string \<Rightarrow> 's \<Rightarrow> 's \<times> error option"

type_synonym 's contents = "'s \<Rightarrow> string \<Rightarrow> bytes option"

definition storage_laws :: "'s ext_storage \<Rightarrow> 's contents \<Rightarrow> bool" where
  "storage_laws S contents \<longleftrightarrow>
     (\<forall>ct p s. snd (sto_create S ct p s) = None \<longrightarrow> contents (fst (sto_create S ct p s)) p = Some []) \<and>
     (\<forall>p b s c. snd (sto_write S p b s) = None \<longrightarrow> contents s p = Some c \<longrightarrow>
        contents (fst (sto_write S p b s)) p = Some (c @ b)) \<and>
     (\<forall>p s. snd (sto_close S p s) = None \<longrightarrow> contents (fst (sto_close S p s)) p = contents s p) \<and>
     (\<forall>ct p q b s. q \<noteq> p \<longrightarrow>
        contents (fst (sto_create S ct p s)) q = contents s q \<and>
        contents (fst (sto_write S p b s)) q = contents s q \<and>
        contents (fst (sto_close S p s)) q = contents s q)"

lemma storage_create:
  "storage_laws S contents \<Longrightarrow> sto_create S ct p s = (s', None) \<Longrightarrow> contents s' p = Some []"
  unfolding storage_laws_def by (metis fst_conv snd_conv)

lemma storage_write:
  "storage_laws S contents \<Longrightarrow> sto_write S p b s = (s', None) \<Longrightarrow> contents s p = Some c \<Longrightarrow>
    contents s' p = Some (c @ b)"
  unfolding storage_laws_def by (metis fst_conv snd_conv)

lemma storage_close:
  "storage_laws S contents \<Longrightarrow> sto_close S p s = (s', None) \<Longrightarrow> contents s' p = contents s p"
  unfolding storage_laws_def by (metis fst_conv snd_conv)

lemma storage_frame:
  assumes "storage_laws S contents" "q \<noteq> p"
  shows "sto_create S ct p s = (s', e) \<Longrightarrow> contents s' q = contents s q"
    and "sto_write S p b s = (s', e) \<Longrightarrow> contents s' q = contents s q"
    and "sto_close S p s = (s', e) \<Longrightarrow> contents s' q = contents s q"
  using assms unfolding storage_laws_def by (metis fst_conv)+

text \<open>A storage that keeps its files in memory; it shows that the laws can hold.\<close>

definition mem_storage :: "(string \<rightharpoonup> bytes) ext_storage" where
  "mem_storage =
     \<lparr>sto_create = (\<lambda>ct p s. (s(p \<mapsto> []), None)),
      sto_write = (\<lambda>p b s. (s(p \<mapsto> (case s p of None \<Rightarrow> b | Some c \<Rightarrow> c @ b)), None)),
      sto_close = (\<lambda>p s. (s, None))\<rparr>"

lemma mem_storage_laws: "storage_laws mem_storage (\<lambda>s. s)"
  by (auto simp: storage_laws_def mem_storage_def split: option.splits)

section \<open>Plain writes\<close>

definition buildFileWriter ::
  "'s ext_storage \<Rightarrow> string \<Rightarrow> CompressType \<Rightarrow> 's \<Rightarrow> 's \<times> (error + string)" where
  "buildFileWriter S fileName compressType s =
     (let path = fileName @ compressFileSuffix compressType
      in case sto_create S compressType path s of
           (s', Some e) \<Rightarrow> (s', Inl e)
         | (s', None) \<Rightarrow> (s', Inr path))"

definition write_str :: "'s ext_storage \<Rightarrow> string \<Rightarrow> string \<Rightarrow> 's \<Rightarrow> 's \<times> error option" where
  "write_str S path str s = sto_write S path str s"

text \<open>\<open>WriteMeta\<close>: the comments of the iterator, a line each, and then the statement.\<close>

function write_comments :: "'s ext_storage \<Rightarrow> string \<Rightarrow> stringIter \<Rightarrow> 's \<Rightarrow> 's \<times> error option" where
  "write_comments S path specCmtIter s =
     (if stringIter_HasNext specCmtIter
      then (case stringIter_Next specCmtIter of
              (specCmtIter', c) \<Rightarrow>
                (case write_str S path (c @ [NL]) s of
                   (s', Some e) \<Rightarrow> (s', Some e)
                 | (s', None) \<Rightarrow> write_comments S path specCmtIter' s'))
      else (s, None))"
  by pat_completeness auto
termination
  by (relation "measure (\<lambda>(S, path, it, s). length (si_ss it) - si_idx it)")
     (auto simp: stringIter_HasNext_def stringIter_Next_def split: if_splits)

declare write_comments.simps [simp del]

definition WriteMeta :: "'s ext_storage \<Rightarrow> metaData \<Rightarrow> string \<Rightarrow> 's \<Rightarrow> 's \<times> error option" where
  "WriteMeta S meta path s =
     (case write_comments S path (newStringIter (md_specCmts meta)) s of
        (s', Some e) \<Rightarrow> (s', Some e)
      | (s', None) \<Rightarrow> write_str S path (MetaSQL meta) s')"

section \<open>The intercepting writer\<close>

text \<open>
  \<open>buildInterceptFileWriter\<close> does not touch the storage; the file is created, once, by the first
  \<open>Write\<close>. \<open>newWriterError\<close> wraps an error without changing its text and is left out.
\<close>

record InterceptFileWriter =
  iw_path :: string
  iw_compress :: CompressType
  iw_once :: bool
  iw_open :: bool
  iw_SomethingIsWritten :: bool
  iw_err :: "error option"

definition buildInterceptFileWriter :: "string \<Rightarrow> CompressType \<Rightarrow> InterceptFileWriter" where
  "buildInterceptFileWriter fileName compressType =
     \<lparr>iw_path = fileName @ compressFileSuffix compressType, iw_compress = compressType,
      iw_once = False, iw_open = False, iw_SomethingIsWritten = False, iw_err = None\<rparr>"

definition iw_init :: "'s ext_storage \<Rightarrow> InterceptFileWriter \<times> 's \<Rightarrow> InterceptFileWriter \<times> 's" where
  "iw_init S ws =
     (case ws of (w, s) \<Rightarrow>
        if iw_once w then (w, s)
        else (case sto_create S (iw_compress w) (iw_path w) s of
                (s', Some e) \<Rightarrow> (w\<lparr>iw_once := True, iw_err := Some e\<rparr>, s')
              | (s', None) \<Rightarrow> (w\<lparr>iw_once := True, iw_open := True\<rparr>, s')))"

definition iw_Write ::
  "'s ext_storage \<Rightarrow> bytes \<Rightarrow> InterceptFileWriter \<times> 's \<Rightarrow> (InterceptFileWriter \<times> 's) \<times> error option" where
  "iw_Write S p ws =
     (case iw_init S ws of
        (w, s) \<Rightarrow>
          let w' = (if length p > 0 then w\<lparr>iw_SomethingIsWritten := True\<rparr> else w)
          in case iw_err w of
               Some e \<Rightarrow> ((w', s), Some (Annotatef e ''open file error'' []))
             | None \<Rightarrow> (case sto_write S (iw_path w) p s of (s', r) \<Rightarrow> ((w', s'), r)))"

text \<open>The tear-down routine closes the file if one was opened.\<close>

definition iw_tearDown :: "'s ext_storage \<Rightarrow> InterceptFileWriter \<times> 's \<Rightarrow> 's \<times> error option" where
  "iw_tearDown S ws = (case ws of (w, s) \<Rightarrow> if iw_open w then sto_close S (iw_path w) s else (s, None))"

definition part_number_text :: string where
  "part_number_text = ''Part number must be an integer between 1 and 10000''"

definition writeBytes ::
  "'s ext_storage \<Rightarrow> bytes \<Rightarrow> InterceptFileWriter \<times> 's \<Rightarrow> (InterceptFileWriter \<times> 's) \<times> error option" where
  "writeBytes S p ws =
     (case iw_Write S p ws of
        (ws', None) \<Rightarrow> (ws', None)
      | (ws', Some e) \<Rightarrow>
          (ws', Some (if contains_str part_number_text (error_text e)
                      then Annotatef e ''workaround: dump file exceeding 50GB, please specify -F=256MB -r=200000 to avoid this problem'' []
                      else e)))"

section \<open>What was written\<close>

text \<open>The bytes an intercepting writer has put into its file: none before the file is created.\<close>

definition written :: "'s contents \<Rightarrow> InterceptFileWriter \<times> 's \<Rightarrow> bytes option" where
  "written contents ws =
     (case ws of (w, s) \<Rightarrow>
        if \<not> iw_once w then Some []
        else if iw_err w = None \<and> iw_open w then contents s (iw_path w) else None)"

lemma iw_init_spec:
  assumes "storage_laws S contents" "iw_init S (w, s) = (w', s')" "written contents (w, s) = Some c"
    "\<not> iw_once w \<Longrightarrow> iw_err w = None"
  shows "iw_once w' \<and> iw_path w' = iw_path w \<and> iw_SomethingIsWritten w' = iw_SomethingIsWritten w \<and>
    (iw_err w' = None \<longrightarrow> iw_open w' \<and> contents s' (iw_path w') = Some c) \<and>
    (\<forall>q. q \<noteq> iw_path w \<longrightarrow> contents s' q = contents s q)"
proof (cases "iw_once w")
  case False
  obtain s1 r where c: "sto_create S (iw_compress w) (iw_path w) s = (s1, r)" by fastforce
  then have "s' = s1" using assms(2) False by (auto simp: iw_init_def split: option.splits)
  then show ?thesis
    using assms c False storage_frame(1) [OF assms(1) _ c] storage_create [OF assms(1)]
    by (auto simp: iw_init_def written_def split: option.splits)
qed (use assms in \<open>auto simp: iw_init_def written_def split: if_splits\<close>)

lemma iw_Write_spec:
  assumes "storage_laws S contents" "iw_Write S p (w, s) = ((w', s'), r)" "written contents (w, s) = Some c"
    "\<not> iw_once w \<Longrightarrow> iw_err w = None"
  shows "iw_once w' \<and> iw_path w' = iw_path w \<and>
    iw_SomethingIsWritten w' = (iw_SomethingIsWritten w \<or> p \<noteq> []) \<and>
    (r = None \<longrightarrow> written contents (w', s') = Some (c @ p)) \<and>
    (\<forall>q. q \<noteq> iw_path w \<longrightarrow> contents s' q = contents s q)"
proof -
  obtain w1 s1 where i: "iw_init S (w, s) = (w1, s1)" by fastforce
  note sp = iw_init_spec [OF assms(1) i assms(3,4)]
  show ?thesis
  proof (cases "iw_err w1")
    case (Some e)
    then show ?thesis using assms(2) i sp by (auto simp: iw_Write_def Let_def)
  next
    case None
    then have t: "sto_write S (iw_path w1) p s1 = (s', r)"
      and w': "w' = (if p \<noteq> [] then w1\<lparr>iw_SomethingIsWritten := True\<rparr> else w1)"
      using assms(2) i by (auto simp: iw_Write_def Let_def split: prod.splits)
    have "contents s' q = contents s q" if "q \<noteq> iw_path w" for q
      using storage_frame(2) [OF assms(1) _ t] sp that by simp
    moreover have "r = None \<longrightarrow> contents s' (iw_path w1) = Some (c @ p)"
      using storage_write [OF assms(1)] t sp None by blast
    ultimately show ?thesis using sp None w' by (auto simp: written_def)
  qed
qed

end
