(* ===== verification/Writer_Pipe.thy ===== *)
theory Writer_Pipe
  imports File_Writer
begin

text \<open>
  The pipe between the goroutine that formats rows and the goroutine that writes them
  (\<open>writerPipe\<close> of \<open>export/writer_util.go\<close>).

  The formatting side and \<open>Run\<close> are concurrent. \<open>pipe_recv\<close> is one turn of the loop of \<open>Run\<close>; how many
  turns happen between two operations of the formatting side, and which ready case a \<open>select\<close> takes,
  is decided by a schedule, a parameter of the clients, so that a statement for all schedules is one
  for all interleavings. A send that finds the channel full waits until \<open>Run\<close> has made room.

  The contract of the pipe is the locale \<open>byte_pipe\<close>: unless an error was recorded, what was written
  followed by what is queued is exactly what was sent.
\<close>

section \<open>The pipe\<close>

text \<open>The two gauges a writer changes, as exact numbers (the code keeps floating-point numbers).\<close>

record metrics =
  finishedSizeGauge :: int
  finishedRowsGauge :: int

record 's writerPipe =
  wp_input :: "bytes list"
  wp_errCh :: "error option"
  wp_errOccurs :: bool \<comment> \<open>a local variable of \<open>Run\<close>\<close>
  wp_metrics :: metrics
  wp_finishedFileSize :: u64
  wp_currentFileSize :: u64
  wp_currentStatementSize :: u64
  wp_fileSizeLimit :: u64
  wp_statementSizeLimit :: u64
  wp_w :: "InterceptFileWriter \<times> 's"

definition newWriterPipe :: "InterceptFileWriter \<times> 's \<Rightarrow> u64 \<Rightarrow> u64 \<Rightarrow> metrics \<Rightarrow> 's writerPipe" where
  "newWriterPipe w fileSizeLimit statementSizeLimit m =
     \<lparr>wp_input = [], wp_errCh = None, wp_errOccurs = False, wp_metrics = m,
      wp_finishedFileSize = 0, wp_currentFileSize = 0, wp_currentStatementSize = 0,
      wp_fileSizeLimit = fileSizeLimit, wp_statementSizeLimit = statementSizeLimit, wp_w = w\<rparr>"

text \<open>One turn of \<open>Run\<close>: after an error the remaining buffers are received and dropped.\<close>

definition pipe_recv :: "'s ext_storage \<Rightarrow> 's writerPipe \<Rightarrow> 's writerPipe" where
  "pipe_recv S p =
     (case wp_input p of
        [] \<Rightarrow> p
      | b # rest \<Rightarrow>
          if wp_errOccurs p then p\<lparr>wp_input := rest\<rparr>
          else (case writeBytes S b (wp_w p) of
                  (w', err) \<Rightarrow>
                    let p1 = p\<lparr>wp_input := rest, wp_w := w',
                               wp_metrics := (wp_metrics p)\<lparr>finishedSizeGauge := finishedSizeGauge (wp_metrics p) + int (length b)\<rparr>,
                               wp_finishedFileSize := wp_finishedFileSize p + of_nat (length b)\<rparr>
                    in case err of None \<Rightarrow> p1 | Some e \<Rightarrow> p1\<lparr>wp_errOccurs := True, wp_errCh := Some e\<rparr>))"

definition pipe_Run :: "'s ext_storage \<Rightarrow> nat \<Rightarrow> 's writerPipe \<Rightarrow> 's writerPipe" where
  "pipe_Run S n = pipe_recv S ^^ n"

definition AddFileSize :: "u64 \<Rightarrow> 's writerPipe \<Rightarrow> 's writerPipe" where
  "AddFileSize fileSize p =
     p\<lparr>wp_currentFileSize := wp_currentFileSize p + fileSize,
       wp_currentStatementSize := wp_currentStatementSize p + fileSize\<rparr>"

text \<open>\<open>Error\<close> takes the recorded error out of its channel.\<close>

definition pipe_Error :: "'s writerPipe \<Rightarrow> 's writerPipe \<times> error option" where
  "pipe_Error p = (p\<lparr>wp_errCh := None\<rparr>, wp_errCh p)"

definition ShouldSwitchFile :: "'s writerPipe \<Rightarrow> bool" where
  "ShouldSwitchFile p \<longleftrightarrow> wp_fileSizeLimit p \<noteq> UnspecifiedSize \<and> wp_currentFileSize p \<ge> wp_fileSizeLimit p"

definition ShouldSwitchStatement :: "'s writerPipe \<Rightarrow> bool" where
  "ShouldSwitchStatement p \<longleftrightarrow>
     (wp_fileSizeLimit p \<noteq> UnspecifiedSize \<and> wp_currentFileSize p \<ge> wp_fileSizeLimit p) \<or>
     (wp_statementSizeLimit p \<noteq> UnspecifiedSize \<and> wp_currentStatementSize p \<ge> wp_statementSizeLimit p)"

section \<open>The operations of the formatting side\<close>

text \<open>\<open>wp.input <- bf\<close>: the channel holds 8 buffers.\<close>

definition pipe_send :: "'s ext_storage \<Rightarrow> bytes \<Rightarrow> 's writerPipe \<Rightarrow> 's writerPipe" where
  "pipe_send S bf p =
     (let p' = (if length (wp_input p) \<ge> 8 then pipe_recv S p else p)
      in p'\<lparr>wp_input := wp_input p' @ [bf]\<rparr>)"

text \<open>
  The \<open>select\<close> of a full buffer: the schedule says how far \<open>Run\<close> got and which case is taken; the
  error case is ready only if an error was recorded.
\<close>

datatype select_case = ctxDone error | errReady | inputReady

definition pipe_select ::
  "'s ext_storage \<Rightarrow> nat \<times> select_case \<Rightarrow> bytes \<Rightarrow> 's writerPipe \<Rightarrow> 's writerPipe \<times> error option" where
  "pipe_select S choice bf p =
     (case choice of (n, c) \<Rightarrow>
        let p1 = pipe_Run S n p
        in case c of
             ctxDone e \<Rightarrow> (p1, Some e)
           | errReady \<Rightarrow>
               (case wp_errCh p1 of
                  Some e \<Rightarrow> (p1\<lparr>wp_errCh := None\<rparr>, Some e)
                | None \<Rightarrow> (pipe_send S bf p1, None))
           | inputReady \<Rightarrow> (pipe_send S bf p1, None))"

text \<open>\<open>close(wp.input)\<close> and \<open><-wp.closed\<close>: \<open>Run\<close> empties the channel before it returns.\<close>

definition pipe_close :: "'s ext_storage \<Rightarrow> 's writerPipe \<Rightarrow> 's writerPipe" where
  "pipe_close S p = pipe_Run S (length (wp_input p)) p"

section \<open>The contract\<close>

locale byte_pipe =
  fixes recv :: "'p \<Rightarrow> 'p"
    and send :: "bytes \<Rightarrow> 'p \<Rightarrow> 'p"
    and queue :: "'p \<Rightarrow> bytes list"
    and sent :: "'p \<Rightarrow> bytes \<Rightarrow> bool"
  assumes queue_recv: "queue (recv p) = tl (queue p)"
    and sent_recv: "sent p d \<Longrightarrow> sent (recv p) d"
    and sent_send: "sent p d \<Longrightarrow> sent (send b p) (d @ b)"
begin

lemma sent_run: "sent p d \<Longrightarrow> sent ((recv ^^ n) p) d"
  by (induction n) (simp_all add: sent_recv)

lemma queue_run: "queue ((recv ^^ n) p) = drop n (queue p)"
  by (induction n) (simp_all add: queue_recv drop_Suc tl_drop)

lemma drained:
  "sent p d \<Longrightarrow> sent ((recv ^^ length (queue p)) p) d \<and> queue ((recv ^^ length (queue p)) p) = []"
  by (simp add: sent_run queue_run)

end

text \<open>
  What is known of a pipe that writes to \<open>path\<close> of a storage whose other files are as in \<open>s0\<close>, after \<open>d\<close>
  was sent: an error is on record, or the file and the queue hold \<open>d\<close> together.
\<close>

definition fresh_ok :: "InterceptFileWriter \<Rightarrow> bool" where
  "fresh_ok w \<longleftrightarrow> (\<not> iw_once w \<longrightarrow> iw_err w = None \<and> \<not> iw_open w \<and> \<not> iw_SomethingIsWritten w)"

definition pipe_sent :: "'s ext_storage \<Rightarrow> 's contents \<Rightarrow> string \<Rightarrow> 's \<Rightarrow> 's writerPipe \<Rightarrow> bytes \<Rightarrow> bool" where
  "pipe_sent S contents path s0 p d \<longleftrightarrow>
     storage_laws S contents \<and> fresh_ok (fst (wp_w p)) \<and> iw_path (fst (wp_w p)) = path \<and>
     (\<forall>q. q \<noteq> path \<longrightarrow> contents (snd (wp_w p)) q = contents s0 q) \<and>
     (if wp_errOccurs p then wp_errCh p \<noteq> None
      else wp_errCh p = None \<and>
        (\<exists>c. written contents (wp_w p) = Some c \<and> d = c @ concat (wp_input p) \<and>
             iw_SomethingIsWritten (fst (wp_w p)) = (c \<noteq> [])))"

lemma written_fresh: "fresh_ok w \<Longrightarrow> written contents (w, s) = Some c \<Longrightarrow> \<not> iw_once w \<Longrightarrow> iw_err w = None"
  by (simp add: fresh_ok_def)

lemma writeBytes_spec:
  assumes "storage_laws S contents" "writeBytes S b (w, s) = ((w', s'), r)" "written contents (w, s) = Some c"
    "fresh_ok w"
  shows "fresh_ok w' \<and> iw_path w' = iw_path w \<and> iw_SomethingIsWritten w' = (iw_SomethingIsWritten w \<or> b \<noteq> []) \<and>
    (r = None \<longrightarrow> written contents (w', s') = Some (c @ b)) \<and>
    (\<forall>q. q \<noteq> iw_path w \<longrightarrow> contents s' q = contents s q)"
proof -
  obtain r0 where "iw_Write S b (w, s) = ((w', s'), r0)" "r = None \<longleftrightarrow> r0 = None"
    using assms(2) by (auto simp: writeBytes_def split: prod.splits option.splits)
  with iw_Write_spec [OF assms(1) _ assms(3), of b w' s' r0] assms(4) show ?thesis
    by (auto simp: fresh_ok_def)
qed

lemma pipe_recv_queue: "wp_input (pipe_recv S p) = tl (wp_input p)"
  by (auto simp: pipe_recv_def Let_def split: list.splits prod.splits option.splits)

lemma pipe_sent_recv:
  assumes "pipe_sent S contents path s0 p d"
  shows "pipe_sent S contents path s0 (pipe_recv S p) d"
proof (cases "wp_input p = [] \<or> wp_errOccurs p")
  case True
  then show ?thesis using assms by (auto simp: pipe_recv_def pipe_sent_def split: list.splits)
next
  case False
  then obtain b rest w s w' s' r where q: "wp_input p = b # rest" "wp_w p = (w, s)"
      "writeBytes S b (w, s) = ((w', s'), r)" "\<not> wp_errOccurs p"
    by (metis list.exhaust surj_pair)
  from assms q obtain c where c: "written contents (w, s) = Some c" "d = c @ concat (wp_input p)"
      "iw_SomethingIsWritten w = (c \<noteq> [])" "fresh_ok w" "storage_laws S contents" "iw_path w = path"
      "\<forall>q. q \<noteq> path \<longrightarrow> contents s q = contents s0 q" "wp_errCh p = None"
    by (auto simp: pipe_sent_def)
  from writeBytes_spec [OF c(5) q(3) c(1,4)] c q show ?thesis
    by (cases r) (auto simp: pipe_sent_def pipe_recv_def Let_def)
qed

lemma pipe_sent_send:
  assumes "pipe_sent S contents path s0 p d"
  shows "pipe_sent S contents path s0 (pipe_send S b p) (d @ b)"
proof -
  have "pipe_sent S contents path s0 (p'\<lparr>wp_input := wp_input p' @ [b]\<rparr>) (d @ b)"
    if "pipe_sent S contents path s0 p' d" for p'
    using that by (auto simp: pipe_sent_def)
  with assms pipe_sent_recv [OF assms] show ?thesis by (auto simp: pipe_send_def Let_def)
qed

interpretation pipe: byte_pipe "pipe_recv S" "pipe_send S" wp_input "pipe_sent S contents path s0"
  for S contents path s0
  by unfold_locales (simp_all add: pipe_recv_queue pipe_sent_recv pipe_sent_send)

text \<open>The sizes and limits do not change while \<open>Run\<close> works.\<close>

definition pipe_sizes :: "'s writerPipe \<Rightarrow> u64 \<times> u64 \<times> u64 \<times> u64" where
  "pipe_sizes p = (wp_currentFileSize p, wp_currentStatementSize p, wp_fileSizeLimit p, wp_statementSizeLimit p)"

lemma pipe_sizes_recv [simp]: "pipe_sizes (pipe_recv S p) = pipe_sizes p"
  by (auto simp: pipe_sizes_def pipe_recv_def Let_def split: list.splits prod.splits option.splits)

lemma pipe_sizes_run [simp]: "pipe_sizes (pipe_Run S n p) = pipe_sizes p"
  unfolding pipe_Run_def by (induction n) simp_all

lemma pipe_sizes_send [simp]: "pipe_sizes (pipe_send S b p) = pipe_sizes p"
proof -
  have "pipe_sizes (p'\<lparr>wp_input := q\<rparr>) = pipe_sizes p'" for p' :: "'a writerPipe" and q
    by (simp add: pipe_sizes_def)
  then show ?thesis by (simp add: pipe_send_def Let_def)
qed

lemma pipe_select_spec:
  assumes "pipe_select S ch b p = (p', None)" "pipe_sent S contents path s0 p d"
  shows "pipe_sent S contents path s0 p' (d @ b) \<and> pipe_sizes p' = pipe_sizes p"
  using assms pipe.sent_run [of S contents path s0 p d "fst ch"]
  by (auto simp: pipe_select_def pipe_sent_send Let_def pipe_Run_def [symmetric]
      split: prod.splits select_case.splits option.splits)

text \<open>Once closed, a pipe has written everything or has an error to report.\<close>

lemma pipe_close_spec:
  assumes "pipe_sent S contents path s0 p d"
  shows "wp_input (pipe_close S p) = []" "pipe_sent S contents path s0 (pipe_close S p) d"
    "wp_errCh (pipe_close S p) = None \<Longrightarrow>
       written contents (wp_w (pipe_close S p)) = Some d \<and>
       iw_SomethingIsWritten (fst (wp_w (pipe_close S p))) = (d \<noteq> [])"
proof -
  show q: "wp_input (pipe_close S p) = []" and s: "pipe_sent S contents path s0 (pipe_close S p) d"
    using pipe.drained [OF assms] by (simp_all add: pipe_close_def pipe_Run_def)
  show "written contents (wp_w (pipe_close S p)) = Some d \<and>
       iw_SomethingIsWritten (fst (wp_w (pipe_close S p))) = (d \<noteq> [])"
    if "wp_errCh (pipe_close S p) = None"
    using q s that by (auto simp: pipe_sent_def split: if_splits)
qed

end
