(* ===== verification/Write_Insert.thy ===== *)
theory Write_Insert
  imports Writer_Pipe
begin

text \<open>
  Writing the rows of a table into one file: \<open>WriteInsert\<close>, \<open>WriteInsertInCsv\<close> and the choice between
  them (\<open>export/writer_util.go\<close>).

  The loops format rows into a buffer, hand the buffer to the pipe when it has grown to \<open>lengthLimit\<close>,
  and end when the rows are used up or the file is large enough. They are partial functions, since they
  end only with the iterator; that they do end is proved. The schedule of the pipe and the moment the
  deferred \<open>cancel\<close> stops it are the parameter \<open>env\<close>.
\<close>

record pipe_env =
  pe_select :: "nat \<Rightarrow> nat \<times> select_case"
  pe_cancel :: nat

text \<open>The variables of the two functions: iterator, buffer, row receivers, pipe, counters, selects made.\<close>

record 's wstate =
  ws_it :: SQLRowIter
  ws_bf :: bytes
  ws_row :: "RowReceiverStringer list"
  ws_pipe :: "'s writerPipe"
  ws_counter :: u64
  ws_lastCounter :: u64
  ws_selects :: nat

type_synonym 's insert_result = "SQLRowIter \<times> (InterceptFileWriter \<times> 's) \<times> metrics \<times> u64 \<times> error option"

definition lengthLimit :: nat where
  "lengthLimit = 1048576"

definition add_rows :: "int \<Rightarrow> 's writerPipe \<Rightarrow> 's writerPipe" where
  "add_rows n p = p\<lparr>wp_metrics := (wp_metrics p)\<lparr>finishedRowsGauge := finishedRowsGauge (wp_metrics p) + n\<rparr>\<rparr>"

text \<open>The flush at the end of a loop body: nothing below the limit, else the \<open>select\<close>.\<close>

definition flush_full ::
  "'s ext_storage \<Rightarrow> pipe_env \<Rightarrow> 's wstate \<Rightarrow> 's wstate \<times> error option" where
  "flush_full S env st =
     (if length (ws_bf st) \<ge> lengthLimit
      then (case pipe_select S (pe_select env (ws_selects st)) (ws_bf st) (ws_pipe st) of
              (p, Some e) \<Rightarrow> (st\<lparr>ws_pipe := p, ws_selects := ws_selects st + 1\<rparr>, Some e)
            | (p, None) \<Rightarrow>
                (st\<lparr>ws_pipe := add_rows (uint (ws_counter st - ws_lastCounter st)) p, ws_bf := [],
                   ws_lastCounter := ws_counter st, ws_selects := ws_selects st + 1\<rparr>, None))
      else (st, None))"

text \<open>The deferred functions on an error: the gauges are taken back, then the pipe is cancelled.\<close>

definition insert_fail :: "'s ext_storage \<Rightarrow> pipe_env \<Rightarrow> 's wstate \<Rightarrow> error \<Rightarrow> 's insert_result" where
  "insert_fail S env st e =
     (let p1 = add_rows (- uint (ws_lastCounter st)) (ws_pipe st);
          p2 = p1\<lparr>wp_metrics := (wp_metrics p1)\<lparr>finishedSizeGauge :=
                    finishedSizeGauge (wp_metrics p1) - uint (wp_finishedFileSize p1)\<rparr>\<rparr>;
          p3 = pipe_Run S (pe_cancel env) p2
      in (ws_it st, wp_w p3, wp_metrics p3, ws_counter st, Some e))"

text \<open>After the loops: send the rest, close the pipe and wait for it, look for errors.\<close>

definition insert_finish :: "'s ext_storage \<Rightarrow> pipe_env \<Rightarrow> 's wstate \<Rightarrow> 's insert_result" where
  "insert_finish S env st =
     (let p1 = (if length (ws_bf st) > 0 then pipe_send S (ws_bf st) (ws_pipe st) else ws_pipe st);
          p2 = pipe_close S p1;
          p3 = add_rows (uint (ws_counter st - ws_lastCounter st)) p2;
          st' = st\<lparr>ws_bf := [], ws_pipe := p3, ws_lastCounter := ws_counter st\<rparr>
      in case Iter_Error (ws_it st) of
           Some e \<Rightarrow> insert_fail S env st' e
         | None \<Rightarrow>
             (case pipe_Error p3 of
                (p4, Some e) \<Rightarrow> insert_fail S env (st'\<lparr>ws_pipe := p4\<rparr>) e
              | (p4, None) \<Rightarrow> (ws_it st', wp_w p4, wp_metrics p4, ws_counter st', None)))"

section \<open>SQL files\<close>

definition insert_prefix :: "Config \<Rightarrow> tableMeta \<Rightarrow> string" where
  "insert_prefix cfg meta =
     (let tableQName = QuoteQName (conf_Dialect cfg) (tm_database meta) (tm_table meta)
      in if tm_selectColumns meta \<noteq> ''''
         then ''INSERT INTO '' @ tableQName @ '' ('' @ tm_selectColumns meta @ '') VALUES'' @ [NL]
         else ''INSERT INTO '' @ tableQName @ '' VALUES'' @ [NL])"

text \<open>One turn of the inner loop; the flag says whether the statement ends here.\<close>

definition insert_row ::
  "'s ext_storage \<Rightarrow> connection \<Rightarrow> pipe_env \<Rightarrow> Config \<Rightarrow> tableMeta \<Rightarrow> 's wstate
    \<Rightarrow> ('s wstate \<times> error) + ('s wstate \<times> bool)" where
  "insert_row S conn env cfg meta st =
     (let lastBfSize = length (ws_bf st)
      in case (if tm_selectedField meta \<noteq> ''''
               then (case Decode (ws_it st) (ws_row st) of
                       Inl e \<Rightarrow> Inl e
                     | Inr row \<Rightarrow> Inr (row, ws_bf st @ WriteToBuffer row (EscapeBackslash cfg)))
               else Inr (ws_row st, ws_bf st @ ''()'')) of
           Inl e \<Rightarrow> Inl (st, e)
         | Inr (row, bf) \<Rightarrow>
             let p = AddFileSize (of_nat (length bf - lastBfSize) + 2) (ws_pipe st);
                 it = Next conn (ws_it st);
                 shouldSwitch = ShouldSwitchStatement p;
                 sep = (if HasNext it \<and> \<not> shouldSwitch then '','' @ [NL] else '';'' @ [NL]);
                 st1 = st\<lparr>ws_it := it, ws_bf := bf @ sep, ws_row := row, ws_pipe := p,
                          ws_counter := ws_counter st + 1\<rparr>
             in case flush_full S env st1 of
                  (st2, Some e) \<Rightarrow> Inl (st2, e)
                | (st2, None) \<Rightarrow> Inr (st2, shouldSwitch))"

partial_function (option) insert_rows ::
  "'s ext_storage \<Rightarrow> connection \<Rightarrow> pipe_env \<Rightarrow> Config \<Rightarrow> tableMeta \<Rightarrow> 's wstate
    \<Rightarrow> (('s wstate \<times> error) + 's wstate) option" where
  "insert_rows S conn env cfg meta st =
     (if HasNext (ws_it st)
      then (case insert_row S conn env cfg meta st of
              Inl r \<Rightarrow> Some (Inl r)
            | Inr (st', shouldSwitch) \<Rightarrow>
                if shouldSwitch then Some (Inr st') else insert_rows S conn env cfg meta st')
      else Some (Inr st))"

definition begin_stmt :: "Config \<Rightarrow> tableMeta \<Rightarrow> 's wstate \<Rightarrow> 's wstate" where
  "begin_stmt cfg meta st =
     st\<lparr>ws_bf := ws_bf st @ insert_prefix cfg meta,
        ws_pipe := AddFileSize (of_nat (length (insert_prefix cfg meta)))
                     ((ws_pipe st)\<lparr>wp_currentStatementSize := 0\<rparr>)\<rparr>"

partial_function (option) insert_stmts ::
  "'s ext_storage \<Rightarrow> connection \<Rightarrow> pipe_env \<Rightarrow> Config \<Rightarrow> tableMeta \<Rightarrow> 's wstate
    \<Rightarrow> (('s wstate \<times> error) + 's wstate) option" where
  "insert_stmts S conn env cfg meta st =
     (if HasNext (ws_it st)
      then (case insert_rows S conn env cfg meta (begin_stmt cfg meta st) of
              None \<Rightarrow> None
            | Some (Inl f) \<Rightarrow> Some (Inl f)
            | Some (Inr st') \<Rightarrow>
                if ShouldSwitchFile (ws_pipe st') then Some (Inr st')
                else insert_stmts S conn env cfg meta st')
      else Some (Inr st))"

definition preamble_text :: "tableMeta \<Rightarrow> string" where
  "preamble_text meta = concat (map (\<lambda>c. c @ [NL]) (tm_specCmts meta))"

definition start_state ::
  "(string \<Rightarrow> string) \<Rightarrow> Config \<Rightarrow> tableMeta \<Rightarrow> SQLRowIter \<Rightarrow> bytes \<Rightarrow> 's writerPipe \<Rightarrow> 's wstate" where
  "start_state uni cfg meta it bf p =
     \<lparr>ws_it = it, ws_bf = bf, ws_row = MakeRowReceiver uni (ColumnTypes meta) (conf_Dialect cfg),
      ws_pipe = p\<lparr>wp_currentFileSize := wp_currentFileSize p + of_nat (length bf)\<rparr>,
      ws_counter = 0, ws_lastCounter = 0, ws_selects = 0\<rparr>"

definition WriteInsert ::
  "(string \<Rightarrow> string) \<Rightarrow> 's ext_storage \<Rightarrow> connection \<Rightarrow> pipe_env \<Rightarrow> Config \<Rightarrow> tableMeta \<Rightarrow> SQLRowIter
    \<Rightarrow> InterceptFileWriter \<times> 's \<Rightarrow> metrics \<Rightarrow> 's insert_result option" where
  "WriteInsert uni S conn env cfg meta fileRowIter w m =
     (if \<not> HasNext fileRowIter then Some (fileRowIter, w, m, 0, Iter_Error fileRowIter)
      else Option.bind
        (insert_stmts S conn env cfg meta
           (start_state uni cfg meta fileRowIter (preamble_text meta)
              (newWriterPipe w (FileSize cfg) (StatementSize cfg) m)))
        (\<lambda>r. case r of
               Inl (st, e) \<Rightarrow> Some (insert_fail S env st e)
             | Inr st \<Rightarrow> Some (insert_finish S env st)))"

section \<open>CSV files\<close>

definition csv_opt :: "Config \<Rightarrow> csvOption" where
  "csv_opt cfg =
     \<lparr>csv_nullValue = CsvNullValue cfg, csv_separator = CsvSeparator cfg, csv_delimiter = CsvDelimiter cfg,
      csv_lineTerminator = CsvLineTerminator cfg, csv_binaryFormat = DialectBinaryFormatMap (CsvOutputDialect cfg)\<rparr>"

fun header_cells :: "Config \<Rightarrow> nat \<Rightarrow> nat \<Rightarrow> string list \<Rightarrow> string" where
  "header_cells cfg n i [] = ''''"
| "header_cells cfg n i (col # cols) =
     CsvDelimiter cfg @ escapeCSV col (EscapeBackslash cfg) (csv_opt cfg) @ CsvDelimiter cfg @
     (if int i \<noteq> int n - 1 then CsvSeparator cfg else []) @ header_cells cfg n (i + 1) cols"

definition csv_header :: "Config \<Rightarrow> tableMeta \<Rightarrow> string" where
  "csv_header cfg meta =
     (if \<not> NoHeader cfg \<and> length (ColumnNames meta) \<noteq> 0 \<and> tm_selectedField meta \<noteq> ''''
      then header_cells cfg (length (ColumnTypes meta)) 0 (ColumnNames meta) @ CsvLineTerminator cfg
      else '''')"

partial_function (option) csv_rows ::
  "'s ext_storage \<Rightarrow> connection \<Rightarrow> pipe_env \<Rightarrow> Config \<Rightarrow> tableMeta \<Rightarrow> 's wstate
    \<Rightarrow> (('s wstate \<times> error) + 's wstate) option" where
  "csv_rows S conn env cfg meta st =
     (if HasNext (ws_it st)
      then (let lastBfSize = length (ws_bf st)
            in case (if tm_selectedField meta \<noteq> ''''
                     then (case Decode (ws_it st) (ws_row st) of
                             Inl e \<Rightarrow> Inl e
                           | Inr row \<Rightarrow> Inr (row, ws_bf st @ WriteToBufferInCsv row (EscapeBackslash cfg) (csv_opt cfg)))
                     else Inr (ws_row st, ws_bf st)) of
                 Inl e \<Rightarrow> Some (Inl (st, e))
               | Inr (row, bf0) \<Rightarrow>
                   let bf = bf0 @ CsvLineTerminator cfg;
                       p = (ws_pipe st)\<lparr>wp_currentFileSize :=
                              wp_currentFileSize (ws_pipe st) + of_nat (length bf - lastBfSize)\<rparr>;
                       st1 = st\<lparr>ws_bf := bf, ws_row := row, ws_pipe := p, ws_counter := ws_counter st + 1\<rparr>
                   in case flush_full S env st1 of
                        (st2, Some e) \<Rightarrow> Some (Inl (st2, e))
                      | (st2, None) \<Rightarrow>
                          let st3 = st2\<lparr>ws_it := Next conn (ws_it st2)\<rparr>
                          in if ShouldSwitchFile (ws_pipe st3) then Some (Inr st3)
                             else csv_rows S conn env cfg meta st3)
      else Some (Inr st))"

definition WriteInsertInCsv ::
  "(string \<Rightarrow> string) \<Rightarrow> 's ext_storage \<Rightarrow> connection \<Rightarrow> pipe_env \<Rightarrow> Config \<Rightarrow> tableMeta \<Rightarrow> SQLRowIter
    \<Rightarrow> InterceptFileWriter \<times> 's \<Rightarrow> metrics \<Rightarrow> 's insert_result option" where
  "WriteInsertInCsv uni S conn env cfg meta fileRowIter w m =
     (if \<not> HasNext fileRowIter then Some (fileRowIter, w, m, 0, Iter_Error fileRowIter)
      else Option.bind
        (csv_rows S conn env cfg meta
           (start_state uni cfg meta fileRowIter (csv_header cfg meta)
              (newWriterPipe w (FileSize cfg) UnspecifiedSize m)))
        (\<lambda>r. case r of
               Inl (st, e) \<Rightarrow> Some (insert_fail S env st e)
             | Inr st \<Rightarrow> Some (insert_finish S env st)))"

declare insert_rows.simps [code] insert_stmts.simps [code] csv_rows.simps [code]

text \<open>\<open>FileFormat.WriteInsert\<close>.\<close>

fun format_WriteInsert ::
  "FileFormat \<Rightarrow> (string \<Rightarrow> string) \<Rightarrow> 's ext_storage \<Rightarrow> connection \<Rightarrow> pipe_env \<Rightarrow> Config \<Rightarrow> tableMeta
    \<Rightarrow> SQLRowIter \<Rightarrow> InterceptFileWriter \<times> 's \<Rightarrow> metrics \<Rightarrow> 's insert_result option" where
  "format_WriteInsert FileFormatSQLText uni S conn env cfg meta it w m = WriteInsert uni S conn env cfg meta it w m"
| "format_WriteInsert FileFormatCSV uni S conn env cfg meta it w m = WriteInsertInCsv uni S conn env cfg meta it w m"
| "format_WriteInsert FileFormatUnknown uni S conn env cfg meta it w m =
     Some (it, w, m, 0, Some (Errorf ''unknown file format'' []))"

end
