(* ===== verification/Insert_Correct.thy ===== *)
theory Insert_Correct
  imports Write_Insert
begin

text \<open>
  Correctness of writing rows into one file: the loops end, what they write is the preamble or header
  followed by the rows they took from the iterator, in order and completely, for every schedule of the
  pipe, and a file grows past its limit by one row at most.
\<close>

section \<open>Rows\<close>

fun iter_argLen :: "SQLRowIter \<Rightarrow> nat" where
  "iter_argLen (RowIter it) = ri_argLen it"
| "iter_argLen (MultiIter it) = mi_argLen it"

lemma nextRows_argLen: "mi_argLen (nextRows conn it) = mi_argLen it"
proof (induction conn it rule: nextRows.induct)
  case (1 conn it)
  show ?case
    by (subst nextRows.simps) (auto simp: Let_def 1 split: option.splits sum.splits prod.splits)
qed

lemma Next_argLen [simp]: "iter_argLen (Next conn it) = iter_argLen it"
  by (cases it) (auto simp: rowIter_Next_def multiIter_Next_def Let_def nextRows_argLen split: prod.splits option.splits)

lemma Decode_spec:
  assumes "iter_ok it" "HasNext it"
  shows "Decode it row = decodeFromRows (iter_argLen it) (hd (iter_left conn it)) row"
  using assms by (cases it) (auto simp: Rows_Scan_def rows_left_def split: option.splits)

text \<open>The receivers after a row was decoded into fresh ones; decoding again gives the same.\<close>

definition filled :: "nat \<Rightarrow> RowReceiverStringer list \<Rightarrow> raw_bytes list \<Rightarrow> RowReceiverStringer list" where
  "filled n R cells = map2 set_raw cells (take n R) @ drop n R"

definition row_like :: "nat \<Rightarrow> RowReceiverStringer list \<Rightarrow> RowReceiverStringer list \<Rightarrow> bool" where
  "row_like n R row \<longleftrightarrow> row = R \<or> (n \<le> length R \<and> (\<exists>c. length c = n \<and> row = filled n R c))"

lemma set_raw_twice [simp]: "set_raw a (set_raw b r) = set_raw a r"
  by (cases r) simp_all

lemma filled_filled: "length c = n \<Longrightarrow> n \<le> length R \<Longrightarrow> length c' = n \<Longrightarrow> filled n (filled n R c) c' = filled n R c'"
  by (rule nth_equalityI) (auto simp: filled_def nth_append)

lemma decode_row_like:
  assumes "row_like n R row" "decodeFromRows n c row = Inr row'"
  shows "row' = filled n R c \<and> row_like n R row'"
  using assms filled_filled [of _ n R c]
  by (auto simp: row_like_def decodeFromRows_def filled_def [symmetric] split: if_splits)

section \<open>The state of the loops\<close>

text \<open>
  \<open>ws_inv\<close>: the iterator is in order, the receivers have the right kinds, everything formatted so far
  is \<open>out\<close> (sent through the pipe or still in the buffer), and the sizes the pipe tracks are those of \<open>out\<close>
  and of the current statement.
\<close>

definition ws_inv ::
  "'s ext_storage \<Rightarrow> 's contents \<Rightarrow> string \<Rightarrow> 's \<Rightarrow> nat \<Rightarrow> RowReceiverStringer list \<Rightarrow> u64 \<Rightarrow> u64 \<Rightarrow> 's wstate
    \<Rightarrow> bytes \<Rightarrow> bytes \<Rightarrow> bool" where
  "ws_inv S contents path s0 n R fl sl st out stmt \<longleftrightarrow>
     iter_ok (ws_it st) \<and> iter_argLen (ws_it st) = n \<and> row_like n R (ws_row st) \<and>
     (\<exists>d. pipe_sent S contents path s0 (ws_pipe st) d \<and> out = d @ ws_bf st) \<and>
     pipe_sizes (ws_pipe st) = (of_nat (length out), of_nat (length stmt), fl, sl)"

text \<open>A limit is reached (0 is no limit).\<close>

definition hit :: "u64 \<Rightarrow> bytes \<Rightarrow> bool" where
  "hit limit out \<longleftrightarrow> limit \<noteq> 0 \<and> of_nat (length out) \<ge> limit"

lemma pipe_sent_update [simp]:
  "pipe_sent S contents path s0 (AddFileSize k p) d = pipe_sent S contents path s0 p d"
  "pipe_sent S contents path s0 (add_rows i p) d = pipe_sent S contents path s0 p d"
  "pipe_sent S contents path s0 (p\<lparr>wp_currentFileSize := f\<rparr>) d = pipe_sent S contents path s0 p d"
  "pipe_sent S contents path s0 (p\<lparr>wp_currentStatementSize := f\<rparr>) d = pipe_sent S contents path s0 p d"
  by (simp_all add: pipe_sent_def AddFileSize_def add_rows_def)

lemma pipe_sizes_add_rows [simp]: "pipe_sizes (add_rows i p) = pipe_sizes p"
  by (simp add: pipe_sizes_def add_rows_def)

lemma switch_hit:
  assumes "pipe_sizes p = (of_nat (length out), of_nat (length stmt), fl, sl)"
  shows "ShouldSwitchFile p = hit fl out" "ShouldSwitchStatement p = (hit fl out \<or> hit sl stmt)"
  using assms by (auto simp: pipe_sizes_def ShouldSwitchFile_def ShouldSwitchStatement_def hit_def UnspecifiedSize_def)

lemma flush_spec:
  assumes "flush_full S env st = (st', None)" "ws_inv S contents path s0 n R fl sl st out stmt"
  shows "ws_inv S contents path s0 n R fl sl st' out stmt \<and> ws_it st' = ws_it st \<and> ws_row st' = ws_row st \<and>
    ws_counter st' = ws_counter st"
proof (cases "length (ws_bf st) \<ge> lengthLimit")
  case True
  with assms(1) obtain p where p: "pipe_select S (pe_select env (ws_selects st)) (ws_bf st) (ws_pipe st) = (p, None)"
    "st' = st\<lparr>ws_pipe := add_rows (uint (ws_counter st - ws_lastCounter st)) p, ws_bf := [],
              ws_lastCounter := ws_counter st, ws_selects := ws_selects st + 1\<rparr>"
    by (auto simp: flush_full_def split: prod.splits option.splits)
  from assms(2) obtain d where "pipe_sent S contents path s0 (ws_pipe st) d" "out = d @ ws_bf st"
    by (auto simp: ws_inv_def)
  with pipe_select_spec [OF p(1)] p(2) assms(2) show ?thesis by (auto simp: ws_inv_def)
qed (use assms in \<open>auto simp: flush_full_def\<close>)

section \<open>SQL files\<close>

definition sql_row :: "Config \<Rightarrow> tableMeta \<Rightarrow> nat \<Rightarrow> RowReceiverStringer list \<Rightarrow> raw_bytes list \<Rightarrow> string" where
  "sql_row cfg meta n R cells =
     (if tm_selectedField meta \<noteq> '''' then WriteToBuffer (filled n R cells) (EscapeBackslash cfg) else ''()'')"

abbreviation comma_nl :: string where "comma_nl \<equiv> '','' @ [NL]"
abbreviation semi_nl :: string where "semi_nl \<equiv> '';'' @ [NL]"

lemma insert_row_spec:
  assumes "insert_row S conn env cfg meta st = Inr (st', sw)" "HasNext (ws_it st)"
    and inv: "ws_inv S contents path s0 n R fl sl st out stmt"
    and left: "iter_left conn (ws_it st) = r # left'"
  shows "let txt = sql_row cfg meta n R r @ (if left' \<noteq> [] \<and> \<not> sw then comma_nl else semi_nl)
    in ws_inv S contents path s0 n R fl sl st' (out @ txt) (stmt @ txt) \<and>
       iter_left conn (ws_it st') = left' \<and> iter_final conn (ws_it st') = iter_final conn (ws_it st) \<and>
       ws_counter st' = ws_counter st + 1 \<and> sw = (hit fl (out @ txt) \<or> hit sl (stmt @ txt))"
proof -
  let ?t = "sql_row cfg meta n R r"
  from inv have it: "iter_ok (ws_it st)" "iter_argLen (ws_it st) = n" "row_like n R (ws_row st)"
    by (auto simp: ws_inv_def)
  note nx = iter_Next_spec [OF it(1) assms(2), where conn = conn]
  define p where "p = AddFileSize (of_nat (length ?t) + 2) (ws_pipe st)"
  define sep where "sep = (if HasNext (Next conn (ws_it st)) \<and> \<not> ShouldSwitchStatement p then comma_nl else semi_nl)"
  have dec: "Decode (ws_it st) (ws_row st) = decodeFromRows n r (ws_row st)"
    using Decode_spec [OF it(1) assms(2), of _ conn] it left by simp
  obtain row where row: "row_like n R row" and formatted: "(if tm_selectedField meta \<noteq> ''''
       then (case Decode (ws_it st) (ws_row st) of
               Inl e \<Rightarrow> Inl e | Inr row \<Rightarrow> Inr (row, ws_bf st @ WriteToBuffer row (EscapeBackslash cfg)))
       else Inr (ws_row st, ws_bf st @ ''()'')) = Inr (row, ws_bf st @ ?t)"
  proof (cases "tm_selectedField meta = ''''")
    case False
    with assms(1) obtain row where d: "decodeFromRows n r (ws_row st) = Inr row"
      by (auto simp: insert_row_def Let_def dec split: sum.splits)
    with decode_row_like [OF it(3) d] show ?thesis using False by (intro that [of row]) (auto simp: dec sql_row_def)
  qed (use that [OF it(3)] in \<open>simp add: sql_row_def\<close>)
  have fl: "flush_full S env (st\<lparr>ws_it := Next conn (ws_it st), ws_bf := (ws_bf st @ ?t) @ sep, ws_row := row,
      ws_pipe := p, ws_counter := ws_counter st + 1\<rparr>) = (st', None)" and sw: "sw = ShouldSwitchStatement p"
    using assms(1) unfolding insert_row_def formatted Let_def
    by (auto simp: p_def sep_def split: prod.splits option.splits)
  have sz: "pipe_sizes p = (of_nat (length (out @ ?t @ sep)), of_nat (length (stmt @ ?t @ sep)), fl, sl)"
    using inv by (simp add: ws_inv_def pipe_sizes_def p_def AddFileSize_def sep_def)
  from inv obtain d where sent: "pipe_sent S contents path s0 p d" "out = d @ ws_bf st"
    by (auto simp: ws_inv_def p_def)
  have "HasNext (Next conn (ws_it st)) \<longleftrightarrow> left' \<noteq> []"
    using rows.has_next_iff [OF nx(1), where conn = conn] nx(2) left by simp
  then have sep: "sep = (if left' \<noteq> [] \<and> \<not> sw then comma_nl else semi_nl)" by (simp add: sep_def sw)
  define st1 where "st1 = st\<lparr>ws_it := Next conn (ws_it st), ws_bf := (ws_bf st @ ?t) @ sep, ws_row := row,
      ws_pipe := p, ws_counter := ws_counter st + 1\<rparr>"
  have st1: "ws_it st1 = Next conn (ws_it st)" "ws_row st1 = row" "ws_pipe st1 = p" "ws_counter st1 = ws_counter st + 1"
    "out @ ?t @ sep = d @ ws_bf st1"
    by (simp_all add: st1_def sent(2))
  have "ws_inv S contents path s0 n R fl sl st1 (out @ ?t @ sep) (stmt @ ?t @ sep)"
    unfolding ws_inv_def st1(1-3) Next_argLen using sent(1) st1(5) nx(1) it(2) row sz by blast
  note fs = flush_spec [OF fl [folded st1_def] this]
  have "sw = (hit fl (out @ ?t @ sep) \<or> hit sl (stmt @ ?t @ sep))"
    using switch_hit(2) [OF sz] unfolding sw .
  with fs st1 nx left show ?thesis unfolding Let_def sep [symmetric] by simp
qed

text \<open>The rows of a statement, and its beginning as long as more rows follow.\<close>

definition stmt_rows :: "(raw_bytes list \<Rightarrow> string) \<Rightarrow> raw_bytes list list \<Rightarrow> string" where
  "stmt_rows t rs = join comma_nl (map t rs) @ semi_nl"

definition rows_pre :: "(raw_bytes list \<Rightarrow> string) \<Rightarrow> raw_bytes list list \<Rightarrow> string" where
  "rows_pre t rs = concat (map (\<lambda>r. t r @ comma_nl) rs)"

lemma stmt_rows_simps:
  "stmt_rows t [r] = t r @ semi_nl"
  "rs \<noteq> [] \<Longrightarrow> stmt_rows t (r # rs) = t r @ comma_nl @ stmt_rows t rs"
  by (auto simp: stmt_rows_def join_Cons)

lemma rows_pre_simps [simp]:
  "rows_pre t [] = []" "rows_pre t (r # rs) = t r @ comma_nl @ rows_pre t rs"
  by (simp_all add: rows_pre_def)

lemma ws_HasNext: "ws_inv S contents path s0 n R fl sl st out stmt \<Longrightarrow> HasNext (ws_it st) \<longleftrightarrow> iter_left conn (ws_it st) \<noteq> []"
  using rows.has_next_iff [of "ws_it st" conn] by (simp add: ws_inv_def)

text \<open>What the inner loop does to a state, if it does not fail: it takes rows until a limit is reached.\<close>

definition took_rows ::
  "'s ext_storage \<Rightarrow> 's contents \<Rightarrow> string \<Rightarrow> 's \<Rightarrow> nat \<Rightarrow> RowReceiverStringer list \<Rightarrow> u64 \<Rightarrow> u64 \<Rightarrow> connection
    \<Rightarrow> (raw_bytes list \<Rightarrow> string) \<Rightarrow> 's wstate \<Rightarrow> bytes \<Rightarrow> bytes \<Rightarrow> 's wstate \<Rightarrow> raw_bytes list list \<Rightarrow> bool" where
  "took_rows S contents path s0 n R fl sl conn t st out stmt st' rs \<longleftrightarrow>
     rs \<noteq> [] \<and> iter_left conn (ws_it st) = rs @ iter_left conn (ws_it st') \<and>
     ws_inv S contents path s0 n R fl sl st' (out @ stmt_rows t rs) (stmt @ stmt_rows t rs) \<and>
     iter_final conn (ws_it st') = iter_final conn (ws_it st) \<and>
     ws_counter st' = ws_counter st + of_nat (length rs) \<and>
     (iter_left conn (ws_it st') \<noteq> [] \<longrightarrow> hit fl (out @ stmt_rows t rs) \<or> hit sl (stmt @ stmt_rows t rs)) \<and>
     (\<forall>k. 0 < k \<and> k < length rs \<longrightarrow>
        \<not> hit fl (out @ rows_pre t (take k rs)) \<and> \<not> hit sl (stmt @ rows_pre t (take k rs)))"

lemma took_rows_Cons:
  assumes "took_rows S contents path s0 n R fl sl conn t st1 (out @ t r @ comma_nl) (stmt @ t r @ comma_nl) st' rs"
    and "iter_left conn (ws_it st) = r # iter_left conn (ws_it st1)"
      "iter_final conn (ws_it st1) = iter_final conn (ws_it st)" "ws_counter st1 = ws_counter st + 1"
      "\<not> hit fl (out @ t r @ comma_nl)" "\<not> hit sl (stmt @ t r @ comma_nl)"
  shows "took_rows S contents path s0 n R fl sl conn t st out stmt st' (r # rs)"
proof -
  have "rs \<noteq> []" using assms(1) by (simp add: took_rows_def)
  moreover have "\<not> hit fl (out @ rows_pre t (take k (r # rs))) \<and> \<not> hit sl (stmt @ rows_pre t (take k (r # rs)))"
    if "0 < k" "k < length (r # rs)" for k
    using that assms(1,5,6) by (cases k; cases "k = 1") (auto simp: took_rows_def)
  ultimately show ?thesis using assms(1-4) by (simp add: took_rows_def stmt_rows_simps)
qed

lemma insert_rows_spec:
  assumes "ws_inv S contents path s0 n R fl sl st out stmt" "iter_left conn (ws_it st) \<noteq> []"
  shows "\<exists>res. insert_rows S conn env cfg meta st = Some res \<and>
    (\<forall>st'. res = Inr st' \<longrightarrow>
       (\<exists>rs. took_rows S contents path s0 n R fl sl conn (sql_row cfg meta n R) st out stmt st' rs))"
  using assms
proof (induction "iter_left conn (ws_it st)" arbitrary: st out stmt)
  case (Cons r left')
  let ?t = "sql_row cfg meta n R"
  have hn: "HasNext (ws_it st)" using ws_HasNext [OF Cons(3), of conn] Cons(4) by simp
  show ?case
  proof (cases "insert_row S conn env cfg meta st")
    case (Inl f)
    then show ?thesis using hn by (subst insert_rows.simps) simp
  next
    case (Inr q)
    obtain st1 sw where q: "q = (st1, sw)" by fastforce
    note sp = insert_row_spec [OF Inr [unfolded q] hn Cons(3) Cons(2) [symmetric], unfolded Let_def]
    have run: "insert_rows S conn env cfg meta st = (if sw then Some (Inr st1) else insert_rows S conn env cfg meta st1)"
      using hn Inr q by (subst insert_rows.simps) simp
    show ?thesis
    proof (cases "left' \<noteq> [] \<and> \<not> sw")
      case False
      then have "took_rows S contents path s0 n R fl sl conn ?t st out stmt st1 [r]"
        using sp Cons(2) by (auto simp: took_rows_def stmt_rows_simps)
      moreover have "insert_rows S conn env cfg meta st = Some (Inr st1)"
      proof (cases sw)
        case False
        with \<open>\<not> (left' \<noteq> [] \<and> \<not> sw)\<close> have "\<not> HasNext (ws_it st1)" using sp ws_HasNext [of S contents path s0 n R fl sl st1 _ _ conn] by metis
        then show ?thesis using run False by (simp add: insert_rows.simps [of _ _ _ _ _ st1])
      qed (use run in simp)
      ultimately show ?thesis by auto
    next
      case True
      then have inv1: "ws_inv S contents path s0 n R fl sl st1 (out @ ?t r @ comma_nl) (stmt @ ?t r @ comma_nl)"
        and l1: "iter_left conn (ws_it st1) = left'" and nh: "\<not> hit fl (out @ ?t r @ comma_nl)" "\<not> hit sl (stmt @ ?t r @ comma_nl)"
        using sp by auto
      from Cons(1) [OF l1 [symmetric] inv1] True l1 obtain res where
        "insert_rows S conn env cfg meta st1 = Some res"
        "\<forall>st'. res = Inr st' \<longrightarrow> (\<exists>rs. took_rows S contents path s0 n R fl sl conn ?t st1 (out @ ?t r @ comma_nl) (stmt @ ?t r @ comma_nl) st' rs)"
        by auto
      moreover have "took_rows S contents path s0 n R fl sl conn ?t st out stmt st' (r # rs)"
        if "took_rows S contents path s0 n R fl sl conn ?t st1 (out @ ?t r @ comma_nl) (stmt @ ?t r @ comma_nl) st' rs" for st' rs
        using took_rows_Cons [where t = ?t and r = r, OF that _ _ _ nh] l1 sp Cons(2) by simp
      ultimately show ?thesis using True run by metis
    qed
  qed
qed simp

text \<open>The statements of a file: each is the prefix and its rows.\<close>

definition sql_body :: "string \<Rightarrow> (raw_bytes list \<Rightarrow> string) \<Rightarrow> raw_bytes list list list \<Rightarrow> string" where
  "sql_body pre t groups = concat (map (\<lambda>g. pre @ stmt_rows t g) groups)"

lemma sql_body_simps [simp]:
  "sql_body pre t [] = []" "sql_body pre t (g # gs) = pre @ stmt_rows t g @ sql_body pre t gs"
  by (simp_all add: sql_body_def)

text \<open>
  No limit was reached before the last row of a statement, and the file's not before its last statement;
  statements but the last end because of the statement limit.
\<close>

definition in_limits ::
  "u64 \<Rightarrow> u64 \<Rightarrow> string \<Rightarrow> (raw_bytes list \<Rightarrow> string) \<Rightarrow> bytes \<Rightarrow> raw_bytes list list list \<Rightarrow> bool" where
  "in_limits fl sl pre t out groups \<longleftrightarrow>
     (\<forall>gs g gs'. groups = gs @ g # gs' \<longrightarrow>
        (gs \<noteq> [] \<longrightarrow> \<not> hit fl (out @ sql_body pre t gs)) \<and>
        (gs' \<noteq> [] \<longrightarrow> hit sl (pre @ stmt_rows t g)) \<and>
        (\<forall>k. 0 < k \<and> k < length g \<longrightarrow>
           \<not> hit fl (out @ sql_body pre t gs @ pre @ rows_pre t (take k g)) \<and>
           \<not> hit sl (pre @ rows_pre t (take k g))))"

definition took_stmts ::
  "'s ext_storage \<Rightarrow> 's contents \<Rightarrow> string \<Rightarrow> 's \<Rightarrow> nat \<Rightarrow> RowReceiverStringer list \<Rightarrow> u64 \<Rightarrow> u64 \<Rightarrow> connection
    \<Rightarrow> string \<Rightarrow> (raw_bytes list \<Rightarrow> string) \<Rightarrow> 's wstate \<Rightarrow> bytes \<Rightarrow> 's wstate \<Rightarrow> raw_bytes list list list \<Rightarrow> bool" where
  "took_stmts S contents path s0 n R fl sl conn pre t st out st' groups \<longleftrightarrow>
     groups \<noteq> [] \<and> list_all (\<lambda>g. g \<noteq> []) groups \<and>
     iter_left conn (ws_it st) = concat groups @ iter_left conn (ws_it st') \<and>
     (\<exists>stmt'. ws_inv S contents path s0 n R fl sl st' (out @ sql_body pre t groups) stmt') \<and>
     iter_final conn (ws_it st') = iter_final conn (ws_it st) \<and>
     ws_counter st' = ws_counter st + of_nat (length (concat groups)) \<and>
     (iter_left conn (ws_it st') \<noteq> [] \<longrightarrow> hit fl (out @ sql_body pre t groups)) \<and>
     in_limits fl sl pre t out groups"

lemma begin_stmt_inv:
  assumes "ws_inv S contents path s0 n R fl sl st out stmt"
  shows "ws_inv S contents path s0 n R fl sl (begin_stmt cfg meta st) (out @ insert_prefix cfg meta) (insert_prefix cfg meta)"
  using assms
  by (auto simp: ws_inv_def begin_stmt_def pipe_sizes_def AddFileSize_def pipe_sent_def simp del: iter_ok.simps)

lemma in_limits_Cons:
  assumes "in_limits fl sl pre t (out @ pre @ stmt_rows t g) groups" "groups \<noteq> [] \<Longrightarrow> \<not> hit fl (out @ pre @ stmt_rows t g)"
    "\<forall>k. 0 < k \<and> k < length g \<longrightarrow>
       \<not> hit fl ((out @ pre) @ rows_pre t (take k g)) \<and> \<not> hit sl (pre @ rows_pre t (take k g))"
    "groups \<noteq> [] \<Longrightarrow> hit sl (pre @ stmt_rows t g)"
  shows "in_limits fl sl pre t out (g # groups)"
  unfolding in_limits_def
proof (intro allI impI)
  fix gs h gs' assume e: "g # groups = gs @ h # gs'"
  show "(gs \<noteq> [] \<longrightarrow> \<not> hit fl (out @ sql_body pre t gs)) \<and>
      (gs' \<noteq> [] \<longrightarrow> hit sl (pre @ stmt_rows t h)) \<and>
      (\<forall>k. 0 < k \<and> k < length h \<longrightarrow>
         \<not> hit fl (out @ sql_body pre t gs @ pre @ rows_pre t (take k h)) \<and> \<not> hit sl (pre @ rows_pre t (take k h)))"
  proof (cases gs)
    case Nil
    then show ?thesis using e assms(3,4) by simp
  next
    case (Cons a as)
    then have "g = a" "groups = as @ h # gs'" using e by simp_all
    with assms(1) have "(as \<noteq> [] \<longrightarrow> \<not> hit fl ((out @ pre @ stmt_rows t g) @ sql_body pre t as)) \<and>
      (gs' \<noteq> [] \<longrightarrow> hit sl (pre @ stmt_rows t h)) \<and>
      (\<forall>k. 0 < k \<and> k < length h \<longrightarrow>
         \<not> hit fl ((out @ pre @ stmt_rows t g) @ sql_body pre t as @ pre @ rows_pre t (take k h)) \<and>
         \<not> hit sl (pre @ rows_pre t (take k h)))"
      unfolding in_limits_def by metis
    then show ?thesis using assms(2) Cons \<open>g = a\<close> \<open>groups = as @ h # gs'\<close> by (cases "as = []") auto
  qed
qed

lemma insert_stmts_spec:
  assumes "ws_inv S contents path s0 n R fl sl st out stmt" "iter_left conn (ws_it st) \<noteq> []"
  shows "\<exists>res. insert_stmts S conn env cfg meta st = Some res \<and>
    (\<forall>st'. res = Inr st' \<longrightarrow>
       (\<exists>groups. took_stmts S contents path s0 n R fl sl conn (insert_prefix cfg meta) (sql_row cfg meta n R) st out st' groups))"
  using assms
proof (induction "length (iter_left conn (ws_it st))" arbitrary: st out stmt rule: less_induct)
  case less
  let ?t = "sql_row cfg meta n R" and ?pre = "insert_prefix cfg meta"
  have hn: "HasNext (ws_it st)" using ws_HasNext [OF less(2), of conn] less(3) by simp
  have it0: "ws_it (begin_stmt cfg meta st) = ws_it st" "ws_counter (begin_stmt cfg meta st) = ws_counter st"
    by (simp_all add: begin_stmt_def)
  obtain r1 where r1: "insert_rows S conn env cfg meta (begin_stmt cfg meta st) = Some r1"
    "\<forall>st'. r1 = Inr st' \<longrightarrow> (\<exists>rs. took_rows S contents path s0 n R fl sl conn ?t (begin_stmt cfg meta st) (out @ ?pre) ?pre st' rs)"
    using insert_rows_spec [OF begin_stmt_inv [OF less(2)], of conn] less(3) it0(1) by metis
  show ?case
  proof (cases r1)
    case (Inl f)
    then show ?thesis using hn r1(1) by (subst insert_stmts.simps) simp
  next
    case (Inr st1)
    then obtain rs where rs: "took_rows S contents path s0 n R fl sl conn ?t (begin_stmt cfg meta st) (out @ ?pre) ?pre st1 rs"
      using r1(2) by blast
    have inv1: "ws_inv S contents path s0 n R fl sl st1 (out @ ?pre @ stmt_rows ?t rs) (?pre @ stmt_rows ?t rs)"
      using rs by (simp add: took_rows_def)
    have sw: "ShouldSwitchFile (ws_pipe st1) = hit fl (out @ ?pre @ stmt_rows ?t rs)"
      using inv1 switch_hit(1) unfolding ws_inv_def by blast
    have run: "insert_stmts S conn env cfg meta st =
        (if ShouldSwitchFile (ws_pipe st1) then Some (Inr st1) else insert_stmts S conn env cfg meta st1)"
      using hn r1(1) Inr by (subst insert_stmts.simps) simp
    have rs': "iter_left conn (ws_it st) = rs @ iter_left conn (ws_it st1)" "rs \<noteq> []"
      "iter_final conn (ws_it st1) = iter_final conn (ws_it st)" "ws_counter st1 = ws_counter st + of_nat (length rs)"
      "\<forall>k. 0 < k \<and> k < length rs \<longrightarrow> \<not> hit fl ((out @ ?pre) @ rows_pre ?t (take k rs)) \<and> \<not> hit sl (?pre @ rows_pre ?t (take k rs))"
      "iter_left conn (ws_it st1) \<noteq> [] \<longrightarrow> hit fl ((out @ ?pre) @ stmt_rows ?t rs) \<or> hit sl (?pre @ stmt_rows ?t rs)"
      using rs it0 unfolding took_rows_def by metis+
    show ?thesis
    proof (cases "hit fl (out @ ?pre @ stmt_rows ?t rs) \<or> iter_left conn (ws_it st1) = []")
      case True
      have "in_limits fl sl ?pre ?t out [rs]"
        by (rule in_limits_Cons) (use rs'(5) in \<open>simp_all add: in_limits_def\<close>)
      with True inv1 rs' have "took_stmts S contents path s0 n R fl sl conn ?pre ?t st out st1 [rs]"
        by (auto simp: took_stmts_def)
      moreover have "insert_stmts S conn env cfg meta st = Some (Inr st1)"
        using True run sw ws_HasNext [OF inv1, of conn] by (cases "ShouldSwitchFile (ws_pipe st1)") (simp_all add: insert_stmts.simps [of _ _ _ _ _ st1])
      ultimately show ?thesis by auto
    next
      case False
      then have "length (iter_left conn (ws_it st1)) < length (iter_left conn (ws_it st))" using rs' by simp
      from less(1) [OF this inv1] False obtain res where res: "insert_stmts S conn env cfg meta st1 = Some res"
        "\<forall>st'. res = Inr st' \<longrightarrow> (\<exists>groups. took_stmts S contents path s0 n R fl sl conn ?pre ?t st1 (out @ ?pre @ stmt_rows ?t rs) st' groups)"
        by auto
      have "took_stmts S contents path s0 n R fl sl conn ?pre ?t st out st' (rs # groups)"
        if "took_stmts S contents path s0 n R fl sl conn ?pre ?t st1 (out @ ?pre @ stmt_rows ?t rs) st' groups" for st' groups
        using that rs' False in_limits_Cons [of fl sl ?pre ?t out rs groups] by (auto simp: took_stmts_def)
      with res run sw False show ?thesis by metis
    qed
  qed
qed

section \<open>The end of a file\<close>

lemma insert_finish_spec:
  assumes "insert_finish S env st = (it', w', m', cnt, None)" "ws_inv S contents path s0 n R fl sl st out stmt"
  shows "it' = ws_it st \<and> cnt = ws_counter st \<and> Iter_Error (ws_it st) = None \<and>
    written contents w' = Some out \<and> iw_SomethingIsWritten (fst w') = (out \<noteq> []) \<and> iw_path (fst w') = path \<and>
    (\<forall>q. q \<noteq> path \<longrightarrow> contents (snd w') q = contents s0 q)"
proof -
  from assms(2) obtain d where d: "pipe_sent S contents path s0 (ws_pipe st) d" "out = d @ ws_bf st"
    by (auto simp: ws_inv_def)
  define p1 where "p1 = (if length (ws_bf st) > 0 then pipe_send S (ws_bf st) (ws_pipe st) else ws_pipe st)"
  have p1: "pipe_sent S contents path s0 p1 out"
    using d pipe_sent_send [OF d(1)] by (auto simp: p1_def)
  note cl = pipe_close_spec [OF p1]
  from assms(1) have "Iter_Error (ws_it st) = None" "wp_errCh (pipe_close S p1) = None"
    "it' = ws_it st" "cnt = ws_counter st" "w' = wp_w (pipe_close S p1)"
    by (auto simp: insert_finish_def Let_def p1_def insert_fail_def pipe_Error_def add_rows_def split: option.splits)
  with cl show ?thesis by (auto simp: pipe_sent_def)
qed

lemma written_Some: "written contents (w, s) = Some out \<Longrightarrow> out \<noteq> [] \<Longrightarrow> iw_open w \<and> contents s (iw_path w) = Some out"
  by (auto simp: written_def split: if_splits)

lemma start_state_inv:
  assumes "storage_laws S contents" "iter_ok it"
  shows "ws_inv S contents (name @ compressFileSuffix ct) s (iter_argLen it)
    (MakeRowReceiver uni (ColumnTypes meta) (conf_Dialect cfg)) fl sl
    (start_state uni cfg meta it bf (newWriterPipe (buildInterceptFileWriter name ct, s) fl sl m)) bf []"
  using assms
  by (auto simp: ws_inv_def start_state_def newWriterPipe_def buildInterceptFileWriter_def pipe_sent_def
      fresh_ok_def written_def row_like_def pipe_sizes_def)

text \<open>What a successful call leaves in the storage, in terms of the text \<open>out\<close> it formatted.\<close>

definition file_written ::
  "'s contents \<Rightarrow> string \<Rightarrow> 's \<Rightarrow> InterceptFileWriter \<times> 's \<Rightarrow> bytes \<Rightarrow> bool" where
  "file_written contents path s ws out \<longleftrightarrow>
     iw_path (fst ws) = path \<and> iw_SomethingIsWritten (fst ws) = (out \<noteq> []) \<and>
     (out \<noteq> [] \<longrightarrow> iw_open (fst ws) \<and> contents (snd ws) path = Some out) \<and>
     (\<forall>q. q \<noteq> path \<longrightarrow> contents (snd ws) q = contents s q)"

abbreviation sql_text :: "(string \<Rightarrow> string) \<Rightarrow> Config \<Rightarrow> tableMeta \<Rightarrow> nat \<Rightarrow> raw_bytes list list list \<Rightarrow> string" where
  "sql_text uni cfg meta n groups \<equiv>
     preamble_text meta @
     sql_body (insert_prefix cfg meta) (sql_row cfg meta n (MakeRowReceiver uni (ColumnTypes meta) (conf_Dialect cfg))) groups"

lemma insert_prefix_nonempty [simp]: "insert_prefix cfg meta \<noteq> []"
  by (simp add: insert_prefix_def Let_def)

lemma took_stmts_nonempty: "took_stmts S contents path s0 n R fl sl conn (insert_prefix cfg meta) t st out st' groups
   \<Longrightarrow> out @ sql_body (insert_prefix cfg meta) t groups \<noteq> []"
  by (cases groups) (auto simp: took_stmts_def)

lemma WriteInsert_spec:
  assumes "storage_laws S contents" "iter_ok it"
  shows "\<exists>res. WriteInsert uni S conn env cfg meta it (buildInterceptFileWriter name ct, s) m = Some res \<and>
    (\<forall>it' ws m' cnt. res = (it', ws, m', cnt, None) \<longrightarrow>
       (\<exists>groups. iter_ok it' \<and> iter_argLen it' = iter_argLen it \<and> iter_final conn it' = iter_final conn it \<and>
          iter_left conn it = concat groups @ iter_left conn it' \<and>
          list_all (\<lambda>g. g \<noteq> []) groups \<and> (groups = [] \<longleftrightarrow> iter_left conn it = []) \<and>
          cnt = of_nat (length (concat groups)) \<and>
          (iter_left conn it' = [] \<longrightarrow> iter_final conn it = None) \<and>
          (iter_left conn it' \<noteq> [] \<longrightarrow> hit (FileSize cfg) (sql_text uni cfg meta (iter_argLen it) groups)) \<and>
          in_limits (FileSize cfg) (StatementSize cfg) (insert_prefix cfg meta)
            (sql_row cfg meta (iter_argLen it) (MakeRowReceiver uni (ColumnTypes meta) (conf_Dialect cfg)))
            (preamble_text meta) groups \<and>
          file_written contents (name @ compressFileSuffix ct) s ws
            (if groups = [] then [] else sql_text uni cfg meta (iter_argLen it) groups)))"
proof (cases "HasNext it")
  case False
  then have "iter_left conn it = []" "Iter_Error it = iter_final conn it"
    using rows.has_next_iff [OF assms(2), of conn] rows.err_end [OF assms(2), of conn] by simp_all
  then show ?thesis using False assms
    by (auto simp: WriteInsert_def in_limits_def file_written_def buildInterceptFileWriter_def)
next
  case True
  let ?path = "name @ compressFileSuffix ct" and ?R = "MakeRowReceiver uni (ColumnTypes meta) (conf_Dialect cfg)"
  define st where "st = start_state uni cfg meta it (preamble_text meta)
    (newWriterPipe (buildInterceptFileWriter name ct, s) (FileSize cfg) (StatementSize cfg) m)"
  have it: "ws_it st = it" "ws_counter st = 0" by (simp_all add: st_def start_state_def)
  note inv = start_state_inv [OF assms, of name ct s uni meta cfg "FileSize cfg" "StatementSize cfg" "preamble_text meta" m, folded st_def]
  have left: "iter_left conn (ws_it st) \<noteq> []" using True rows.has_next_iff [OF assms(2), of conn] it by simp
  obtain r where r: "insert_stmts S conn env cfg meta st = Some r"
    "\<And>st'. r = Inr st' \<Longrightarrow> \<exists>groups. took_stmts S contents ?path s (iter_argLen it) ?R (FileSize cfg) (StatementSize cfg)
        conn (insert_prefix cfg meta) (sql_row cfg meta (iter_argLen it) ?R) st (preamble_text meta) st' groups"
    using insert_stmts_spec [OF inv left] by metis
  show ?thesis
  proof (cases r)
    case (Inl f)
    then show ?thesis using r(1) True by (auto simp: WriteInsert_def st_def insert_fail_def Let_def split: prod.splits)
  next
    case (Inr st')
    from r(2) [OF this] obtain groups where g: "took_stmts S contents ?path s (iter_argLen it) ?R (FileSize cfg) (StatementSize cfg)
        conn (insert_prefix cfg meta) (sql_row cfg meta (iter_argLen it) ?R) st (preamble_text meta) st' groups" ..
    then obtain stmt' where inv': "ws_inv S contents ?path s (iter_argLen it) ?R (FileSize cfg) (StatementSize cfg) st'
        (sql_text uni cfg meta (iter_argLen it) groups) stmt'" by (auto simp: took_stmts_def)
    have fin: "WriteInsert uni S conn env cfg meta it (buildInterceptFileWriter name ct, s) m = Some (insert_finish S env st')"
      using r(1) Inr True by (simp add: WriteInsert_def st_def)
    have "\<exists>groups. iter_ok it' \<and> iter_argLen it' = iter_argLen it \<and> iter_final conn it' = iter_final conn it \<and>
          iter_left conn it = concat groups @ iter_left conn it' \<and>
          list_all (\<lambda>g. g \<noteq> []) groups \<and> (groups = [] \<longleftrightarrow> iter_left conn it = []) \<and>
          cnt = of_nat (length (concat groups)) \<and>
          (iter_left conn it' = [] \<longrightarrow> iter_final conn it = None) \<and>
          (iter_left conn it' \<noteq> [] \<longrightarrow> hit (FileSize cfg) (sql_text uni cfg meta (iter_argLen it) groups)) \<and>
          in_limits (FileSize cfg) (StatementSize cfg) (insert_prefix cfg meta)
            (sql_row cfg meta (iter_argLen it) ?R) (preamble_text meta) groups \<and>
          file_written contents ?path s ws (if groups = [] then [] else sql_text uni cfg meta (iter_argLen it) groups)"
      if res: "insert_finish S env st' = (it', ws, m', cnt, None)" for it' ws m' cnt
    proof -
      note f = insert_finish_spec [OF res inv']
      have ok: "iter_ok it'" "iter_argLen it' = iter_argLen it" using f inv' by (auto simp: ws_inv_def)
      have "iter_left conn it' = [] \<Longrightarrow> iter_final conn it = None"
        using f rows.err_end [OF ok(1), of conn] rows.has_next_iff [OF ok(1), of conn] g it by (auto simp: took_stmts_def)
      moreover have "file_written contents ?path s ws (sql_text uni cfg meta (iter_argLen it) groups)"
        using f took_stmts_nonempty [OF g] written_Some [of contents "fst ws" "snd ws"] by (auto simp: file_written_def)
      ultimately show ?thesis
        using ok f g it left by (intro exI [of _ groups]) (auto simp: took_stmts_def)
    qed
    then show ?thesis using fin by auto
  qed
qed

section \<open>CSV files\<close>

definition csv_row :: "Config \<Rightarrow> tableMeta \<Rightarrow> nat \<Rightarrow> RowReceiverStringer list \<Rightarrow> raw_bytes list \<Rightarrow> string" where
  "csv_row cfg meta n R cells =
     (if tm_selectedField meta \<noteq> '''' then WriteToBufferInCsv (filled n R cells) (EscapeBackslash cfg) (csv_opt cfg) else '''') @
     CsvLineTerminator cfg"

definition took_lines ::
  "'s ext_storage \<Rightarrow> 's contents \<Rightarrow> string \<Rightarrow> 's \<Rightarrow> nat \<Rightarrow> RowReceiverStringer list \<Rightarrow> u64 \<Rightarrow> connection
    \<Rightarrow> (raw_bytes list \<Rightarrow> string) \<Rightarrow> 's wstate \<Rightarrow> bytes \<Rightarrow> 's wstate \<Rightarrow> raw_bytes list list \<Rightarrow> bool" where
  "took_lines S contents path s0 n R fl conn t st out st' rs \<longleftrightarrow>
     rs \<noteq> [] \<and> iter_left conn (ws_it st) = rs @ iter_left conn (ws_it st') \<and>
     ws_inv S contents path s0 n R fl UnspecifiedSize st' (out @ concat (map t rs)) [] \<and>
     iter_final conn (ws_it st') = iter_final conn (ws_it st) \<and>
     ws_counter st' = ws_counter st + of_nat (length rs) \<and>
     (iter_left conn (ws_it st') \<noteq> [] \<longrightarrow> hit fl (out @ concat (map t rs))) \<and>
     (\<forall>k. 0 < k \<and> k < length rs \<longrightarrow> \<not> hit fl (out @ concat (map t (take k rs))))"

lemma took_lines_Cons:
  assumes "took_lines S contents path s0 n R fl conn t st1 (out @ t r) st' rs"
    and "iter_left conn (ws_it st) = r # iter_left conn (ws_it st1)"
      "iter_final conn (ws_it st1) = iter_final conn (ws_it st)" "ws_counter st1 = ws_counter st + 1"
      "\<not> hit fl (out @ t r)"
  shows "took_lines S contents path s0 n R fl conn t st out st' (r # rs)"
proof -
  have "\<not> hit fl (out @ concat (map t (take k (r # rs))))" if "0 < k" "k < length (r # rs)" for k
    using that assms(1,5) by (cases k; cases "k = 1") (auto simp: took_lines_def)
  then show ?thesis using assms(1-4) by (simp add: took_lines_def)
qed

text \<open>One turn of the loop.\<close>

lemma csv_turn:
  assumes inv: "ws_inv S contents path s0 n R fl UnspecifiedSize st out []"
    and left: "iter_left conn (ws_it st) = r # left'"
  shows "(\<exists>f. csv_rows S conn env cfg meta st = Some (Inl f)) \<or>
    (\<exists>st1. ws_inv S contents path s0 n R fl UnspecifiedSize st1 (out @ csv_row cfg meta n R r) [] \<and>
       iter_left conn (ws_it st1) = left' \<and> iter_final conn (ws_it st1) = iter_final conn (ws_it st) \<and>
       ws_counter st1 = ws_counter st + 1 \<and>
       csv_rows S conn env cfg meta st =
         (if hit fl (out @ csv_row cfg meta n R r) then Some (Inr st1) else csv_rows S conn env cfg meta st1))"
proof -
  let ?t = "csv_row cfg meta n R r"
  from inv have it: "iter_ok (ws_it st)" "iter_argLen (ws_it st) = n" "row_like n R (ws_row st)"
    by (auto simp: ws_inv_def)
  have hn: "HasNext (ws_it st)" using ws_HasNext [OF inv, of conn] left by simp
  note nx = iter_Next_spec [OF it(1) hn, where conn = conn]
  have dec: "Decode (ws_it st) (ws_row st) = decodeFromRows n r (ws_row st)"
    using Decode_spec [OF it(1) hn, of _ conn] it left by simp
  show ?thesis
  proof (cases "tm_selectedField meta \<noteq> '''' \<and> (\<exists>e. decodeFromRows n r (ws_row st) = Inl e)")
    case True
    then show ?thesis using hn by (subst csv_rows.simps) (auto simp: dec Let_def)
  next
    case False
    obtain row where row: "row_like n R row" and formatted: "(if tm_selectedField meta \<noteq> ''''
         then (case Decode (ws_it st) (ws_row st) of
                 Inl e \<Rightarrow> Inl e
               | Inr row \<Rightarrow> Inr (row, ws_bf st @ WriteToBufferInCsv row (EscapeBackslash cfg) (csv_opt cfg)))
         else Inr (ws_row st, ws_bf st)) =
         Inr (row, ws_bf st @ (if tm_selectedField meta \<noteq> '''' then WriteToBufferInCsv (filled n R r) (EscapeBackslash cfg) (csv_opt cfg) else ''''))"
    proof (cases "tm_selectedField meta = ''''")
      case sf: False
      with False obtain row where d: "decodeFromRows n r (ws_row st) = Inr row"
        by (cases "decodeFromRows n r (ws_row st)") auto
      with decode_row_like [OF it(3) d] show ?thesis using sf by (intro that [of row]) (auto simp: dec)
    qed (use that [OF it(3)] in simp)
    define p where "p = (ws_pipe st)\<lparr>wp_currentFileSize := wp_currentFileSize (ws_pipe st) + of_nat (length ?t)\<rparr>"
    define st1 where "st1 = st\<lparr>ws_bf := ws_bf st @ ?t, ws_row := row, ws_pipe := p, ws_counter := ws_counter st + 1\<rparr>"
    from inv obtain d where sent: "pipe_sent S contents path s0 p d" "out = d @ ws_bf st"
      by (auto simp: ws_inv_def p_def)
    have sz: "pipe_sizes p = (of_nat (length (out @ ?t)), of_nat (length ([] :: bytes)), fl, UnspecifiedSize)"
      using inv by (simp add: ws_inv_def pipe_sizes_def p_def)
    have inv1: "ws_inv S contents path s0 n R fl UnspecifiedSize st1 (out @ ?t) []"
      unfolding ws_inv_def using it sent row sz by (simp add: st1_def del: iter_ok.simps)
    obtain st2 e where f: "flush_full S env st1 = (st2, e)" by fastforce
    have run: "csv_rows S conn env cfg meta st =
        (case e of Some e \<Rightarrow> Some (Inl (st2, e))
         | None \<Rightarrow> let st3 = st2\<lparr>ws_it := Next conn (ws_it st2)\<rparr>
                   in if ShouldSwitchFile (ws_pipe st3) then Some (Inr st3) else csv_rows S conn env cfg meta st3)"
      using hn f by (subst csv_rows.simps) (simp add: formatted Let_def st1_def p_def csv_row_def split: option.splits)
    show ?thesis
    proof (cases e)
      case None
      note fs = flush_spec [OF f [unfolded None] inv1]
      define st3 where "st3 = st2\<lparr>ws_it := Next conn (ws_it st2)\<rparr>"
      have it3: "ws_it st2 = ws_it st" "ws_counter st2 = ws_counter st + 1" using fs by (simp_all add: st1_def)
      have inv3: "ws_inv S contents path s0 n R fl UnspecifiedSize st3 (out @ ?t) []"
        using fs nx(1) it3 by (auto simp: st3_def ws_inv_def simp del: iter_ok.simps)
      have "ShouldSwitchFile (ws_pipe st3) = hit fl (out @ ?t)"
        using inv3 switch_hit(1) unfolding ws_inv_def by blast
      with run None inv3 nx left it3 show ?thesis
        by (intro disjI2 exI [of _ st3]) (simp add: Let_def st3_def)
    qed (use run in simp)
  qed
qed

lemma csv_rows_spec:
  assumes "ws_inv S contents path s0 n R fl UnspecifiedSize st out []" "iter_left conn (ws_it st) \<noteq> []"
  shows "\<exists>res. csv_rows S conn env cfg meta st = Some res \<and>
    (\<forall>st'. res = Inr st' \<longrightarrow> (\<exists>rs. took_lines S contents path s0 n R fl conn (csv_row cfg meta n R) st out st' rs))"
  using assms
proof (induction "iter_left conn (ws_it st)" arbitrary: st out)
  case (Cons r left')
  let ?t = "csv_row cfg meta n R"
  from csv_turn [OF Cons(3) Cons(2) [symmetric], of env cfg meta] show ?case
  proof (elim disjE exE conjE)
    fix st1
    assume st1: "ws_inv S contents path s0 n R fl UnspecifiedSize st1 (out @ ?t r) []" "iter_left conn (ws_it st1) = left'"
      "iter_final conn (ws_it st1) = iter_final conn (ws_it st)" "ws_counter st1 = ws_counter st + 1"
      "csv_rows S conn env cfg meta st = (if hit fl (out @ ?t r) then Some (Inr st1) else csv_rows S conn env cfg meta st1)"
    show ?case
    proof (cases "hit fl (out @ ?t r) \<or> left' = []")
      case True
      then have "took_lines S contents path s0 n R fl conn ?t st out st1 [r]"
        using st1 Cons(2) by (auto simp: took_lines_def)
      moreover have "csv_rows S conn env cfg meta st = Some (Inr st1)"
        using True st1 ws_HasNext [OF st1(1), of conn] by (cases "hit fl (out @ ?t r)") (simp_all add: csv_rows.simps [of _ _ _ _ _ st1])
      ultimately show ?thesis by auto
    next
      case False
      from Cons(1) [OF st1(2) [symmetric] st1(1)] False st1(2) obtain res where
        "csv_rows S conn env cfg meta st1 = Some res"
        "\<forall>st'. res = Inr st' \<longrightarrow> (\<exists>rs. took_lines S contents path s0 n R fl conn ?t st1 (out @ ?t r) st' rs)" by auto
      moreover have "took_lines S contents path s0 n R fl conn ?t st out st' (r # rs)"
        if "took_lines S contents path s0 n R fl conn ?t st1 (out @ ?t r) st' rs" for st' rs
        using took_lines_Cons [where t = ?t and r = r, OF that] False st1 Cons(2) by simp
      ultimately show ?thesis using False st1(5) by metis
    qed
  qed auto
qed simp

abbreviation csv_text :: "(string \<Rightarrow> string) \<Rightarrow> Config \<Rightarrow> tableMeta \<Rightarrow> nat \<Rightarrow> raw_bytes list list \<Rightarrow> string" where
  "csv_text uni cfg meta n rs \<equiv>
     csv_header cfg meta @
     concat (map (csv_row cfg meta n (MakeRowReceiver uni (ColumnTypes meta) (conf_Dialect cfg))) rs)"

lemma WriteInsertInCsv_spec:
  assumes "storage_laws S contents" "iter_ok it"
  shows "\<exists>res. WriteInsertInCsv uni S conn env cfg meta it (buildInterceptFileWriter name ct, s) m = Some res \<and>
    (\<forall>it' ws m' cnt. res = (it', ws, m', cnt, None) \<longrightarrow>
       (\<exists>rs. iter_ok it' \<and> iter_argLen it' = iter_argLen it \<and> iter_final conn it' = iter_final conn it \<and>
          iter_left conn it = rs @ iter_left conn it' \<and> (rs = [] \<longleftrightarrow> iter_left conn it = []) \<and>
          cnt = of_nat (length rs) \<and>
          (iter_left conn it' = [] \<longrightarrow> iter_final conn it = None) \<and>
          (iter_left conn it' \<noteq> [] \<longrightarrow> hit (FileSize cfg) (csv_text uni cfg meta (iter_argLen it) rs)) \<and>
          (\<forall>k. 0 < k \<and> k < length rs \<longrightarrow> \<not> hit (FileSize cfg) (csv_text uni cfg meta (iter_argLen it) (take k rs))) \<and>
          file_written contents (name @ compressFileSuffix ct) s ws
            (if rs = [] then [] else csv_text uni cfg meta (iter_argLen it) rs)))"
proof (cases "HasNext it")
  case False
  then have "iter_left conn it = []" "Iter_Error it = iter_final conn it"
    using rows.has_next_iff [OF assms(2), of conn] rows.err_end [OF assms(2), of conn] by simp_all
  then show ?thesis using False assms
    by (auto simp: WriteInsertInCsv_def file_written_def buildInterceptFileWriter_def)
next
  case True
  let ?path = "name @ compressFileSuffix ct" and ?R = "MakeRowReceiver uni (ColumnTypes meta) (conf_Dialect cfg)"
  define st where "st = start_state uni cfg meta it (csv_header cfg meta)
    (newWriterPipe (buildInterceptFileWriter name ct, s) (FileSize cfg) UnspecifiedSize m)"
  have it: "ws_it st = it" "ws_counter st = 0" by (simp_all add: st_def start_state_def)
  note inv = start_state_inv [OF assms, of name ct s uni meta cfg "FileSize cfg" UnspecifiedSize "csv_header cfg meta" m, folded st_def]
  have left: "iter_left conn (ws_it st) \<noteq> []" using True rows.has_next_iff [OF assms(2), of conn] it by simp
  obtain r where r: "csv_rows S conn env cfg meta st = Some r"
    "\<And>st'. r = Inr st' \<Longrightarrow> \<exists>rs. took_lines S contents ?path s (iter_argLen it) ?R (FileSize cfg)
        conn (csv_row cfg meta (iter_argLen it) ?R) st (csv_header cfg meta) st' rs"
    using csv_rows_spec [OF inv left] by metis
  show ?thesis
  proof (cases r)
    case (Inl f)
    then show ?thesis using r(1) True by (auto simp: WriteInsertInCsv_def st_def insert_fail_def Let_def split: prod.splits)
  next
    case (Inr st')
    from r(2) [OF this] obtain rs where g: "took_lines S contents ?path s (iter_argLen it) ?R (FileSize cfg)
        conn (csv_row cfg meta (iter_argLen it) ?R) st (csv_header cfg meta) st' rs" ..
    then have inv': "ws_inv S contents ?path s (iter_argLen it) ?R (FileSize cfg) UnspecifiedSize st'
        (csv_text uni cfg meta (iter_argLen it) rs) []" by (simp add: took_lines_def)
    have fin: "WriteInsertInCsv uni S conn env cfg meta it (buildInterceptFileWriter name ct, s) m = Some (insert_finish S env st')"
      using r(1) Inr True by (simp add: WriteInsertInCsv_def st_def)
    have "iter_ok it' \<and> iter_argLen it' = iter_argLen it \<and> iter_final conn it' = iter_final conn it \<and>
          iter_left conn it = rs @ iter_left conn it' \<and> (rs = [] \<longleftrightarrow> iter_left conn it = []) \<and>
          cnt = of_nat (length rs) \<and>
          (iter_left conn it' = [] \<longrightarrow> iter_final conn it = None) \<and>
          (iter_left conn it' \<noteq> [] \<longrightarrow> hit (FileSize cfg) (csv_text uni cfg meta (iter_argLen it) rs)) \<and>
          (\<forall>k. 0 < k \<and> k < length rs \<longrightarrow> \<not> hit (FileSize cfg) (csv_text uni cfg meta (iter_argLen it) (take k rs))) \<and>
          file_written contents ?path s ws (if rs = [] then [] else csv_text uni cfg meta (iter_argLen it) rs)"
      if res: "insert_finish S env st' = (it', ws, m', cnt, None)" for it' ws m' cnt
    proof -
      note f = insert_finish_spec [OF res inv']
      have ok: "iter_ok it'" "iter_argLen it' = iter_argLen it" using f inv' by (auto simp: ws_inv_def)
      have eos: "iter_left conn it' = [] \<longrightarrow> iter_final conn it = None"
        using f rows.err_end [OF ok(1), of conn] rows.has_next_iff [OF ok(1), of conn] g it by (auto simp: took_lines_def)
      have fw: "file_written contents ?path s ws (csv_text uni cfg meta (iter_argLen it) rs)"
        using f written_Some [of contents "fst ws" "snd ws"] by (auto simp: file_written_def)
      have e: "it' = ws_it st'" "cnt = ws_counter st'" using f by blast+
      have "rs \<noteq> []" using g unfolding took_lines_def by (elim conjE)
      then have ne: "(rs = []) = (iter_left conn it = [])"
        and eq: "(if rs = [] then [] else csv_text uni cfg meta (iter_argLen it) rs) = csv_text uni cfg meta (iter_argLen it) rs"
        using left it(1) by simp_all
      show ?thesis
        using g ok eos fw ne unfolding took_lines_def it add_0 e [symmetric] eq
        by (elim conjE) (intro conjI; assumption)
    qed
    then show ?thesis using fin by blast
  qed
qed

section \<open>Both formats\<close>

text \<open>
  The text of a file that holds the rows \<open>rs\<close>: statements of at least one row each, or lines; and that it was
  cut no earlier than its limits say.
\<close>

fun file_holds ::
  "FileFormat \<Rightarrow> (string \<Rightarrow> string) \<Rightarrow> Config \<Rightarrow> tableMeta \<Rightarrow> nat \<Rightarrow> raw_bytes list list \<Rightarrow> bytes \<Rightarrow> bool" where
  "file_holds FileFormatSQLText uni cfg meta n rs out \<longleftrightarrow>
     (\<exists>groups. list_all (\<lambda>g. g \<noteq> []) groups \<and> concat groups = rs \<and> out = sql_text uni cfg meta n groups)"
| "file_holds FileFormatCSV uni cfg meta n rs out \<longleftrightarrow> out = csv_text uni cfg meta n rs"
| "file_holds FileFormatUnknown uni cfg meta n rs out \<longleftrightarrow> False"

fun file_cut ::
  "FileFormat \<Rightarrow> (string \<Rightarrow> string) \<Rightarrow> Config \<Rightarrow> tableMeta \<Rightarrow> nat \<Rightarrow> raw_bytes list list \<Rightarrow> bytes \<Rightarrow> bool" where
  "file_cut FileFormatSQLText uni cfg meta n rs out \<longleftrightarrow>
     (\<exists>groups. list_all (\<lambda>g. g \<noteq> []) groups \<and> concat groups = rs \<and> out = sql_text uni cfg meta n groups \<and>
        in_limits (FileSize cfg) (StatementSize cfg) (insert_prefix cfg meta)
          (sql_row cfg meta n (MakeRowReceiver uni (ColumnTypes meta) (conf_Dialect cfg))) (preamble_text meta) groups)"
| "file_cut FileFormatCSV uni cfg meta n rs out \<longleftrightarrow>
     out = csv_text uni cfg meta n rs \<and>
     (\<forall>k. 0 < k \<and> k < length rs \<longrightarrow> \<not> hit (FileSize cfg) (csv_text uni cfg meta n (take k rs)))"
| "file_cut FileFormatUnknown uni cfg meta n rs out \<longleftrightarrow> False"

definition wrote_rows ::
  "FileFormat \<Rightarrow> (string \<Rightarrow> string) \<Rightarrow> connection \<Rightarrow> Config \<Rightarrow> tableMeta \<Rightarrow> 's contents \<Rightarrow> string \<Rightarrow> 's
    \<Rightarrow> SQLRowIter \<Rightarrow> SQLRowIter \<Rightarrow> InterceptFileWriter \<times> 's \<Rightarrow> u64 \<Rightarrow> raw_bytes list list \<Rightarrow> bytes \<Rightarrow> bool" where
  "wrote_rows fmt uni conn cfg meta contents path s it it' ws cnt rs out \<longleftrightarrow>
     iter_ok it' \<and> iter_argLen it' = iter_argLen it \<and> iter_final conn it' = iter_final conn it \<and>
     iter_left conn it = rs @ iter_left conn it' \<and> (rs = [] \<longleftrightarrow> iter_left conn it = []) \<and>
     cnt = of_nat (length rs) \<and>
     (iter_left conn it' = [] \<longrightarrow> iter_final conn it = None) \<and>
     (iter_left conn it' \<noteq> [] \<longrightarrow> hit (FileSize cfg) out) \<and>
     (if rs = [] then out = [] else file_holds fmt uni cfg meta (iter_argLen it) rs out) \<and>
     (rs \<noteq> [] \<longrightarrow> file_cut fmt uni cfg meta (iter_argLen it) rs out) \<and>
     file_written contents path s ws out"

lemma hit_Nil [simp]: "\<not> hit fl []"
  by (auto simp: hit_def)

lemma format_WriteInsert_spec:
  assumes "storage_laws S contents" "iter_ok it" "fmt \<noteq> FileFormatUnknown"
  shows "\<exists>res. format_WriteInsert fmt uni S conn env cfg meta it (buildInterceptFileWriter name ct, s) m = Some res \<and>
    (\<forall>it' ws m' cnt. res = (it', ws, m', cnt, None) \<longrightarrow>
       (\<exists>rs out. wrote_rows fmt uni conn cfg meta contents (name @ compressFileSuffix ct) s it it' ws cnt rs out))"
proof (cases fmt)
  case FileFormatSQLText
  have conv: "wrote_rows FileFormatSQLText uni conn cfg meta contents path s it it' ws cnt (concat groups)
      (if groups = [] then [] else sql_text uni cfg meta (iter_argLen it) groups)"
    if "iter_ok it'" "iter_argLen it' = iter_argLen it" "iter_final conn it' = iter_final conn it"
      "iter_left conn it = concat groups @ iter_left conn it'" "list_all (\<lambda>g. g \<noteq> []) groups"
      "groups = [] \<longleftrightarrow> iter_left conn it = []" "cnt = of_nat (length (concat groups))"
      "iter_left conn it' = [] \<longrightarrow> iter_final conn it = None"
      "iter_left conn it' \<noteq> [] \<longrightarrow> hit (FileSize cfg) (sql_text uni cfg meta (iter_argLen it) groups)"
      "in_limits (FileSize cfg) (StatementSize cfg) (insert_prefix cfg meta)
        (sql_row cfg meta (iter_argLen it) (MakeRowReceiver uni (ColumnTypes meta) (conf_Dialect cfg))) (preamble_text meta) groups"
      "file_written contents path s ws (if groups = [] then [] else sql_text uni cfg meta (iter_argLen it) groups)"
    for groups it' ws cnt path
  proof -
    have "groups = [] \<longleftrightarrow> concat groups = []" using that(5) by (cases groups) auto
    with that show ?thesis unfolding wrote_rows_def by auto
  qed
  from WriteInsert_spec [OF assms(1,2), of uni conn env cfg meta name ct s m] show ?thesis
  proof (elim exE conjE, goal_cases)
    case (1 res)
    have "\<exists>rs out. wrote_rows FileFormatSQLText uni conn cfg meta contents (name @ compressFileSuffix ct) s it it' ws cnt rs out"
      if "res = (it', ws, m', cnt, None)" for it' ws m' cnt
      using 1(2) [rule_format, OF that] by (elim exE conjE) (intro exI, rule conv, assumption+)
    then show ?case using 1(1) FileFormatSQLText by auto
  qed
next
  case FileFormatCSV
  have conv: "wrote_rows FileFormatCSV uni conn cfg meta contents path s it it' ws cnt rs
      (if rs = [] then [] else csv_text uni cfg meta (iter_argLen it) rs)"
    if "iter_ok it'" "iter_argLen it' = iter_argLen it" "iter_final conn it' = iter_final conn it"
      "iter_left conn it = rs @ iter_left conn it'"
      "rs = [] \<longleftrightarrow> iter_left conn it = []" "cnt = of_nat (length rs)"
      "iter_left conn it' = [] \<longrightarrow> iter_final conn it = None"
      "iter_left conn it' \<noteq> [] \<longrightarrow> hit (FileSize cfg) (csv_text uni cfg meta (iter_argLen it) rs)"
      "\<forall>k. 0 < k \<and> k < length rs \<longrightarrow> \<not> hit (FileSize cfg) (csv_text uni cfg meta (iter_argLen it) (take k rs))"
      "file_written contents path s ws (if rs = [] then [] else csv_text uni cfg meta (iter_argLen it) rs)"
    for rs it' ws cnt path
    using that unfolding wrote_rows_def by auto
  from WriteInsertInCsv_spec [OF assms(1,2), of uni conn env cfg meta name ct s m] show ?thesis
  proof (elim exE conjE, goal_cases)
    case (1 res)
    have "\<exists>rs out. wrote_rows FileFormatCSV uni conn cfg meta contents (name @ compressFileSuffix ct) s it it' ws cnt rs out"
      if "res = (it', ws, m', cnt, None)" for it' ws m' cnt
      using 1(2) [rule_format, OF that] by (elim exE conjE) (intro exI, rule conv, assumption+)
    then show ?case using 1(1) FileFormatCSV by auto
  qed
qed (use assms(3) in simp)

end
