(* ===== verification/Writer.thy ===== *)
theory Writer
  imports Insert_Correct Retry
begin

text \<open>
  Writers (\<open>export/writer.go\<close>): a writer takes tasks from the task stream and writes a metadata file or the
  data files of a chunk for each, retrying a chunk on a new connection when it fails.

  Beside the storage \<open>S\<close> and the template engine \<open>tmpl\<close>, the parameters are \<open>ans\<close>, which gives the answers
  of a connection handle, \<open>rebuild\<close>, which replaces a handle, and \<open>env\<close>, which schedules the pipe of the
  \<open>k\<close>-th data file. The callbacks of a writer are recorded as the lists of tasks they were called with.
\<close>

record ('c, 'w, 's) Writer =
  wr_id :: int
  wr_conf :: Config
  wr_conn :: 'c
  wr_fileFmt :: FileFormat
  wr_receivedTaskCount :: nat
  wr_finishedTasks :: "Task list"
  wr_finishedTables :: "Task list"
  wr_world :: 'w
  wr_store :: 's
  wr_metrics :: metrics
  wr_errorCount :: nat
  wr_files :: nat

definition NewWriter ::
  "(string \<Rightarrow> string) \<Rightarrow> int \<Rightarrow> Config \<Rightarrow> 'c \<Rightarrow> 'w \<Rightarrow> 's \<Rightarrow> metrics \<Rightarrow> ('c, 'w, 's) Writer" where
  "NewWriter uni i config conn w s m =
     \<lparr>wr_id = i, wr_conf = config, wr_conn = conn,
      wr_fileFmt = (let t = ToLower uni (FileType config)
                    in if t = FileFormatSQLTextString then FileFormatSQLText
                       else if t = FileFormatCSVString then FileFormatCSV else FileFormatUnknown),
      wr_receivedTaskCount = 0, wr_finishedTasks = [], wr_finishedTables = [],
      wr_world = w, wr_store = s, wr_metrics = m, wr_errorCount = 0, wr_files = 0\<rparr>"

definition countTotalTask :: "('c, 'w, 's) Writer list \<Rightarrow> nat" where
  "countTotalTask writers = foldl (\<lambda>n w. n + wr_receivedTaskCount w) 0 writers"

section \<open>Metadata files\<close>

definition writeMetaToFile ::
  "'s ext_storage \<Rightarrow> Config \<Rightarrow> string \<Rightarrow> string \<Rightarrow> string \<Rightarrow> 's \<Rightarrow> 's \<times> error option" where
  "writeMetaToFile S conf target metaSQL path s =
     (case buildFileWriter S path (conf_CompressType conf) s of
        (s1, Inl e) \<Rightarrow> (s1, Some e)
      | (s1, Inr p) \<Rightarrow>
          (case WriteMeta S \<lparr>md_target = target, md_metaSQL = metaSQL, md_specCmts = EffectivePreamble conf\<rparr> p s1 of
             (s2, err) \<Rightarrow>
               (case sto_close S p s2 of
                  (s3, tearDownErr) \<Rightarrow> (s3, case err of None \<Rightarrow> tearDownErr | Some e \<Rightarrow> Some e))))"

definition plain_namer :: outputFileNamer where
  "plain_namer = \<lparr>ChunkIndex = 0, FileIndex = 0, Policy = '''', DB = '''', nm_Table = '''', nm_format = ChunkOnly\<rparr>"

text \<open>Render a name, then write the file; all the \<open>Write\<dots>Meta\<close> methods are of this form.\<close>

definition write_named ::
  "template_engine \<Rightarrow> 's ext_storage \<Rightarrow> Config \<Rightarrow> template_name \<Rightarrow> outputFileNamer \<Rightarrow> string \<Rightarrow> string \<Rightarrow> 's \<Rightarrow> 's \<times> error option"
where
  "write_named tmpl S conf sub namer target createSQL s =
     (case render tmpl (OutputFileTemplate conf) sub namer of
        Inl e \<Rightarrow> (s, Some e)
      | Inr fileName \<Rightarrow> writeMetaToFile S conf target createSQL (fileName @ ''.sql'') s)"

definition WritePolicyMeta where
  "WritePolicyMeta tmpl S conf policy createSQL =
     write_named tmpl S conf TPolicy (plain_namer\<lparr>Policy := policy\<rparr>) ''placement-policy'' createSQL"

definition WriteDatabaseMeta where
  "WriteDatabaseMeta tmpl S conf db createSQL = write_named tmpl S conf TSchema (plain_namer\<lparr>DB := db\<rparr>) db createSQL"

definition WriteTableMeta where
  "WriteTableMeta tmpl S conf db table createSQL =
     write_named tmpl S conf TTable (plain_namer\<lparr>DB := db, nm_Table := table\<rparr>) db createSQL"

definition WriteSequenceMeta where
  "WriteSequenceMeta tmpl S conf db seqName createSQL =
     write_named tmpl S conf TSequence (plain_namer\<lparr>DB := db, nm_Table := seqName\<rparr>) db createSQL"

definition WriteViewMeta ::
  "template_engine \<Rightarrow> 's ext_storage \<Rightarrow> Config \<Rightarrow> string \<Rightarrow> string \<Rightarrow> string \<Rightarrow> string \<Rightarrow> 's \<Rightarrow> 's \<times> error option" where
  "WriteViewMeta tmpl S conf db view createTableSQL createViewSQL s =
     (let namer = plain_namer\<lparr>DB := db, nm_Table := view\<rparr>
      in case render tmpl (OutputFileTemplate conf) TTable namer of
           Inl e \<Rightarrow> (s, Some e)
         | Inr fileNameTable \<Rightarrow>
             (case render tmpl (OutputFileTemplate conf) TView namer of
                Inl e \<Rightarrow> (s, Some e)
              | Inr fileNameView \<Rightarrow>
                  (case writeMetaToFile S conf db createTableSQL (fileNameTable @ ''.sql'') s of
                     (s', Some e) \<Rightarrow> (s', Some e)
                   | (s', None) \<Rightarrow> writeMetaToFile S conf db createViewSQL (fileNameView @ ''.sql'') s')))"

section \<open>Data files\<close>

text \<open>
  The loop of \<open>tryToWriteTableData\<close>: one file per turn, until nothing is written, or after the first file
  when no file size is set. Files are numbered by \<open>k\<close> for their schedules.
\<close>

partial_function (option) write_files ::
  "(string \<Rightarrow> string) \<Rightarrow> template_engine \<Rightarrow> 's ext_storage \<Rightarrow> connection \<Rightarrow> (nat \<Rightarrow> pipe_env) \<Rightarrow> Config \<Rightarrow> FileFormat
    \<Rightarrow> tableMeta \<Rightarrow> nat \<Rightarrow> outputFileNamer \<Rightarrow> string \<Rightarrow> table_data \<Rightarrow> 's \<Rightarrow> metrics
    \<Rightarrow> (table_data \<times> 's \<times> metrics \<times> nat \<times> error option) option" where
  "write_files uni tmpl S conn env conf fmt meta k namer fileName td s m =
     (case td_Rows conn td of
        Inl e \<Rightarrow> Some (td, s, m, k, Some e)
      | Inr (td1, it) \<Rightarrow>
          (case format_WriteInsert fmt uni S conn (env k) conf meta it
                  (buildInterceptFileWriter fileName (conf_CompressType conf), s) m of
             None \<Rightarrow> None
           | Some (it', ws, m', n, err) \<Rightarrow>
               let td2 = td1\<lparr>td_iter := Some it'\<rparr>
               in case iw_tearDown S ws of
                    (s', tearDownErr) \<Rightarrow>
                      if err \<noteq> None then Some (td2, s', m', k + 1, err)
                      else if tearDownErr \<noteq> None then Some (td2, s', m', k + 1, tearDownErr)
                      else if \<not> iw_SomethingIsWritten (fst ws) then Some (td2, s', m', k + 1, None)
                      else if FileSize conf = UnspecifiedSize then Some (td2, s', m', k + 1, None)
                      else (case NextName tmpl (OutputFileTemplate conf) (Extension fmt) namer of
                              (namer', Inl e) \<Rightarrow> Some (td2, s', m', k + 1, Some e)
                            | (namer', Inr fileName') \<Rightarrow>
                                write_files uni tmpl S conn env conf fmt meta (k + 1) namer' fileName' td2 s' m')))"

definition tryToWriteTableData ::
  "(string \<Rightarrow> string) \<Rightarrow> template_engine \<Rightarrow> 's ext_storage \<Rightarrow> connection \<Rightarrow> (nat \<Rightarrow> pipe_env) \<Rightarrow> Config \<Rightarrow> FileFormat
    \<Rightarrow> tableMeta \<Rightarrow> nat \<Rightarrow> nat \<Rightarrow> table_data \<Rightarrow> 's \<Rightarrow> metrics
    \<Rightarrow> (table_data \<times> 's \<times> metrics \<times> nat \<times> error option) option" where
  "tryToWriteTableData uni tmpl S conn env conf fmt meta curChkIdx k td s m =
     (let namer = newOutputFileNamer meta curChkIdx (Rows conf \<noteq> UnspecifiedSize) (FileSize conf \<noteq> UnspecifiedSize)
      in case NextName tmpl (OutputFileTemplate conf) (Extension fmt) namer of
           (namer', Inl e) \<Rightarrow> Some (td, s, m, k, Some e)
         | (namer', Inr fileName) \<Rightarrow> write_files uni tmpl S conn env conf fmt meta k namer' fileName td s m)"

section \<open>Retrying a chunk\<close>

text \<open>
  The state of the closure \<open>WriteTableData\<close> retries: attempts made, connection, metadata, table data and the
  writer. A call that does not return is \<open>None\<close> (and the retry loop does not go on after it).
\<close>

type_synonym ('c, 'w, 's) chunk_state = "nat \<times> tableMeta \<times> table_data \<times> ('c, 'w, 's) Writer"

text \<open>
  The metadata of a query's result, taken from its rows. \<open>ColumnTypes\<close> and \<open>Columns\<close> only fail on closed
  rows, and these have just been opened.
\<close>

definition attempt_meta :: "Config \<Rightarrow> table_data \<Rightarrow> tableMeta \<Rightarrow> tableMeta \<times> error option" where
  "attempt_meta conf td meta =
     (if SQL conf = '''' then (meta, None)
      else case td_rows td of
             None \<Rightarrow> (meta, Some (Panic ''nil pointer dereference''))
           | Some rs \<Rightarrow> (setTableMetaFromRows rs conf, Rows_Err rs))"

definition write_attempt ::
  "(string \<Rightarrow> string) \<Rightarrow> template_engine \<Rightarrow> 's ext_storage \<Rightarrow> ('c \<Rightarrow> connection) \<Rightarrow> (nat \<Rightarrow> pipe_env) \<Rightarrow> nat
    \<Rightarrow> ('c, 'w, 's) chunk_state \<Rightarrow> (('c, 'w, 's) chunk_state \<times> error option) option" where
  "write_attempt uni tmpl S ans env curChkIdx st =
     (case st of (retryTime, meta, td, w) \<Rightarrow>
        case Start (ans (wr_conn w)) td of
          Inl e \<Rightarrow> Some (st, Some e)
        | Inr td1 \<Rightarrow>
            (case attempt_meta (wr_conf w) td1 meta of
               (meta', Some e) \<Rightarrow> Some ((retryTime, meta', td1, w), Some e)
             | (meta', None) \<Rightarrow>
                 map_option
                   (\<lambda>(td2, s, m, k, err).
                      ((retryTime, meta', td2, w\<lparr>wr_store := s, wr_metrics := m, wr_files := k\<rparr>), err))
                   (tryToWriteTableData uni tmpl S (ans (wr_conn w)) env (wr_conf w) (wr_fileFmt w) meta' curChkIdx
                      (wr_files w) td1 (wr_store w) (wr_metrics w))))"

definition chunk_try ::
  "(string \<Rightarrow> string) \<Rightarrow> template_engine \<Rightarrow> 's ext_storage \<Rightarrow> ('c \<Rightarrow> connection) \<Rightarrow> (nat \<Rightarrow> pipe_env) \<Rightarrow> ('c, 'w) rebuild \<Rightarrow> nat
    \<Rightarrow> ('c, 'w, 's) chunk_state option \<Rightarrow> ('c, 'w, 's) chunk_state option \<times> error option" where
  "chunk_try uni tmpl S ans env rebuild curChkIdx st =
     (case st of
        None \<Rightarrow> (None, None)
      | Some (n, meta, td, w) \<Rightarrow>
          let n' = n + 1;
              counted = (\<lambda>st err. case st of (n, meta, td, w) \<Rightarrow>
                 (Some (n, meta, td, if err \<noteq> None then w\<lparr>wr_errorCount := wr_errorCount w + 1\<rparr> else w), err));
              try = (\<lambda>w'. case write_attempt uni tmpl S ans env curChkIdx (n', meta, td, w') of
                 None \<Rightarrow> (None, None) | Some (st', err) \<Rightarrow> counted st' err)
          in if n' > 1
             then (case rebuild (wr_conn w) True (wr_world w) of
                     (x, c, Some e) \<Rightarrow> counted (n', meta, td, w\<lparr>wr_conn := c, wr_world := x\<rparr>) (Some e)
                   | (x, c, None) \<Rightarrow> try (w\<lparr>wr_conn := c, wr_world := x\<rparr>))
             else try w)"

definition canRebuildConn :: "string \<Rightarrow> bool \<Rightarrow> bool" where
  "canRebuildConn consistency trxConsistencyOnly \<longleftrightarrow>
     consistency = ConsistencyTypeSnapshot \<or> consistency = ConsistencyTypeNone \<or> consistency = ConsistencyTypeAuto"

definition WriteTableData ::
  "(string \<Rightarrow> string) \<Rightarrow> template_engine \<Rightarrow> 's ext_storage \<Rightarrow> ('c \<Rightarrow> connection) \<Rightarrow> (nat \<Rightarrow> pipe_env) \<Rightarrow> ('c, 'w) rebuild
    \<Rightarrow> (nat \<Rightarrow> bool) \<Rightarrow> tableMeta \<Rightarrow> TableDataIR \<Rightarrow> nat \<Rightarrow> ('c, 'w, 's) Writer \<Rightarrow> (('c, 'w, 's) Writer \<times> error list) option" where
  "WriteTableData uni tmpl S ans env rebuild cancelled meta ir currentChunk w =
     (case WithRetry cancelled (chunk_try uni tmpl S ans env rebuild currentChunk)
             (newRebuildConnBackOffer (canRebuildConn (Consistency (wr_conf w)) (TransactionalConsistency (wr_conf w))))
             [] (Some (0, meta, td_new ir, w)) of
        (None, b, errs, waits) \<Rightarrow> None
      | (Some (n, meta', td, w'), b, errs, waits) \<Rightarrow> Some (w', errs))"

section \<open>Tasks\<close>

definition on_store :: "('s \<Rightarrow> 's \<times> error option) \<Rightarrow> ('c, 'w, 's) Writer \<Rightarrow> ('c, 'w, 's) Writer \<times> error list" where
  "on_store f w = (case f (wr_store w) of (s, err) \<Rightarrow> (w\<lparr>wr_store := s\<rparr>, case err of None \<Rightarrow> [] | Some e \<Rightarrow> [e]))"

fun handleTask ::
  "(string \<Rightarrow> string) \<Rightarrow> template_engine \<Rightarrow> 's ext_storage \<Rightarrow> ('c \<Rightarrow> connection) \<Rightarrow> (nat \<Rightarrow> pipe_env) \<Rightarrow> ('c, 'w) rebuild
    \<Rightarrow> (nat \<Rightarrow> bool) \<Rightarrow> Task \<Rightarrow> ('c, 'w, 's) Writer \<Rightarrow> (('c, 'w, 's) Writer \<times> error list) option" where
  "handleTask uni tmpl S ans env rebuild cancelled (TaskDatabaseMeta db sql) w =
     Some (on_store (WriteDatabaseMeta tmpl S (wr_conf w) db sql) w)"
| "handleTask uni tmpl S ans env rebuild cancelled (TaskTableMeta db t sql) w =
     Some (on_store (WriteTableMeta tmpl S (wr_conf w) db t sql) w)"
| "handleTask uni tmpl S ans env rebuild cancelled (TaskViewMeta db v tsql vsql) w =
     Some (on_store (WriteViewMeta tmpl S (wr_conf w) db v tsql vsql) w)"
| "handleTask uni tmpl S ans env rebuild cancelled (TaskSequenceMeta db q sql) w =
     Some (on_store (WriteSequenceMeta tmpl S (wr_conf w) db q sql) w)"
| "handleTask uni tmpl S ans env rebuild cancelled (TaskPolicyMeta p sql) w =
     Some (on_store (WritePolicyMeta tmpl S (wr_conf w) p sql) w)"
| "handleTask uni tmpl S ans env rebuild cancelled (TaskTableData meta ir chunk tot) w =
     map_option
       (\<lambda>(w', errs). (if errs = [] \<and> int chunk + 1 = tot
                      then w'\<lparr>wr_finishedTables := wr_finishedTables w' @ [TaskTableData meta ir chunk tot]\<rparr> else w', errs))
       (WriteTableData uni tmpl S ans env rebuild cancelled meta ir chunk w)"

text \<open>\<open>run\<close>: what the writer finds when it looks at the task stream is a list of events.\<close>

datatype stream_event = Received Task | StreamClosed | ContextDone

fun Writer_run ::
  "(string \<Rightarrow> string) \<Rightarrow> template_engine \<Rightarrow> 's ext_storage \<Rightarrow> ('c \<Rightarrow> connection) \<Rightarrow> (nat \<Rightarrow> pipe_env) \<Rightarrow> ('c, 'w) rebuild
    \<Rightarrow> (nat \<Rightarrow> nat \<Rightarrow> bool) \<Rightarrow> stream_event list \<Rightarrow> ('c, 'w, 's) Writer \<Rightarrow> (('c, 'w, 's) Writer \<times> error list) option" where
  "Writer_run uni tmpl S ans env rebuild cancelled [] w = Some (w, [])"
| "Writer_run uni tmpl S ans env rebuild cancelled (ContextDone # es) w = Some (w, [])"
| "Writer_run uni tmpl S ans env rebuild cancelled (StreamClosed # es) w = Some (w, [])"
| "Writer_run uni tmpl S ans env rebuild cancelled (Received task # es) w =
     (case handleTask uni tmpl S ans env rebuild (cancelled (wr_receivedTaskCount w)) task (w\<lparr>wr_receivedTaskCount := wr_receivedTaskCount w + 1\<rparr>) of
        None \<Rightarrow> None
      | Some (w', errs) \<Rightarrow>
          if errs \<noteq> [] then Some (w', errs)
          else Writer_run uni tmpl S ans env rebuild cancelled es
                 (w'\<lparr>wr_finishedTasks := wr_finishedTasks w' @ [task]\<rparr>))"

end
