(* ===== verification/Writer_Correct.thy ===== *)
theory Writer_Correct
  imports Writer
begin

text \<open>
  Correctness of the writers: the data files of a chunk hold all its rows, metadata files hold their
  statement, and the loops over files and attempts end.
\<close>

section \<open>Names of data files\<close>

text \<open>The templates that are not run by the template package: the default and the one for query results.\<close>

definition built_in_template :: "Config \<Rightarrow> bool" where
  "built_in_template conf \<longleftrightarrow> OutputFileTemplate conf \<in> {'''', DefaultAnonymousOutputFileTemplateText}"

definition data_stem :: "Config \<Rightarrow> outputFileNamer \<Rightarrow> string" where
  "data_stem conf namer =
     (if OutputFileTemplate conf = '''' then default_template TData namer else ''result.'' @ Index namer)"

definition data_name :: "Config \<Rightarrow> FileFormat \<Rightarrow> tableMeta \<Rightarrow> nat \<Rightarrow> nat \<Rightarrow> string" where
  "data_name conf fmt meta chunk j =
     data_stem conf
       ((newOutputFileNamer meta chunk (Rows conf \<noteq> UnspecifiedSize) (FileSize conf \<noteq> UnspecifiedSize))\<lparr>FileIndex := j\<rparr>) @
     ''.'' @ Extension fmt"

definition data_path :: "Config \<Rightarrow> FileFormat \<Rightarrow> tableMeta \<Rightarrow> nat \<Rightarrow> nat \<Rightarrow> string" where
  "data_path conf fmt meta chunk j = data_name conf fmt meta chunk j @ compressFileSuffix (conf_CompressType conf)"

lemma data_path_inj:
  assumes "FileSize conf \<noteq> UnspecifiedSize" "data_path conf fmt meta chunk i = data_path conf fmt meta chunk j"
  shows "i = j"
  using assms by (auto simp: data_path_def data_name_def data_stem_def Index_def newOutputFileNamer_def split: if_splits)

abbreviation data_namer :: "Config \<Rightarrow> tableMeta \<Rightarrow> nat \<Rightarrow> nat \<Rightarrow> outputFileNamer" where
  "data_namer conf meta chunk j \<equiv>
     (newOutputFileNamer meta chunk (Rows conf \<noteq> UnspecifiedSize) (FileSize conf \<noteq> UnspecifiedSize))\<lparr>FileIndex := j\<rparr>"

lemma NextName_data:
  "built_in_template conf \<Longrightarrow>
    NextName tmpl (OutputFileTemplate conf) (Extension fmt) (data_namer conf meta chunk j) =
      (data_namer conf meta chunk (Suc j), Inr (data_name conf fmt meta chunk j))"
  by (auto simp: NextName_def render_def data_name_def data_stem_def built_in_template_def)

section \<open>The files of a chunk\<close>

text \<open>
  Which files were written: file \<open>i\<close> has the rows and the text at position \<open>i\<close>, each at least one row, and
  is in the storage (an empty text, which only a CSV file without fields and line ends has, creates no file).
\<close>

definition files_written ::
  "(string \<Rightarrow> string) \<Rightarrow> Config \<Rightarrow> FileFormat \<Rightarrow> tableMeta \<Rightarrow> nat \<Rightarrow> nat \<Rightarrow> nat \<Rightarrow> ('s \<Rightarrow> string \<Rightarrow> bytes option) \<Rightarrow> 's
    \<Rightarrow> (raw_bytes list list \<times> bytes) list \<Rightarrow> bool" where
  "files_written uni conf fmt meta n chunk j contents s files \<longleftrightarrow>
     (\<forall>i < length files. fst (files ! i) \<noteq> [] \<and> file_holds fmt uni conf meta n (fst (files ! i)) (snd (files ! i)) \<and>
        (snd (files ! i) \<noteq> [] \<longrightarrow> contents s (data_path conf fmt meta chunk (j + i)) = Some (snd (files ! i))))"

lemma files_written_Nil [simp]: "files_written uni conf fmt meta n chunk j contents s []"
  by (simp add: files_written_def)

lemma files_written_Cons:
  assumes "files_written uni conf fmt meta n chunk (Suc j) contents s files"
    "rs \<noteq> []" "file_holds fmt uni conf meta n rs out" "out \<noteq> [] \<Longrightarrow> contents s (data_path conf fmt meta chunk j) = Some out"
  shows "files_written uni conf fmt meta n chunk j contents s ((rs, out) # files)"
  unfolding files_written_def
proof (intro allI impI)
  fix i assume "i < length ((rs, out) # files)"
  then show "fst (((rs, out) # files) ! i) \<noteq> [] \<and>
      file_holds fmt uni conf meta n (fst (((rs, out) # files) ! i)) (snd (((rs, out) # files) ! i)) \<and>
      (snd (((rs, out) # files) ! i) \<noteq> [] \<longrightarrow>
        contents s (data_path conf fmt meta chunk (j + i)) = Some (snd (((rs, out) # files) ! i)))"
    using assms by (cases i) (auto simp: files_written_def)
qed

lemma tearDown_spec:
  assumes "storage_laws S contents" "iw_tearDown S ws = (s', None)" "file_written contents path s ws out"
  shows "(out \<noteq> [] \<longrightarrow> contents s' path = Some out) \<and> (\<forall>q. q \<noteq> path \<longrightarrow> contents s' q = contents s q)"
proof -
  obtain w t where ws: "ws = (w, t)" by fastforce
  show ?thesis
  proof (cases "iw_open w")
    case True
    then have c: "sto_close S (iw_path w) t = (s', None)" using assms(2) ws by (simp add: iw_tearDown_def)
    show ?thesis
      using storage_close [OF assms(1) c] storage_frame(3) [OF assms(1) _ c] assms(3) ws by (auto simp: file_written_def)
  next
    case False
    then show ?thesis using assms(2,3) ws by (auto simp: iw_tearDown_def file_written_def)
  qed
qed

text \<open>Table data of a chunk, at any moment of its life.\<close>

definition td_wf :: "TableDataIR \<Rightarrow> table_data \<Rightarrow> bool" where
  "td_wf ir td \<longleftrightarrow> td_ir td = ir \<and> (case ir of tableData q n needed \<Rightarrow> needed \<or> td_colLen td = n | multiQueriesChunk qs n \<Rightarrow> td_rows td = None)"

lemma td_wf_new [simp]: "td_wf ir (td_new ir)"
  by (simp add: td_wf_def td_new_def split: TableDataIR.splits)

lemma td_wf_iter [simp]: "td_wf ir (td\<lparr>td_iter := it\<rparr>) = td_wf ir td"
  by (simp add: td_wf_def split: TableDataIR.splits)

lemma td_Rows_wf: "td_Rows conn td = Inr (td', it) \<Longrightarrow> td_wf ir td' = td_wf ir td"
  by (auto simp: td_Rows_def Let_def split: option.splits TableDataIR.splits)

lemma td_Rows_again: "td_Rows conn (td\<lparr>td_iter := Some it\<rparr>) = Inr (td\<lparr>td_iter := Some it\<rparr>, it)"
  by (simp add: td_Rows_def)

text \<open>How the rows are distributed over files: each file but the last ends because its size limit was reached.\<close>

fun file_cuts ::
  "FileFormat \<Rightarrow> (string \<Rightarrow> string) \<Rightarrow> Config \<Rightarrow> tableMeta \<Rightarrow> nat \<Rightarrow> raw_bytes list list
    \<Rightarrow> (raw_bytes list list \<times> bytes) list \<Rightarrow> bool" where
  "file_cuts fmt uni conf meta n rows [] \<longleftrightarrow> rows = []"
| "file_cuts fmt uni conf meta n rows ((rs, out) # files) \<longleftrightarrow>
     rs \<noteq> [] \<and> file_cut fmt uni conf meta n rs out \<and>
     (\<exists>left. rows = rs @ left \<and> (left \<noteq> [] \<longrightarrow> hit (FileSize conf) out) \<and> file_cuts fmt uni conf meta n left files)"

text \<open>What the loop achieves from file \<open>j\<close> on, if it reports no error.\<close>

definition chunk_written ::
  "(string \<Rightarrow> string) \<Rightarrow> connection \<Rightarrow> Config \<Rightarrow> FileFormat \<Rightarrow> tableMeta \<Rightarrow> nat \<Rightarrow> nat \<Rightarrow> ('s \<Rightarrow> string \<Rightarrow> bytes option)
    \<Rightarrow> SQLRowIter \<Rightarrow> 's \<Rightarrow> 's \<Rightarrow> (raw_bytes list list \<times> bytes) list \<Rightarrow> bool" where
  "chunk_written uni conn conf fmt meta chunk j contents it s s' files \<longleftrightarrow>
     concat (map fst files) = iter_left conn it \<and> iter_final conn it = None \<and>
     files_written uni conf fmt meta (iter_argLen it) chunk j contents s' files \<and>
     file_cuts fmt uni conf meta (iter_argLen it) (iter_left conn it) files \<and>
     (\<forall>q. (\<forall>i. q \<noteq> data_path conf fmt meta chunk (j + i)) \<longrightarrow> contents s' q = contents s q)"

lemma write_files_spec:
  assumes laws: "storage_laws S contents" and fmt: "fmt \<noteq> FileFormatUnknown" and tm: "built_in_template conf"
    and "td_Rows conn td = Inr (td1, it)" "iter_ok it"
  shows "\<exists>td' s' m' k' err. write_files uni tmpl S conn env conf fmt meta k (data_namer conf meta chunk (Suc j))
      (data_name conf fmt meta chunk j) td s m = Some (td', s', m', k', err) \<and>
    td_wf ir td' = td_wf ir td1 \<and>
    (err = None \<longrightarrow> (\<exists>files. chunk_written uni conn conf fmt meta chunk j contents it s s' files))"
  using assms(4,5)
proof (induction "length (iter_left conn it)" arbitrary: k j td td1 it s m rule: less_induct)
  case less
  let ?name = "data_name conf fmt meta chunk j" and ?path = "data_path conf fmt meta chunk j"
  obtain it' ws m' cnt err where w: "format_WriteInsert fmt uni S conn (env k) conf meta it
      (buildInterceptFileWriter ?name (conf_CompressType conf), s) m = Some (it', ws, m', cnt, err)"
    and sp: "err = None \<Longrightarrow> \<exists>rs out. wrote_rows fmt uni conn conf meta contents ?path s it it' ws cnt rs out"
    using format_WriteInsert_spec [OF laws less(3) fmt, of uni conn "env k" conf meta ?name "conf_CompressType conf" s m]
    unfolding data_path_def by (metis surj_pair)
  obtain s1 td_err where td: "iw_tearDown S ws = (s1, td_err)" by fastforce
  note run = write_files.simps [of uni tmpl S conn env conf fmt meta k _ ?name td s m]
  show ?case
  proof (cases "err = None \<and> td_err = None")
    case False
    have "write_files uni tmpl S conn env conf fmt meta k (data_namer conf meta chunk (Suc j)) ?name td s m =
        Some (td1\<lparr>td_iter := Some it'\<rparr>, s1, m', k + 1, if err \<noteq> None then err else td_err)"
      using False by (subst run) (auto simp: w td less(2) Let_def)
    moreover have "(if err \<noteq> None then err else td_err) \<noteq> None" using False by auto
    ultimately show ?thesis by (intro exI conjI impI) (assumption, simp, metis)
  next
    case ok: True
    with sp obtain rs out where wr: "wrote_rows fmt uni conn conf meta contents ?path s it it' ws cnt rs out" by blast
    have iw: "iw_SomethingIsWritten (fst ws) = (out \<noteq> [])" and fw: "file_written contents ?path s ws out"
      using wr unfolding wrote_rows_def file_written_def by blast+
    note tds = tearDown_spec [OF laws td [unfolded ok [THEN conjunct2]] fw]
    have left: "iter_left conn it = rs @ iter_left conn it'" "rs = [] \<longleftrightarrow> iter_left conn it = []"
      "iter_final conn it' = iter_final conn it" "iter_argLen it' = iter_argLen it" "iter_ok it'"
      "iter_left conn it' = [] \<Longrightarrow> iter_final conn it = None" "iter_left conn it' \<noteq> [] \<Longrightarrow> hit (FileSize conf) out"
      and holds: "if rs = [] then out = [] else file_holds fmt uni conf meta (iter_argLen it) rs out"
      and cut: "rs \<noteq> [] \<Longrightarrow> file_cut fmt uni conf meta (iter_argLen it) rs out"
      using wr unfolding wrote_rows_def by blast+
    have left8: "rs \<noteq> [] \<Longrightarrow> file_holds fmt uni conf meta (iter_argLen it) rs out" and left9: "rs = [] \<Longrightarrow> out = []"
      using holds by simp_all
    show ?thesis
    proof (cases "out = [] \<or> FileSize conf = UnspecifiedSize")
      case True
      then have "\<not> hit (FileSize conf) out" by (auto simp: hit_def UnspecifiedSize_def)
      then have "iter_left conn it' = []" using left(7) by blast
      then have rs: "iter_left conn it = rs" "iter_final conn it = None" using left by simp_all
      have "chunk_written uni conn conf fmt meta chunk j contents it s s1 (if rs = [] then [] else [(rs, out)])"
        using rs left8 left9 cut tds files_written_Cons [of uni conf fmt meta "iter_argLen it" chunk j contents s1 "[]" rs out]
        by (auto simp: chunk_written_def dest: spec [of _ 0])
      moreover have "write_files uni tmpl S conn env conf fmt meta k (data_namer conf meta chunk (Suc j)) ?name td s m =
          Some (td1\<lparr>td_iter := Some it'\<rparr>, s1, m', k + 1, None)"
        using True ok by (subst run) (auto simp: w td less(2) iw Let_def)
      ultimately show ?thesis by (intro exI conjI impI) (assumption, simp, assumption)
    next
      case False
      then have rs: "rs \<noteq> []" using left9 by blast
      have "write_files uni tmpl S conn env conf fmt meta k (data_namer conf meta chunk (Suc j)) ?name td s m =
          write_files uni tmpl S conn env conf fmt meta (k + 1) (data_namer conf meta chunk (Suc (Suc j)))
            (data_name conf fmt meta chunk (Suc j)) (td1\<lparr>td_iter := Some it'\<rparr>) s1 m'"
        using False ok NextName_data [OF tm, where tmpl = tmpl and fmt = fmt and meta = meta and chunk = chunk and j = "Suc j"] by (subst run) (simp add: w td less(2) iw Let_def)
      moreover have "length (iter_left conn it') < length (iter_left conn it)" using left(1) rs by simp
      from less(1) [OF this td_Rows_again left(5)] obtain td' s' m'' k' err' where
        rec: "write_files uni tmpl S conn env conf fmt meta (k + 1) (data_namer conf meta chunk (Suc (Suc j)))
            (data_name conf fmt meta chunk (Suc j)) (td1\<lparr>td_iter := Some it'\<rparr>) s1 m' = Some (td', s', m'', k', err')"
        and wf: "td_wf ir td' = td_wf ir td1"
        and IH: "err' = None \<Longrightarrow> \<exists>files. chunk_written uni conn conf fmt meta chunk (Suc j) contents it' s1 s' files"
        unfolding td_wf_iter by blast
      have "\<exists>files. chunk_written uni conn conf fmt meta chunk j contents it s s' files" if "err' = None"
      proof -
        from IH [OF that] obtain files where f: "chunk_written uni conn conf fmt meta chunk (Suc j) contents it' s1 s' files" ..
        have ne: "?path \<noteq> data_path conf fmt meta chunk (Suc j + i)" for i
          using data_path_inj [of conf fmt meta chunk j "Suc j + i"] False by auto
        then have "contents s' ?path = Some out" using f tds False by (simp add: chunk_written_def)
        moreover have "contents s' q = contents s q" if "\<forall>i. q \<noteq> data_path conf fmt meta chunk (j + i)" for q
          using f tds that [THEN spec, of 0] that [THEN spec, of "Suc _"] by (simp add: chunk_written_def)
        ultimately have "chunk_written uni conn conf fmt meta chunk j contents it s s' ((rs, out) # files)"
          using f left left8 rs cut files_written_Cons [of uni conf fmt meta "iter_argLen it" chunk j contents s' files rs out]
          by (auto simp: chunk_written_def)
        then show ?thesis ..
      qed
      with rec wf show ?thesis using calculation by auto
    qed
  qed
qed

section \<open>Attempts\<close>

text \<open>The width of the rows of a chunk, and the metadata its files are written with: those of the result
  itself for a chunk of a given query.\<close>

definition first_result :: "connection \<Rightarrow> TableDataIR \<Rightarrow> query_result" where
  "first_result conn ir =
     (case ir of
        tableData q n needed \<Rightarrow> (case conn q of Inr r \<Rightarrow> r | Inl e \<Rightarrow> \<lparr>qr_cols = [], qr_rows = [], qr_err = None\<rparr>)
      | multiQueriesChunk qs n \<Rightarrow> \<lparr>qr_cols = [], qr_rows = [], qr_err = None\<rparr>)"

definition ir_width :: "connection \<Rightarrow> TableDataIR \<Rightarrow> nat" where
  "ir_width conn ir =
     (case ir of
        tableData q n needed \<Rightarrow> if needed then length (qr_cols (first_result conn ir)) else n
      | multiQueriesChunk qs n \<Rightarrow> n)"

definition chunk_meta :: "connection \<Rightarrow> Config \<Rightarrow> tableMeta \<Rightarrow> TableDataIR \<Rightarrow> tableMeta" where
  "chunk_meta conn conf meta ir =
     (if SQL conf = '''' then meta else setTableMetaFromRows (open_rows (first_result conn ir)) conf)"

definition chunk_done ::
  "(string \<Rightarrow> string) \<Rightarrow> connection \<Rightarrow> Config \<Rightarrow> FileFormat \<Rightarrow> tableMeta \<Rightarrow> TableDataIR \<Rightarrow> nat \<Rightarrow> ('s \<Rightarrow> string \<Rightarrow> bytes option)
    \<Rightarrow> 's \<Rightarrow> (raw_bytes list list \<times> bytes) list \<Rightarrow> bool" where
  "chunk_done uni conn conf fmt meta ir chunk contents s files \<longleftrightarrow>
     concat (map fst files) = query_rows conn (ir_queries ir) \<and> query_err conn (ir_queries ir) = None \<and>
     files_written uni conf fmt (chunk_meta conn conf meta ir) (ir_width conn ir) chunk 0 contents s files \<and>
     file_cuts fmt uni conf (chunk_meta conn conf meta ir) (ir_width conn ir) (query_rows conn (ir_queries ir)) files"

lemma Start_Rows:
  assumes "Start conn td0 = Inr td" "td_wf ir td0"
  shows "\<exists>td' it. td_Rows conn td = Inr (td', it) \<and> td_wf ir td \<and> td_wf ir td' \<and> iter_ok it \<and>
    iter_left conn it = query_rows conn (ir_queries ir) \<and> iter_final conn it = query_err conn (ir_queries ir) \<and>
    iter_argLen it = ir_width conn ir"
proof (cases ir)
  case (tableData q n b)
  then have ir0: "td_ir td0 = tableData q n b" and len: "b \<or> td_colLen td0 = n" using assms(2) by (simp_all add: td_wf_def)
  then obtain r where r: "conn q = Inr r" using assms(1) by (auto simp: Start_def split: sum.splits)
  then have td: "td = (let t = td0\<lparr>td_iter := None, td_rows := Some (open_rows r)\<rparr>
      in if b then t\<lparr>td_colLen := length (qr_cols r), td_colTypes := map snd (qr_cols r)\<rparr> else t)"
    using assms(1) ir0 by (simp add: Start_def Let_def)
  have w: "td_colLen td = ir_width conn ir" "td_ir td = ir" "td_iter td = None" "td_rows td = Some (open_rows r)"
    using td tableData r len ir0 by (auto simp: ir_width_def first_result_def Let_def)
  then have "td_Rows conn td = Inr (td\<lparr>td_iter := Some (RowIter (newRowIter (open_rows r) (td_colLen td)))\<rparr>,
      RowIter (newRowIter (open_rows r) (td_colLen td)))"
    using tableData by (simp add: td_Rows_def Let_def)
  moreover have "iter_argLen (RowIter (newRowIter (open_rows r) (td_colLen td))) = ir_width conn ir"
    using w(1) by (simp add: newRowIter_def split: prod.splits)
  moreover have "td_wf ir td" using w tableData len r by (auto simp: td_wf_def ir_width_def)
  ultimately show ?thesis using tableData r new_rowIter [where q = r and n = "td_colLen td"]
    by (auto simp del: iter_ok.simps iter_left.simps iter_final.simps iter_argLen.simps split: option.splits)
next
  case (multiQueriesChunk qs n)
  then have td: "td = td0\<lparr>td_iter := None\<rparr>" "td_ir td = multiQueriesChunk qs n"
    using assms by (auto simp: Start_def td_wf_def)
  have "iter_argLen (MultiIter (newMultiQueryChunkIter conn qs n)) = ir_width conn ir"
    using multiQueriesChunk by (simp add: ir_width_def newMultiQueryChunkIter_def nextRows_argLen)
  then show ?thesis using td assms(2) multiQueriesChunk new_multiIter [of conn qs n]
    by (simp add: td_Rows_def Let_def del: iter_ok.simps iter_left.simps iter_final.simps iter_argLen.simps)
qed

lemma tryToWriteTableData_files:
  assumes "built_in_template conf"
  shows "tryToWriteTableData uni tmpl S conn env conf fmt meta chunk k td s m =
    write_files uni tmpl S conn env conf fmt meta k (data_namer conf meta chunk (Suc 0)) (data_name conf fmt meta chunk 0) td s m"
proof -
  have "newOutputFileNamer meta chunk (Rows conf \<noteq> UnspecifiedSize) (FileSize conf \<noteq> UnspecifiedSize) = data_namer conf meta chunk 0"
    by (simp add: newOutputFileNamer_def)
  then have "NextName tmpl (OutputFileTemplate conf) (Extension fmt)
      (newOutputFileNamer meta chunk (Rows conf \<noteq> UnspecifiedSize) (FileSize conf \<noteq> UnspecifiedSize)) =
      (data_namer conf meta chunk (Suc 0), Inr (data_name conf fmt meta chunk 0))"
    using NextName_data [OF assms, where j = 0] by metis
  then show ?thesis unfolding tryToWriteTableData_def Let_def by (simp only: prod.case sum.case)
qed

lemma tryToWriteTableData_spec:
  assumes laws: "storage_laws S contents" and fmt: "fmt \<noteq> FileFormatUnknown" and tm: "built_in_template conf"
    and "Start conn td0 = Inr td" "td_wf ir td0"
  shows "\<exists>td' s' m' k' err. tryToWriteTableData uni tmpl S conn env conf fmt meta chunk k td s m = Some (td', s', m', k', err) \<and>
    td_wf ir td' \<and> (err = None \<longrightarrow> query_err conn (ir_queries ir) = None \<and>
      (\<exists>files. concat (map fst files) = query_rows conn (ir_queries ir) \<and>
        files_written uni conf fmt meta (ir_width conn ir) chunk 0 contents s' files \<and>
        file_cuts fmt uni conf meta (ir_width conn ir) (query_rows conn (ir_queries ir)) files))"
proof -
  from Start_Rows [OF assms(4,5)] obtain td1 it where it: "td_Rows conn td = Inr (td1, it)" "td_wf ir td1" "iter_ok it"
    "iter_left conn it = query_rows conn (ir_queries ir)" "iter_final conn it = query_err conn (ir_queries ir)"
    "iter_argLen it = ir_width conn ir" by blast
  from write_files_spec [OF laws fmt tm it(1,3), of uni tmpl env meta k 0 chunk s m ir] it(2)
  show ?thesis unfolding chunk_written_def it(4-6) tryToWriteTableData_files [OF tm] by (elim exE conjE) (intro exI conjI, simp, simp, blast)
qed

lemma write_attempt_spec:
  assumes "storage_laws S contents" "wr_fileFmt w \<noteq> FileFormatUnknown" "built_in_template (wr_conf w)" "td_wf ir td"
  shows "\<exists>meta' td' w' err. write_attempt uni tmpl S ans env chunk (n, meta, td, w) = Some ((n, meta', td', w'), err) \<and>
    td_wf ir td' \<and> (SQL (wr_conf w) = '''' \<longrightarrow> meta' = meta) \<and>
    wr_conf w' = wr_conf w \<and> wr_fileFmt w' = wr_fileFmt w \<and> wr_conn w' = wr_conn w \<and>
    (err = None \<longrightarrow> (\<exists>files.
       chunk_done uni (ans (wr_conn w)) (wr_conf w) (wr_fileFmt w) meta ir chunk contents (wr_store w') files))"
proof (cases "Start (ans (wr_conn w)) td")
  case (Inl e)
  then show ?thesis using assms(4) by (simp add: write_attempt_def)
next
  case (Inr td1)
  let ?conn = "ans (wr_conn w)"
  have wf1: "td_wf ir td1" using Start_Rows [OF Inr assms(4)] by blast
  obtain meta' r where m: "attempt_meta (wr_conf w) td1 meta = (meta', r)" by fastforce
  have keep: "SQL (wr_conf w) = '''' \<longrightarrow> meta' = meta" using m by (auto simp: attempt_meta_def)
  show ?thesis
  proof (cases r)
    case (Some e)
    then show ?thesis using Inr wf1 m keep unfolding write_attempt_def by simp
  next
    case None
    have meta': "meta' = chunk_meta ?conn (wr_conf w) meta ir"
      using m None Inr assms(4)
      by (auto simp: attempt_meta_def chunk_meta_def first_result_def Start_def td_wf_def Let_def split: if_splits option.splits TableDataIR.splits sum.splits)
    from tryToWriteTableData_spec [OF assms(1-3) Inr assms(4),
        of uni tmpl env meta' chunk "wr_files w" "wr_store w" "wr_metrics w"]
    obtain td' s' ms k' err where t: "tryToWriteTableData uni tmpl S ?conn env (wr_conf w) (wr_fileFmt w) meta' chunk
        (wr_files w) td1 (wr_store w) (wr_metrics w) = Some (td', s', ms, k', err)" "td_wf ir td'"
      "err = None \<Longrightarrow> \<exists>files. chunk_done uni ?conn (wr_conf w) (wr_fileFmt w) meta ir chunk contents s' files"
      unfolding chunk_done_def meta' by blast
    have "write_attempt uni tmpl S ans env chunk (n, meta, td, w) =
        Some ((n, meta', td', w\<lparr>wr_store := s', wr_metrics := ms, wr_files := k'\<rparr>), err)"
      using Inr m None t(1) unfolding write_attempt_def by simp
    then show ?thesis using keep t(2,3) by simp
  qed
qed

section \<open>Retries\<close>

text \<open>Handling a task leaves the task lists of the writer alone.\<close>

lemma on_store_tasks:
  "on_store f w = (w', errs) \<Longrightarrow>
    wr_finishedTasks w' = wr_finishedTasks w \<and> wr_receivedTaskCount w' = wr_receivedTaskCount w"
  by (auto simp: on_store_def split: prod.splits)

lemma chunk_try_tasks:
  assumes "chunk_try uni tmpl S ans env rebuild chunk (Some (n, meta, td, w)) = (Some (n', meta', td', w'), err)"
  shows "wr_finishedTasks w' = wr_finishedTasks w \<and> wr_receivedTaskCount w' = wr_receivedTaskCount w"
  using assms
  by (auto simp: chunk_try_def write_attempt_def Let_def split: if_splits prod.splits option.splits sum.splits)

lemma WriteTableData_tasks:
  assumes "WriteTableData uni tmpl S ans env rebuild cancelled meta ir chunk w = Some (w', errs)"
  shows "wr_finishedTasks w' = wr_finishedTasks w \<and> wr_receivedTaskCount w' = wr_receivedTaskCount w"
proof -
  let ?f = "chunk_try uni tmpl S ans env rebuild chunk"
  let ?P = "\<lambda>st. case st of None \<Rightarrow> True
    | Some (n, meta, td, v) \<Rightarrow> wr_finishedTasks v = wr_finishedTasks w \<and> wr_receivedTaskCount v = wr_receivedTaskCount w"
  have step: "?P s \<Longrightarrow> ?P (fst (?f s))" for s
    using chunk_try_tasks [of uni tmpl S ans env rebuild chunk]
    by (cases s; cases "?f s") (force simp: chunk_try_def split: option.splits)+
  have "?P (fst (WithRetry cancelled ?f b es st))" if "?P st" for b es st
    using that by (rule WithRetry_inv [where P = ?P]) (rule step)
  from this [of "Some (0, meta, td_new ir, w)"
      "newRebuildConnBackOffer (canRebuildConn (Consistency (wr_conf w)) (TransactionalConsistency (wr_conf w)))" "[]"]
  show ?thesis using assms unfolding WriteTableData_def by (auto split: prod.splits option.splits)
qed

lemma handleTask_tasks:
  "handleTask uni tmpl S ans env rebuild cancelled task w = Some (w', errs) \<Longrightarrow>
    wr_finishedTasks w' = wr_finishedTasks w \<and> wr_receivedTaskCount w' = wr_receivedTaskCount w"
  by (cases task) (auto dest: on_store_tasks WriteTableData_tasks split: if_splits)

definition chunk_inv :: "TableDataIR \<Rightarrow> tableMeta \<Rightarrow> ('c, 'w, 's) Writer \<Rightarrow> ('c, 'w, 's) chunk_state option \<Rightarrow> bool" where
  "chunk_inv ir meta w0 st \<longleftrightarrow>
     (case st of
        None \<Rightarrow> False
      | Some (n, meta', td, w) \<Rightarrow>
          td_wf ir td \<and> (SQL (wr_conf w0) = '''' \<longrightarrow> meta' = meta) \<and> wr_conf w = wr_conf w0 \<and> wr_fileFmt w = wr_fileFmt w0)"

lemma chunk_try_spec:
  assumes laws: "storage_laws S contents" and fmt: "wr_fileFmt w0 \<noteq> FileFormatUnknown" and tm: "built_in_template (wr_conf w0)"
    and "chunk_inv ir meta0 w0 st" "chunk_try uni tmpl S ans env rebuild chunk st = (st', err)"
  shows "chunk_inv ir meta0 w0 st' \<and>
    (err = None \<longrightarrow> (\<exists>n meta td w files. st' = Some (n, meta, td, w) \<and>
       chunk_done uni (ans (wr_conn w)) (wr_conf w0) (wr_fileFmt w0) meta0 ir chunk contents (wr_store w) files))"
proof -
  from assms(4) obtain n meta td w where st: "st = Some (n, meta, td, w)" "td_wf ir td"
    "SQL (wr_conf w0) = '''' \<longrightarrow> meta = meta0" "wr_conf w = wr_conf w0" "wr_fileFmt w = wr_fileFmt w0"
    by (auto simp: chunk_inv_def split: option.splits)
  define attempt where "attempt w' =
    (case write_attempt uni tmpl S ans env chunk (n + 1, meta, td, w') of
       None \<Rightarrow> (None, None)
     | Some ((n, meta, td, w), err) \<Rightarrow>
         (Some (n, meta, td, if err \<noteq> None then w\<lparr>wr_errorCount := wr_errorCount w + 1\<rparr> else w), err))" for w' :: "('b, 'c, 'a) Writer"
  have attempt: ?thesis if "attempt w' = (st', err)" "wr_conf w' = wr_conf w" "wr_fileFmt w' = wr_fileFmt w" for w'
  proof -
    have pre: "wr_fileFmt w' \<noteq> FileFormatUnknown" "built_in_template (wr_conf w')"
      using that(2,3) fmt tm st by simp_all
    from write_attempt_spec [OF laws this st(2), of uni tmpl ans env chunk "n + 1" meta] obtain meta2 td2 w2 err2 where
      a: "write_attempt uni tmpl S ans env chunk (n + 1, meta, td, w') = Some ((n + 1, meta2, td2, w2), err2)"
      "td_wf ir td2" "SQL (wr_conf w') = '''' \<longrightarrow> meta2 = meta" "wr_conf w2 = wr_conf w'" "wr_fileFmt w2 = wr_fileFmt w'"
      "wr_conn w2 = wr_conn w'"
      "err2 = None \<Longrightarrow> \<exists>files. chunk_done uni (ans (wr_conn w')) (wr_conf w') (wr_fileFmt w') meta ir chunk contents (wr_store w2) files"
      by blast
    have "chunk_meta conn (wr_conf w0) meta ir = chunk_meta conn (wr_conf w0) meta0 ir" for conn
      using st(3) by (simp add: chunk_meta_def)
    then show ?thesis using a that st unfolding attempt_def chunk_inv_def chunk_done_def by (auto split: if_splits)
  qed
  show ?thesis
  proof (cases "n + 1 > 1")
    case True
    obtain x c r where rb: "rebuild (wr_conn w) True (wr_world w) = (x, c, r)" by (metis surj_pair)
    show ?thesis
    proof (cases r)
      case None
      then have "attempt (w\<lparr>wr_conn := c, wr_world := x\<rparr>) = (st', err)"
        using assms(5) st(1) True rb unfolding chunk_try_def attempt_def by (auto simp: Let_def split: option.splits prod.splits)
      then show ?thesis by (rule attempt) simp_all
    next
      case (Some e)
      then show ?thesis using assms(5) st True rb unfolding chunk_try_def chunk_inv_def by (auto simp: Let_def)
    qed
  next
    case False
    then have "attempt w = (st', err)"
      using assms(5) st(1) unfolding chunk_try_def attempt_def by (auto simp: Let_def split: option.splits prod.splits)
    then show ?thesis by (rule attempt) simp_all
  qed
qed

lemma retry_state_inv:
  assumes "P s" "\<And>s. P s \<Longrightarrow> P (fst (f s))"
  shows "P (retry_state f k s)"
  using assms by (induction k) (simp_all add: retry_state_def)

lemma WriteTableData_run:
  assumes "storage_laws S contents" "wr_fileFmt w \<noteq> FileFormatUnknown" "built_in_template (wr_conf w)"
    and f_def: "f = chunk_try uni tmpl S ans env rebuild chunk" and st_def: "st = Some (0, meta, td_new ir, w)"
  shows "\<exists>k n meta' td w' errs. 1 \<le> k \<and> k \<le> (if canRebuildConn (Consistency (wr_conf w)) (TransactionalConsistency (wr_conf w)) then 3 else 1) \<and>
    retry_state f k st = Some (n, meta', td, w') \<and> length errs \<le> k \<and>
    chunk_inv ir meta w (retry_state f (k - 1) st) \<and> (errs = [] \<longleftrightarrow> retry_outcome f (k - 1) st = None) \<and>
    WriteTableData uni tmpl S ans env rebuild cancelled meta ir chunk w = Some (w', errs)"
proof -
  let ?b = "canRebuildConn (Consistency (wr_conf w)) (TransactionalConsistency (wr_conf w))"
  let ?n = "if ?b then 3 else 1 :: nat"
  obtain t b errs ws where run: "WithRetry cancelled f (newRebuildConnBackOffer ?b) [] st = (t, b, errs, ws)" by (metis surj_pair)
  have "Attempt (newRebuildConnBackOffer ?b) = int ?n" "0 < ?n"
    by (simp_all add: newRebuildConnBackOffer_def dumpChunkRetryTime_def)
  from WithRetry_spec [OF this, of cancelled f "[]" st] have "retried cancelled f ?n [] st (t, b, errs, ws)"
    unfolding run .
  then obtain k where k: "1 \<le> k" "k \<le> ?n" "t = retry_state f k st"
    and errs: "if retry_outcome f (k - 1) st = None then errs = []
      else errs = [] @ map (\<lambda>i. the (retry_outcome f i st)) [0..<k] \<and> (k = ?n \<or> cancelled (length errs))"
    unfolding retried_def prod.case by blast
  have es: "length errs \<le> k" "errs = [] \<longleftrightarrow> retry_outcome f (k - 1) st = None"
    using errs k(1) by (simp_all split: if_splits)
  have step: "chunk_inv ir meta w s \<Longrightarrow> chunk_inv ir meta w (fst (f s))" for s
    using chunk_try_spec [OF assms(1-3)] unfolding f_def by (metis prod.collapse)
  have inv: "chunk_inv ir meta w (retry_state f j st)" for j
    by (rule retry_state_inv [where P = "chunk_inv ir meta w"]) (use step in \<open>simp_all add: chunk_inv_def st_def\<close>)
  from inv [of k] obtain n meta' td w' where t: "retry_state f k st = Some (n, meta', td, w')"
    by (auto simp: chunk_inv_def split: option.splits)
  have "WriteTableData uni tmpl S ans env rebuild cancelled meta ir chunk w = Some (w', errs)"
    using run k(3) t unfolding WriteTableData_def f_def st_def by simp
  then show ?thesis using k(1,2) t es inv [of "k - 1"]
    by (intro exI [of _ k] exI [of _ n] exI [of _ meta'] exI [of _ td] exI [of _ w'] exI [of _ errs] conjI)
qed

end
