(* ===== verification/Chunk_Files.thy ===== *)
theory Chunk_Files
  imports Writer_Correct "HOL-Library.Sublist"
begin

text \<open>
  Which files an attempt at a chunk touches, also when it fails.

  Writing one file touches its path only. Where a file ends is decided by its rows and the size limits, not
  by the schedule of the pipe or by the storage, so that attempts over the same rows, or over a beginning of
  them because a result set broke off, touch the same files: an attempt that failed leaves nothing behind that
  the successful one does not overwrite.
\<close>

section \<open>Where files end\<close>

lemma hit_length_eq: "length a = length b \<Longrightarrow> hit fl a = hit fl b"
  by (simp add: hit_def)

lemma stmt_rows_length: "rs \<noteq> [] \<Longrightarrow> length (stmt_rows t rs) = length (rows_pre t rs)"
proof (induction rs)
  case (Cons r rs)
  then show ?case by (cases "rs = []") (simp_all add: stmt_rows_simps)
qed simp

lemma in_limits_ConsD:
  assumes "in_limits fl sl pre t out (g # gs)"
  shows "in_limits fl sl pre t (out @ pre @ stmt_rows t g) gs"
    and "gs \<noteq> [] \<Longrightarrow> \<not> hit fl (out @ pre @ stmt_rows t g) \<and> hit sl (pre @ stmt_rows t g)"
    and "0 < k \<Longrightarrow> k < length g \<Longrightarrow>
      \<not> hit fl (out @ pre @ rows_pre t (take k g)) \<and> \<not> hit sl (pre @ rows_pre t (take k g))"
proof -
  have parts: "(as \<noteq> [] \<longrightarrow> \<not> hit fl (out @ sql_body pre t as)) \<and> (bs \<noteq> [] \<longrightarrow> hit sl (pre @ stmt_rows t h)) \<and>
      (\<forall>k. 0 < k \<and> k < length h \<longrightarrow>
        \<not> hit fl (out @ sql_body pre t as @ pre @ rows_pre t (take k h)) \<and> \<not> hit sl (pre @ rows_pre t (take k h)))"
    if "g # gs = as @ h # bs" for as h bs
    using assms that unfolding in_limits_def by blast
  have "(as \<noteq> [] \<longrightarrow> \<not> hit fl ((out @ pre @ stmt_rows t g) @ sql_body pre t as)) \<and> (bs \<noteq> [] \<longrightarrow> hit sl (pre @ stmt_rows t h)) \<and>
      (\<forall>k. 0 < k \<and> k < length h \<longrightarrow>
        \<not> hit fl ((out @ pre @ stmt_rows t g) @ sql_body pre t as @ pre @ rows_pre t (take k h)) \<and> \<not> hit sl (pre @ rows_pre t (take k h)))"
    if "gs = as @ h # bs" for as h bs
    using parts [of "g # as" h bs] that by simp
  then show "in_limits fl sl pre t (out @ pre @ stmt_rows t g) gs" unfolding in_limits_def by blast
  show "\<not> hit fl (out @ pre @ stmt_rows t g) \<and> hit sl (pre @ stmt_rows t g)" if "gs \<noteq> []"
    using parts [of "[g]" "hd gs" "tl gs"] parts [of "[]" g gs] that by simp
  show "\<not> hit fl (out @ pre @ rows_pre t (take k g)) \<and> \<not> hit sl (pre @ rows_pre t (take k g))" if "0 < k" "k < length g"
    using parts [of "[]" g gs] that by simp
qed

lemma not_hit_shorter:
  assumes "in_limits fl sl pre t out ((g @ us) # gs)" "g \<noteq> []" "us \<noteq> []"
  shows "\<not> hit fl (out @ pre @ stmt_rows t g) \<and> \<not> hit sl (pre @ stmt_rows t g)"
  using in_limits_ConsD(3) [OF assms(1), of "length g"] assms(2,3) stmt_rows_length [OF assms(2), of t]
    hit_length_eq [of "out @ pre @ stmt_rows t g" "out @ pre @ rows_pre t g" fl]
    hit_length_eq [of "pre @ stmt_rows t g" "pre @ rows_pre t g" sl] by simp

text \<open>
  Two files of SQL statements that start at the same row. The first, over rows that are a beginning of those
  of the second, ends before its rows are used up: then they have the same statements.
\<close>

lemma groups_unique:
  assumes "in_limits fl sl pre t out GA" "in_limits fl sl pre t out GB" "list_all (\<lambda>g. g \<noteq> []) GA" "list_all (\<lambda>g. g \<noteq> []) GB"
    and "GA \<noteq> []" "GB \<noteq> []" "hit fl (out @ sql_body pre t GA)" "leftB \<noteq> [] \<longrightarrow> hit fl (out @ sql_body pre t GB)"
    and "leftA \<noteq> []" "concat GB @ leftB = concat GA @ leftA @ extra"
  shows "GA = GB"
  using assms
proof (induction GA arbitrary: out GB)
  case (Cons a as)
  obtain b bs where GB: "GB = b # bs" using Cons.prems(6) by (cases GB) auto
  have ne: "a \<noteq> []" "b \<noteq> []" using Cons.prems(3,4) GB by simp_all
  have aend: "hit fl (out @ pre @ stmt_rows t a) \<or> hit sl (pre @ stmt_rows t a)"
    using in_limits_ConsD(2) [OF Cons.prems(1)] Cons.prems(7) by (cases "as = []") auto
  have bend: "hit fl (out @ pre @ stmt_rows t b) \<or> hit sl (pre @ stmt_rows t b) \<or> bs = [] \<and> leftB = []"
    using in_limits_ConsD(2) [OF Cons.prems(2) [unfolded GB]] Cons.prems(8) GB by (cases "bs = []") auto
  have eq: "b @ concat bs @ leftB = a @ concat as @ leftA @ extra" using Cons.prems(10) GB by simp
  have ab: "a = b"
  proof (rule ccontr)
    assume "a \<noteq> b"
    with eq consider us where "b = a @ us" "us \<noteq> []" | us where "a = b @ us" "us \<noteq> []"
      by (auto simp: append_eq_append_conv2)
    then show False
    proof cases
      case 1
      then show ?thesis using not_hit_shorter [of fl sl pre t out a us bs] Cons.prems(2) GB ne aend by simp
    next
      case 2
      then have "\<not> hit fl (out @ pre @ stmt_rows t b)" "\<not> hit sl (pre @ stmt_rows t b)"
        using not_hit_shorter [of fl sl pre t out b us as] Cons.prems(1) ne by simp_all
      then show ?thesis using bend 2 eq by simp
    qed
  qed
  have rest: "concat bs @ leftB = concat as @ leftA @ extra" using eq ab by simp
  show ?case
  proof (cases "as = []")
    case True
    then have "bs = []" using in_limits_ConsD(2) [OF Cons.prems(2) [unfolded GB]] Cons.prems(7) ab by auto
    then show ?thesis using True ab GB by simp
  next
    case False
    then have nh: "\<not> hit fl (out @ pre @ stmt_rows t a)" using in_limits_ConsD(2) [OF Cons.prems(1)] by simp
    have "bs \<noteq> []" using nh Cons.prems(8,9) rest GB ab by auto
    have "as = bs"
      by (rule Cons.IH [OF in_limits_ConsD(1) [OF Cons.prems(1)] in_limits_ConsD(1) [OF Cons.prems(2) [unfolded GB], folded ab]])
        (use Cons.prems GB False \<open>bs \<noteq> []\<close> rest ab in simp_all)
    then show ?thesis using ab GB by simp
  qed
qed simp

lemma lines_unique:
  assumes "\<forall>k. 0 < k \<and> k < length rsA \<longrightarrow> \<not> h (take k rsA)" "\<forall>k. 0 < k \<and> k < length rsB \<longrightarrow> \<not> h (take k rsB)"
    and "rsA \<noteq> []" "rsB \<noteq> []" "h rsA" "leftB \<noteq> [] \<longrightarrow> h rsB" "leftA \<noteq> []" "rsB @ leftB = rsA @ leftA @ extra"
  shows "rsA = rsB"
proof (rule ccontr)
  assume "rsA \<noteq> rsB"
  with assms(8) consider us where "rsB = rsA @ us" "us \<noteq> []" | us where "rsA = rsB @ us" "us \<noteq> []"
    by (auto simp: append_eq_append_conv2)
  then show False
  proof cases
    case 1
    then show ?thesis using assms(2) [rule_format, of "length rsA"] assms(3,5) by simp
  next
    case 2
    then show ?thesis using assms(1) [rule_format, of "length rsB"] assms(4,6,7,8) by auto
  qed
qed

lemma file_cut_unique:
  assumes "file_cut fmt uni conf meta n rsA outA" "file_cut fmt uni conf meta n rsB outB" "rsA \<noteq> []" "rsB \<noteq> []"
    and "hit (FileSize conf) outA" "leftB \<noteq> [] \<longrightarrow> hit (FileSize conf) outB" "leftA \<noteq> []" "rsB @ leftB = rsA @ leftA @ extra"
  shows "rsA = rsB"
proof (cases fmt)
  case FileFormatSQLText
  let ?pre = "insert_prefix conf meta" and ?t = "sql_row conf meta n (MakeRowReceiver uni (ColumnTypes meta) (conf_Dialect conf))"
  from assms(1) FileFormatSQLText obtain GA where a: "list_all (\<lambda>g. g \<noteq> []) GA" "concat GA = rsA"
    "outA = sql_text uni conf meta n GA" "in_limits (FileSize conf) (StatementSize conf) ?pre ?t (preamble_text meta) GA" by auto
  from assms(2) FileFormatSQLText obtain GB where b: "list_all (\<lambda>g. g \<noteq> []) GB" "concat GB = rsB"
    "outB = sql_text uni conf meta n GB" "in_limits (FileSize conf) (StatementSize conf) ?pre ?t (preamble_text meta) GB" by auto
  have "GA = GB"
    by (rule groups_unique [OF a(4) b(4) a(1) b(1), where leftA = leftA and leftB = leftB and extra = extra])
      (use assms(3-8) a b in auto)
  then show ?thesis using a(2) b(2) by simp
next
  case FileFormatCSV
  show ?thesis
    by (rule lines_unique [where h = "\<lambda>rs. hit (FileSize conf) (csv_text uni conf meta n rs)" and leftA = leftA and leftB = leftB and extra = extra])
      (use assms FileFormatCSV in auto)
qed (use assms(1) in simp)

section \<open>Writing one file\<close>

text \<open>A pipe that writes to \<open>path\<close>, with all other files as in \<open>s0\<close>, also after errors.\<close>

definition pipe_frame :: "'s contents \<Rightarrow> string \<Rightarrow> 's \<Rightarrow> 's writerPipe \<Rightarrow> bool" where
  "pipe_frame contents path s0 p \<longleftrightarrow>
     iw_path (fst (wp_w p)) = path \<and> (\<forall>q. q \<noteq> path \<longrightarrow> contents (snd (wp_w p)) q = contents s0 q)"

lemma writeBytes_frame:
  assumes "storage_laws S contents" "writeBytes S b (w, s) = ((w', s'), r)"
  shows "iw_path w' = iw_path w \<and> (\<forall>q. q \<noteq> iw_path w \<longrightarrow> contents s' q = contents s q)"
proof -
  obtain w1 s1 where i: "iw_init S (w, s) = (w1, s1)" by fastforce
  have 1: "iw_path w1 = iw_path w" "\<forall>q. q \<noteq> iw_path w \<longrightarrow> contents s1 q = contents s q"
    using i storage_frame(1) [OF assms(1)] by (auto simp: iw_init_def split: if_splits prod.splits option.splits)
  obtain r0 where "iw_Write S b (w, s) = ((w', s'), r0)"
    using assms(2) by (auto simp: writeBytes_def split: prod.splits option.splits)
  then show ?thesis using i 1 storage_frame(2) [OF assms(1)]
    by (auto simp: iw_Write_def Let_def split: if_splits prod.splits option.splits)
qed

lemma pipe_frame_recv: "storage_laws S contents \<Longrightarrow> pipe_frame contents path s0 p \<Longrightarrow> pipe_frame contents path s0 (pipe_recv S p)"
  using writeBytes_frame [of S contents _ "fst (wp_w p)" "snd (wp_w p)"]
  by (auto simp: pipe_frame_def pipe_recv_def Let_def split: list.splits prod.splits option.splits)

lemma pipe_frame_run: "storage_laws S contents \<Longrightarrow> pipe_frame contents path s0 p \<Longrightarrow> pipe_frame contents path s0 (pipe_Run S n p)"
  unfolding pipe_Run_def by (induction n) (simp_all add: pipe_frame_recv)

lemma pipe_frame_input [simp]: "pipe_frame contents path s0 (p\<lparr>wp_input := q\<rparr>) = pipe_frame contents path s0 p"
  "pipe_frame contents path s0 (p\<lparr>wp_errCh := e\<rparr>) = pipe_frame contents path s0 p"
  "pipe_frame contents path s0 (p\<lparr>wp_metrics := m\<rparr>) = pipe_frame contents path s0 p"
  "pipe_frame contents path s0 (p\<lparr>wp_currentFileSize := f\<rparr>) = pipe_frame contents path s0 p"
  "pipe_frame contents path s0 (p\<lparr>wp_currentStatementSize := f\<rparr>) = pipe_frame contents path s0 p"
  "pipe_frame contents path s0 (add_rows i p) = pipe_frame contents path s0 p"
  "pipe_frame contents path s0 (AddFileSize k p) = pipe_frame contents path s0 p"
  by (simp_all add: pipe_frame_def add_rows_def AddFileSize_def)

lemma pipe_frame_send: "storage_laws S contents \<Longrightarrow> pipe_frame contents path s0 p \<Longrightarrow> pipe_frame contents path s0 (pipe_send S b p)"
  by (simp add: pipe_send_def Let_def pipe_frame_recv)

lemma pipe_frame_select:
  "storage_laws S contents \<Longrightarrow> pipe_frame contents path s0 p \<Longrightarrow> pipe_frame contents path s0 (fst (pipe_select S ch b p))"
  by (auto simp: pipe_select_def Let_def pipe_frame_run pipe_frame_send split: prod.splits select_case.splits option.splits)

lemma flush_frame:
  "storage_laws S contents \<Longrightarrow> pipe_frame contents path s0 (ws_pipe st) \<Longrightarrow> flush_full S env st = (st', e) \<Longrightarrow>
    pipe_frame contents path s0 (ws_pipe st')"
  using pipe_frame_select [of S contents path s0 "ws_pipe st" "pe_select env (ws_selects st)" "ws_bf st"]
  by (auto simp: flush_full_def split: if_splits prod.splits option.splits)

definition out_frame :: "'s contents \<Rightarrow> string \<Rightarrow> 's \<Rightarrow> ('s wstate \<times> error) + 's wstate \<Rightarrow> bool" where
  "out_frame contents path s0 r \<longleftrightarrow> pipe_frame contents path s0 (ws_pipe (case r of Inl (st, e) \<Rightarrow> st | Inr st \<Rightarrow> st))"

lemma insert_row_frame:
  assumes "storage_laws S contents" "pipe_frame contents path s0 (ws_pipe st)"
  shows "insert_row S conn env cfg meta st = Inl (st', e) \<Longrightarrow> pipe_frame contents path s0 (ws_pipe st')"
    and "insert_row S conn env cfg meta st = Inr (st', sw) \<Longrightarrow> pipe_frame contents path s0 (ws_pipe st')"
  using assms by (auto simp: insert_row_def Let_def split: sum.splits if_splits prod.splits option.splits elim!: flush_frame [OF assms(1), rotated])

lemma insert_rows_frame:
  assumes "insert_rows S conn env cfg meta st = Some r" "storage_laws S contents" "pipe_frame contents path s0 (ws_pipe st)"
  shows "out_frame contents path s0 r"
  using assms
proof (induction S conn env cfg meta st r rule: insert_rows.raw_induct [rotated, consumes 1])
  case (1 f S conn env cfg meta st r)
  show ?case
  proof (cases "HasNext (ws_it st)")
    case True
    show ?thesis
    proof (cases "insert_row S conn env cfg meta st")
      case (Inl se)
      then obtain st' e where "se = (st', e)" "r = Inl (st', e)" using True 1(2) by (cases se) auto
      then show ?thesis using insert_row_frame(1) [OF 1(3,4)] Inl by (simp add: out_frame_def)
    next
      case (Inr q)
      obtain st' sw where q: "q = (st', sw)" by fastforce
      have fr: "pipe_frame contents path s0 (ws_pipe st')" using insert_row_frame(2) [OF 1(3,4)] Inr q by blast
      show ?thesis
      proof (cases sw)
        case True
        then show ?thesis using 1(2) \<open>HasNext (ws_it st)\<close> Inr q fr by (auto simp: out_frame_def)
      next
        case False
        then have "f S conn env cfg meta st' = Some r" using 1(2) \<open>HasNext (ws_it st)\<close> Inr q by simp
        then show ?thesis by (rule 1(1) [OF _ 1(3) fr])
      qed
    qed
  qed (use 1 in \<open>auto simp: out_frame_def\<close>)
qed

lemma insert_stmts_frame:
  assumes "insert_stmts S conn env cfg meta st = Some r" "storage_laws S contents" "pipe_frame contents path s0 (ws_pipe st)"
  shows "out_frame contents path s0 r"
  using assms
proof (induction S conn env cfg meta st r rule: insert_stmts.raw_induct [rotated, consumes 1])
  case (1 f S conn env cfg meta st r)
  have fr: "pipe_frame contents path s0 (ws_pipe (begin_stmt cfg meta st))" using 1(4) by (simp add: begin_stmt_def)
  show ?case
  proof (cases "HasNext (ws_it st)")
    case True
    with 1(2) obtain r1 where r1: "insert_rows S conn env cfg meta (begin_stmt cfg meta st) = Some r1" by (auto split: option.splits)
    note fr1 = insert_rows_frame [OF r1 1(3) fr]
    show ?thesis
    proof (cases r1)
      case (Inl se)
      then show ?thesis using 1(2) True r1 fr1 by auto
    next
      case (Inr st')
      then have fr': "pipe_frame contents path s0 (ws_pipe st')" using fr1 by (simp add: out_frame_def)
      show ?thesis
      proof (cases "ShouldSwitchFile (ws_pipe st')")
        case True
        then show ?thesis using 1(2) \<open>HasNext (ws_it st)\<close> r1 Inr fr1 by auto
      next
        case False
        then have "f S conn env cfg meta st' = Some r" using 1(2) \<open>HasNext (ws_it st)\<close> r1 Inr by simp
        then show ?thesis by (rule 1(1) [OF _ 1(3) fr'])
      qed
    qed
  qed (use 1 in \<open>auto simp: out_frame_def\<close>)
qed

lemma csv_rows_frame:
  assumes "csv_rows S conn env cfg meta st = Some r" "storage_laws S contents" "pipe_frame contents path s0 (ws_pipe st)"
  shows "out_frame contents path s0 r"
  using assms
proof (induction S conn env cfg meta st r rule: csv_rows.raw_induct [rotated, consumes 1])
  case (1 f S conn env cfg meta st r)
  show ?case
  proof (cases "HasNext (ws_it st)")
    case True
    let ?d = "if tm_selectedField meta \<noteq> ''''
      then (case Decode (ws_it st) (ws_row st) of
              Inl e \<Rightarrow> Inl e
            | Inr row \<Rightarrow> Inr (row, ws_bf st @ WriteToBufferInCsv row (EscapeBackslash cfg) (csv_opt cfg)))
      else Inr (ws_row st, ws_bf st)"
    show ?thesis
    proof (cases ?d)
      case (Inl e)
      then show ?thesis using 1(2,4) True by (auto simp: out_frame_def Let_def)
    next
      case (Inr rb)
      obtain row bf0 where rb: "rb = (row, bf0)" by fastforce
      define st1 where "st1 = st\<lparr>ws_bf := bf0 @ CsvLineTerminator cfg, ws_row := row,
        ws_pipe := (ws_pipe st)\<lparr>wp_currentFileSize := wp_currentFileSize (ws_pipe st) +
          of_nat (length (bf0 @ CsvLineTerminator cfg) - length (ws_bf st))\<rparr>, ws_counter := ws_counter st + 1\<rparr>"
      obtain st2 e where fl: "flush_full S env st1 = (st2, e)" by fastforce
      have fr: "pipe_frame contents path s0 (ws_pipe st2)"
        by (rule flush_frame [OF 1(3) _ fl]) (use 1(4) in \<open>simp add: st1_def\<close>)
      show ?thesis
      proof (cases "e = None \<and> \<not> ShouldSwitchFile (ws_pipe st2)")
        case True
        then have "f S conn env cfg meta (st2\<lparr>ws_it := Next conn (ws_it st2)\<rparr>) = Some r"
          using 1(2) \<open>HasNext (ws_it st)\<close> Inr rb fl by (simp add: Let_def st1_def)
        from 1(1) [OF this 1(3)] fr show ?thesis by simp
      next
        case False
        then show ?thesis using 1(2) \<open>HasNext (ws_it st)\<close> Inr rb fl fr
          by (auto simp: Let_def st1_def out_frame_def split: if_splits option.splits)
      qed
    qed
  qed (use 1 in \<open>auto simp: out_frame_def\<close>)
qed

lemma insert_end_frame:
  assumes "storage_laws S contents" "pipe_frame contents path s0 (ws_pipe st)"
  shows "insert_fail S env st e = (it', ws, m', cnt, err) \<Longrightarrow> iw_path (fst ws) = path \<and> (\<forall>q. q \<noteq> path \<longrightarrow> contents (snd ws) q = contents s0 q)"
    and "insert_finish S env st = (it', ws, m', cnt, err) \<Longrightarrow> iw_path (fst ws) = path \<and> (\<forall>q. q \<noteq> path \<longrightarrow> contents (snd ws) q = contents s0 q)"
proof -
  have fail: "iw_path (fst ws) = path \<and> (\<forall>q. q \<noteq> path \<longrightarrow> contents (snd ws) q = contents s0 q)"
    if "insert_fail S env st e = (it', ws, m', cnt, err)" "pipe_frame contents path s0 (ws_pipe st)"
    for st e it' ws m' cnt err
  proof -
    define p where "p = add_rows (- uint (ws_lastCounter st)) (ws_pipe st)"
    have "pipe_frame contents path s0 (pipe_Run S (pe_cancel env) (p\<lparr>wp_metrics :=
        (wp_metrics p)\<lparr>finishedSizeGauge := finishedSizeGauge (wp_metrics p) - uint (wp_finishedFileSize p)\<rparr>\<rparr>))"
      by (rule pipe_frame_run [OF assms(1)]) (use that(2) in \<open>simp add: p_def\<close>)
    with that(1) show ?thesis by (auto simp: insert_fail_def Let_def p_def pipe_frame_def)
  qed
  show "iw_path (fst ws) = path \<and> (\<forall>q. q \<noteq> path \<longrightarrow> contents (snd ws) q = contents s0 q)"
    if "insert_fail S env st e = (it', ws, m', cnt, err)"
    using fail [OF that assms(2)] .
  show "iw_path (fst ws) = path \<and> (\<forall>q. q \<noteq> path \<longrightarrow> contents (snd ws) q = contents s0 q)"
    if "insert_finish S env st = (it', ws, m', cnt, err)"
  proof -
    define p1 where "p1 = (if length (ws_bf st) > 0 then pipe_send S (ws_bf st) (ws_pipe st) else ws_pipe st)"
    define p3 where "p3 = add_rows (uint (ws_counter st - ws_lastCounter st)) (pipe_close S p1)"
    have "pipe_frame contents path s0 p1" using assms pipe_frame_send by (auto simp: p1_def)
    then have p3: "pipe_frame contents path s0 p3" by (simp add: p3_def pipe_close_def pipe_frame_run [OF assms(1)])
    from that show ?thesis
      unfolding insert_finish_def Let_def p1_def [symmetric] p3_def [symmetric]
      by (auto split: option.splits prod.splits simp: pipe_Error_def p3 p3 [unfolded pipe_frame_def] dest!: fail)
  qed
qed

text \<open>Writing a file touches its path only, whatever comes out, and nothing when there are no rows.\<close>

lemma format_WriteInsert_frame:
  assumes "storage_laws S contents" "iter_ok it"
    and "format_WriteInsert fmt uni S conn env cfg meta it (buildInterceptFileWriter name ct, s) m = Some (it', ws, m', cnt, err)"
  shows "iw_path (fst ws) = name @ compressFileSuffix ct \<and>
    (\<forall>q. q \<noteq> name @ compressFileSuffix ct \<longrightarrow> contents (snd ws) q = contents s q) \<and>
    (iter_left conn it = [] \<longrightarrow> ws = (buildInterceptFileWriter name ct, s))"
proof -
  let ?path = "name @ compressFileSuffix ct"
  have start: "pipe_frame contents ?path s (ws_pipe (start_state uni cfg meta it bf (newWriterPipe (buildInterceptFileWriter name ct, s) fl sl m)))" for bf fl sl
    by (simp add: start_state_def newWriterPipe_def buildInterceptFileWriter_def pipe_frame_def)
  show ?thesis
  proof (cases "HasNext it")
    case False
    then show ?thesis using assms(3) rows.has_next_iff [OF assms(2), of conn]
      by (cases fmt) (auto simp: WriteInsert_def WriteInsertInCsv_def buildInterceptFileWriter_def)
  next
    case True
    then have left: "iter_left conn it \<noteq> []" using rows.has_next_iff [OF assms(2), of conn] by simp
    show ?thesis
    proof (cases fmt)
      case FileFormatSQLText
      with assms(3) True obtain r where r: "insert_stmts S conn env cfg meta (start_state uni cfg meta it (preamble_text meta)
          (newWriterPipe (buildInterceptFileWriter name ct, s) (FileSize cfg) (StatementSize cfg) m)) = Some r"
        "(case r of Inl (st, e) \<Rightarrow> insert_fail S env st e | Inr st \<Rightarrow> insert_finish S env st) = (it', ws, m', cnt, err)"
        by (auto simp: WriteInsert_def split: Option.bind_splits sum.splits)
      from insert_stmts_frame [OF r(1) assms(1) start] r(2) left show ?thesis
        by (cases r) (auto simp: out_frame_def dest!: insert_end_frame [OF assms(1), rotated])
    next
      case FileFormatCSV
      with assms(3) True obtain r where r: "csv_rows S conn env cfg meta (start_state uni cfg meta it (csv_header cfg meta)
          (newWriterPipe (buildInterceptFileWriter name ct, s) (FileSize cfg) UnspecifiedSize m)) = Some r"
        "(case r of Inl (st, e) \<Rightarrow> insert_fail S env st e | Inr st \<Rightarrow> insert_finish S env st) = (it', ws, m', cnt, err)"
        by (auto simp: WriteInsertInCsv_def split: Option.bind_splits sum.splits)
      from csv_rows_frame [OF r(1) assms(1) start] r(2) left show ?thesis
        by (cases r) (auto simp: out_frame_def dest!: insert_end_frame [OF assms(1), rotated])
    qed (use assms(3) left in \<open>auto simp: buildInterceptFileWriter_def\<close>)
  qed
qed

section \<open>The files of an attempt\<close>

abbreviation chunk_paths :: "Config \<Rightarrow> FileFormat \<Rightarrow> tableMeta \<Rightarrow> nat \<Rightarrow> nat \<Rightarrow> nat \<Rightarrow> string set" where
  "chunk_paths conf fmt meta chunk j n \<equiv> (\<lambda>i. data_path conf fmt meta chunk (j + i)) ` {..<n}"

lemma chunk_paths_Suc: "chunk_paths conf fmt meta chunk j (Suc n) =
    insert (data_path conf fmt meta chunk j) (chunk_paths conf fmt meta chunk (Suc j) n)"
  by (simp add: lessThan_Suc_eq_insert_0 image_image)

lemma tearDown_frame:
  assumes "storage_laws S contents" "iw_tearDown S ws = (s', r)"
  shows "q \<noteq> iw_path (fst ws) \<Longrightarrow> contents s' q = contents (snd ws) q" "\<not> iw_open (fst ws) \<Longrightarrow> s' = snd ws"
  using assms storage_frame(3) [OF assms(1)] by (auto simp: iw_tearDown_def split: prod.splits if_splits)

text \<open>The next file of two runs, one over a beginning of the rows of the other.\<close>

lemma next_cut:
  assumes "file_cuts fmt uni conf meta n rows ((rs, out) # files)" "prefix (rsA @ leftA) rows" "rsA \<noteq> []"
    and "file_cut fmt uni conf meta n rsA outA" "leftA \<noteq> [] \<longrightarrow> hit (FileSize conf) outA"
  shows "\<exists>left. file_cuts fmt uni conf meta n left files \<and> prefix leftA left"
proof -
  from assms(1) obtain left where c: "rs \<noteq> []" "file_cut fmt uni conf meta n rs out" "rows = rs @ left"
    "left \<noteq> [] \<longrightarrow> hit (FileSize conf) out" "file_cuts fmt uni conf meta n left files" by auto
  from assms(2) obtain extra where e: "rs @ left = rsA @ leftA @ extra" using c(3) by (auto simp: prefix_def)
  show ?thesis
  proof (cases "leftA = []")
    case False
    then have "rsA = rs"
      by (intro file_cut_unique [OF assms(4) c(2) assms(3) c(1) _ c(4) _ e]) (use assms(5) in simp_all)
    then show ?thesis using e c(5) by (auto simp: prefix_def)
  qed (use c(5) in auto)
qed

lemma write_files_touch:
  assumes laws: "storage_laws S contents" and fmt: "fmt \<noteq> FileFormatUnknown" and tm: "built_in_template conf"
    and "td_Rows conn td = Inr (td1, it)" "iter_ok it" "iter_argLen it = n"
    and "prefix (iter_left conn it) rows" "file_cuts fmt uni conf meta n rows files"
    and "write_files uni tmpl S conn env conf fmt meta k (data_namer conf meta chunk (Suc j))
      (data_name conf fmt meta chunk j) td s m = Some (td', s', m', k', err)"
    and "q \<notin> chunk_paths conf fmt meta chunk j (length files)"
  shows "contents s' q = contents s q"
  using assms(4-)
proof (induction "length (iter_left conn it)" arbitrary: k j td td1 it s m rows files rule: less_induct)
  case less
  let ?name = "data_name conf fmt meta chunk j" and ?path = "data_path conf fmt meta chunk j"
  obtain it' ws m1 cnt err1 where w: "format_WriteInsert fmt uni S conn (env k) conf meta it
      (buildInterceptFileWriter ?name (conf_CompressType conf), s) m = Some (it', ws, m1, cnt, err1)"
    using format_WriteInsert_spec [OF laws less(3) fmt, of uni conn "env k" conf meta ?name "conf_CompressType conf" s m]
    by (metis surj_pair)
  note fr = format_WriteInsert_frame [OF laws less(3) w, folded data_path_def]
  obtain s1 td_err where td: "iw_tearDown S ws = (s1, td_err)" by fastforce
  note tf = tearDown_frame [OF laws td]
  have run: "write_files uni tmpl S conn env conf fmt meta k (data_namer conf meta chunk (Suc j)) ?name td s m =
      (let td2 = td1\<lparr>td_iter := Some it'\<rparr>
       in if err1 \<noteq> None then Some (td2, s1, m1, k + 1, err1)
          else if td_err \<noteq> None then Some (td2, s1, m1, k + 1, td_err)
          else if \<not> iw_SomethingIsWritten (fst ws) \<or> FileSize conf = UnspecifiedSize then Some (td2, s1, m1, k + 1, None)
          else write_files uni tmpl S conn env conf fmt meta (k + 1) (data_namer conf meta chunk (Suc (Suc j)))
                 (data_name conf fmt meta chunk (Suc j)) td2 s1 m1)"
    using NextName_data [OF tm, where tmpl = tmpl and fmt = fmt and meta = meta and chunk = chunk and j = "Suc j"]
    by (subst write_files.simps) (auto simp: w td less(2) Let_def)
  show ?case
  proof (cases "iter_left conn it = []")
    case True
    then have ws: "ws = (buildInterceptFileWriter ?name (conf_CompressType conf), s)" using fr by blast
    then have "s1 = s" "\<not> iw_SomethingIsWritten (fst ws)" using tf(2) by (simp_all add: buildInterceptFileWriter_def)
    then show ?thesis using less(7) run by (auto simp: Let_def split: if_splits)
  next
    case False
    then obtain rs out files' where f: "files = (rs, out) # files'" using less(5,6) by (cases files) auto
    have q: "q \<noteq> ?path" "q \<notin> chunk_paths conf fmt meta chunk (Suc j) (length files')"
      using less(8) f by (simp_all add: chunk_paths_Suc del: image_eqI image_iff)
    have s1: "contents s1 q = contents s q" using tf(1) fr q(1) by simp
    show ?thesis
    proof (cases "err1 = None \<and> td_err = None \<and> iw_SomethingIsWritten (fst ws) \<and> FileSize conf \<noteq> UnspecifiedSize")
      case False
      then have "s' = s1" using less(7) run by (auto simp: Let_def split: if_splits)
      then show ?thesis using s1 by simp
    next
      case cont: True
      with format_WriteInsert_spec [OF laws less(3) fmt, of uni conn "env k" conf meta ?name "conf_CompressType conf" s m] w
      obtain rsA outA where wr: "wrote_rows fmt uni conn conf meta contents ?path s it it' ws cnt rsA outA"
        unfolding data_path_def by (metis option.inject)
      then have a: "iter_left conn it = rsA @ iter_left conn it'" "rsA \<noteq> []" "iter_ok it'" "iter_argLen it' = n"
        "file_cut fmt uni conf meta n rsA outA" "iter_left conn it' \<noteq> [] \<longrightarrow> hit (FileSize conf) outA"
        using False less(4) unfolding wrote_rows_def by (blast, blast, blast, metis, metis, blast)
      from next_cut [OF less(6) [unfolded f] less(5) [unfolded a(1)] a(2,5,6)] obtain left where
        l: "file_cuts fmt uni conf meta n left files'" "prefix (iter_left conn it') left" by blast
      have "length (iter_left conn it') < length (iter_left conn it)" using a(1,2) by simp
      from less(1) [OF this td_Rows_again a(3,4) l(2,1) _ q(2)] less(7) run cont have "contents s' q = contents s1 q"
        by (simp add: Let_def)
      then show ?thesis using s1 by simp
    qed
  qed
qed

section \<open>Attempts over the same rows\<close>

text \<open>
  One connection gives for a chunk the rows of another, or a beginning of them because a query failed or broke
  off, with the same columns. That all connections read one snapshot, and the queries are ordered, is what makes
  it so.
\<close>

definition rows_agree :: "connection \<Rightarrow> connection \<Rightarrow> TableDataIR \<Rightarrow> bool" where
  "rows_agree A B ir \<longleftrightarrow> prefix (query_rows A (ir_queries ir)) (query_rows B (ir_queries ir)) \<and>
     (\<forall>q \<in> set (ir_queries ir). \<forall>r. A q = Inr r \<longrightarrow> (\<exists>r'. B q = Inr r' \<and> qr_cols r' = qr_cols r))"

lemma rows_agree_same:
  assumes "rows_agree A B ir" "Start A td = Inr td1" "td_wf ir td"
  shows "chunk_meta A conf meta ir = chunk_meta B conf meta ir \<and> ir_width A ir = ir_width B ir"
proof (cases ir)
  case (tableData q n b)
  then obtain r where "A q = Inr r" using assms(2,3) by (auto simp: Start_def td_wf_def split: sum.splits)
  with assms(1) tableData obtain r' where "A q = Inr r" "B q = Inr r'" "qr_cols r' = qr_cols r" by (auto simp: rows_agree_def)
  then show ?thesis using tableData
    by (simp add: chunk_meta_def ir_width_def first_result_def setTableMetaFromRows_def open_rows_def)
next
  case (multiQueriesChunk qs n)
  then show ?thesis by (simp add: chunk_meta_def ir_width_def first_result_def)
qed

lemma write_attempt_touch:
  assumes laws: "storage_laws S contents" and fmt: "wr_fileFmt w \<noteq> FileFormatUnknown" and tm: "built_in_template (wr_conf w)"
    and "td_wf ir td" "rows_agree (ans (wr_conn w)) B ir" "SQL (wr_conf w) = '''' \<longrightarrow> meta = meta0"
    and "file_cuts (wr_fileFmt w) uni (wr_conf w) (chunk_meta B (wr_conf w) meta0 ir) (ir_width B ir) (query_rows B (ir_queries ir)) files"
    and "write_attempt uni tmpl S ans env chunk (n, meta, td, w) = Some ((n', meta', td', w'), err)"
    and "q \<notin> chunk_paths (wr_conf w) (wr_fileFmt w) (chunk_meta B (wr_conf w) meta0 ir) chunk 0 (length files)"
  shows "contents (wr_store w') q = contents (wr_store w) q"
proof (cases "Start (ans (wr_conn w)) td")
  case (Inl e)
  then show ?thesis using assms(8) by (simp add: write_attempt_def)
next
  case (Inr td1)
  let ?conn = "ans (wr_conn w)"
  obtain meta2 r where m: "attempt_meta (wr_conf w) td1 meta = (meta2, r)" by fastforce
  show ?thesis
  proof (cases r)
    case (Some e)
    then show ?thesis using assms(8) Inr m by (simp add: write_attempt_def)
  next
    case None
    note same = rows_agree_same [OF assms(5) Inr assms(4), of "wr_conf w" meta0]
    have "meta2 = chunk_meta ?conn (wr_conf w) meta0 ir"
      using m None Inr assms(4,6)
      by (auto simp: attempt_meta_def chunk_meta_def first_result_def Start_def td_wf_def Let_def split: if_splits option.splits TableDataIR.splits sum.splits)
    then have meta2: "meta2 = chunk_meta B (wr_conf w) meta0 ir" using same by simp
    from Start_Rows [OF Inr assms(4)] obtain td2 it where it: "td_Rows ?conn td1 = Inr (td2, it)" "iter_ok it"
      "iter_left ?conn it = query_rows ?conn (ir_queries ir)" "iter_argLen it = ir_width ?conn ir" by blast
    from assms(8) Inr m None obtain m' k' where
      "tryToWriteTableData uni tmpl S ?conn env (wr_conf w) (wr_fileFmt w) meta2 chunk (wr_files w) td1 (wr_store w) (wr_metrics w) =
        Some (td', wr_store w', m', k', err)" by (auto simp: write_attempt_def)
    from write_files_touch [OF laws fmt tm it(1,2) _ _ assms(7) [folded meta2] this [unfolded tryToWriteTableData_files [OF tm]]]
      it(3,4) same assms(5,9) show ?thesis by (simp add: rows_agree_def meta2)
  qed
qed

text \<open>The state of a retried chunk in which only the given files differ from the start.\<close>

definition chunk_frame :: "'s contents \<Rightarrow> string set \<Rightarrow> ('c, 'w, 's) Writer \<Rightarrow> ('c, 'w, 's) chunk_state option \<Rightarrow> bool" where
  "chunk_frame contents paths w0 st \<longleftrightarrow>
     (case st of None \<Rightarrow> True | Some (n, meta, td, w) \<Rightarrow> \<forall>q. q \<notin> paths \<longrightarrow> contents (wr_store w) q = contents (wr_store w0) q)"

lemma chunk_try_touch:
  assumes laws: "storage_laws S contents" and fmt: "wr_fileFmt w0 \<noteq> FileFormatUnknown" and tm: "built_in_template (wr_conf w0)"
    and inv: "chunk_inv ir meta0 w0 st" and agree: "\<And>c. rows_agree (ans c) B ir"
    and cuts: "file_cuts (wr_fileFmt w0) uni (wr_conf w0) (chunk_meta B (wr_conf w0) meta0 ir) (ir_width B ir) (query_rows B (ir_queries ir)) files"
    and paths: "paths = chunk_paths (wr_conf w0) (wr_fileFmt w0) (chunk_meta B (wr_conf w0) meta0 ir) chunk 0 (length files)"
    and "chunk_frame contents paths w0 st"
  shows "chunk_frame contents paths w0 (fst (chunk_try uni tmpl S ans env rebuild chunk st))"
proof -
  from inv obtain n meta td w where st: "st = Some (n, meta, td, w)" "td_wf ir td"
    "SQL (wr_conf w0) = '''' \<longrightarrow> meta = meta0" "wr_conf w = wr_conf w0" "wr_fileFmt w = wr_fileFmt w0"
    by (auto simp: chunk_inv_def split: option.splits)
  have w: "\<forall>q. q \<notin> paths \<longrightarrow> contents (wr_store w) q = contents (wr_store w0) q" using assms(8) st(1) by (simp add: chunk_frame_def)
  have step: "contents (wr_store w') q = contents (wr_store w0) q"
    if "write_attempt uni tmpl S ans env chunk (n + 1, meta, td, v) = Some ((n', meta', td', w'), err)"
      "wr_conf v = wr_conf w" "wr_fileFmt v = wr_fileFmt w" "wr_store v = wr_store w" "q \<notin> paths" for v n' meta' td' w' err q
    using write_attempt_touch [OF laws _ _ st(2) agree [of "wr_conn v"] _ _ that(1), of meta0 files q] fmt tm st cuts that paths w by simp
  define attempt where "attempt v =
    (case write_attempt uni tmpl S ans env chunk (n + 1, meta, td, v) of
       None \<Rightarrow> (None, None)
     | Some ((n, meta, td, w), err) \<Rightarrow>
         (Some (n, meta, td, if err \<noteq> None then w\<lparr>wr_errorCount := wr_errorCount w + 1\<rparr> else w), err))" for v :: "('b, 'c, 'a) Writer"
  have attempt: "chunk_frame contents paths w0 (fst (attempt v))"
    if "wr_conf v = wr_conf w" "wr_fileFmt v = wr_fileFmt w" "wr_store v = wr_store w" for v
  proof (cases "write_attempt uni tmpl S ans env chunk (n + 1, meta, td, v)")
    case (Some res)
    obtain n' meta' td' w' err where res: "res = ((n', meta', td', w'), err)" by (metis surj_pair)
    show ?thesis using step [OF Some [unfolded res] that] Some res by (simp add: attempt_def chunk_frame_def)
  qed (simp add: attempt_def chunk_frame_def)
  obtain x c r where rb: "rebuild (wr_conn w) True (wr_world w) = (x, c, r)" by (metis surj_pair)
  have "chunk_try uni tmpl S ans env rebuild chunk st =
      (if n + 1 > 1
       then (case r of
               Some e \<Rightarrow> (Some (n + 1, meta, td, w\<lparr>wr_conn := c, wr_world := x, wr_errorCount := wr_errorCount w + 1\<rparr>), Some e)
             | None \<Rightarrow> attempt (w\<lparr>wr_conn := c, wr_world := x\<rparr>))
       else attempt w)"
    unfolding chunk_try_def attempt_def by (simp add: st(1) rb Let_def split: option.splits prod.splits)
  moreover have "chunk_frame contents paths w0 (Some (n + 1, meta, td, w\<lparr>wr_conn := c, wr_world := x, wr_errorCount := wr_errorCount w + 1\<rparr>))"
    using w by (simp add: chunk_frame_def)
  ultimately show ?thesis using attempt [of w] attempt [of "w\<lparr>wr_conn := c, wr_world := x\<rparr>"] by (auto split: option.splits)
qed

end
