(* ===== verification/Insert_Props.thy ===== *)
theory Insert_Props
  imports Insert_Correct
begin

text \<open>
  What writing rows into one file guarantees: runs without faults succeed, and the properties of the two
  file formats, with their witnesses.
\<close>

section \<open>Runs without faults\<close>

text \<open>A storage whose operations succeed, a schedule in which the context is not cancelled, and rows that fit.\<close>

definition never_fails :: "'s ext_storage \<Rightarrow> bool" where
  "never_fails S \<longleftrightarrow>
     (\<forall>ct p b s. snd (sto_create S ct p s) = None \<and> snd (sto_write S p b s) = None \<and> snd (sto_close S p s) = None)"

definition uncancelled :: "pipe_env \<Rightarrow> bool" where
  "uncancelled env \<longleftrightarrow> (\<forall>k e. snd (pe_select env k) \<noteq> ctxDone e)"

definition quiet :: "'s writerPipe \<Rightarrow> bool" where
  "quiet p \<longleftrightarrow> \<not> wp_errOccurs p \<and> wp_errCh p = None \<and> iw_err (fst (wp_w p)) = None"

lemma never_fails_snd:
  "never_fails S \<Longrightarrow> sto_create S ct p s = (s', r) \<Longrightarrow> r = None"
  "never_fails S \<Longrightarrow> sto_write S p b s = (s', r) \<Longrightarrow> r = None"
  "never_fails S \<Longrightarrow> sto_close S p s = (s', r) \<Longrightarrow> r = None"
  unfolding never_fails_def by (metis snd_conv)+

lemma writeBytes_quiet:
  assumes "never_fails S" "writeBytes S b (w, s) = ((w', s'), r)" "iw_err w = None"
  shows "r = None \<and> iw_err w' = None"
proof -
  obtain w1 s1 where i: "iw_init S (w, s) = (w1, s1)" by fastforce
  have e: "iw_err w1 = None"
    using i assms(3) never_fails_snd(1) [OF assms(1)]
    by (cases "sto_create S (iw_compress w) (iw_path w) s") (fastforce simp: iw_init_def split: if_splits option.splits)
  obtain s2 r2 where t: "sto_write S (iw_path w1) b s1 = (s2, r2)" by fastforce
  have "r2 = None" using never_fails_snd(2) [OF assms(1) t] .
  with i e t assms(2) show ?thesis by (auto simp: writeBytes_def iw_Write_def Let_def split: if_splits)
qed

lemma quiet_recv: "never_fails S \<Longrightarrow> quiet p \<Longrightarrow> quiet (pipe_recv S p)"
proof (cases "wp_input p")
  case (Cons b rest)
  assume "never_fails S" "quiet p"
  obtain w s w' s' r where w: "wp_w p = (w, s)" "writeBytes S b (w, s) = ((w', s'), r)" by (metis surj_pair)
  with writeBytes_quiet [OF \<open>never_fails S\<close> w(2)] \<open>quiet p\<close> Cons show ?thesis
    by (simp add: quiet_def pipe_recv_def Let_def)
qed (simp add: pipe_recv_def)

lemma quiet_run: "never_fails S \<Longrightarrow> quiet p \<Longrightarrow> quiet (pipe_Run S n p)"
  unfolding pipe_Run_def by (induction n) (simp_all add: quiet_recv)

lemma quiet_update [simp]:
  "quiet (AddFileSize k p) = quiet p" "quiet (add_rows i p) = quiet p" "quiet (p\<lparr>wp_input := q\<rparr>) = quiet p"
  "quiet (p\<lparr>wp_currentFileSize := f\<rparr>) = quiet p" "quiet (p\<lparr>wp_currentStatementSize := f\<rparr>) = quiet p"
  by (simp_all add: quiet_def AddFileSize_def add_rows_def)

lemma quiet_send: "never_fails S \<Longrightarrow> quiet p \<Longrightarrow> quiet (pipe_send S b p)"
  by (simp add: pipe_send_def Let_def quiet_recv)

lemma quiet_select:
  assumes "never_fails S" "quiet p" "snd ch \<noteq> ctxDone e" "\<And>e. snd ch \<noteq> ctxDone e" "pipe_select S ch b p = (p', r)"
  shows "r = None \<and> quiet p'"
proof -
  have q: "quiet (pipe_Run S (fst ch) p)" using quiet_run [OF assms(1,2)] .
  then have "wp_errCh (pipe_Run S (fst ch) p) = None" by (simp add: quiet_def)
  with assms(4,5) quiet_send [OF assms(1) q] show ?thesis
    by (auto simp: pipe_select_def Let_def split: prod.splits select_case.splits)
qed

text \<open>States from which the loops do not fail.\<close>

definition good_state :: "connection \<Rightarrow> nat \<Rightarrow> RowReceiverStringer list \<Rightarrow> 's wstate \<Rightarrow> bool" where
  "good_state conn n R st \<longleftrightarrow>
     iter_ok (ws_it st) \<and> iter_argLen (ws_it st) = n \<and> row_like n R (ws_row st) \<and> n \<le> length R \<and>
     quiet (ws_pipe st) \<and> list_all (\<lambda>r. length r = n) (iter_left conn (ws_it st)) \<and>
     iter_final conn (ws_it st) = None"

lemma flush_good:
  assumes "never_fails S" "uncancelled env" "good_state conn n R st" "flush_full S env st = (st', r)"
  shows "r = None \<and> good_state conn n R st' \<and> ws_it st' = ws_it st"
proof (cases "length (ws_bf st) \<ge> lengthLimit")
  case True
  obtain p r' where p: "pipe_select S (pe_select env (ws_selects st)) (ws_bf st) (ws_pipe st) = (p, r')" by fastforce
  have "r' = None \<and> quiet p"
    using quiet_select [OF assms(1) _ _ _ p] assms(2,3) by (auto simp: good_state_def uncancelled_def)
  with p True assms(3,4) show ?thesis by (auto simp: flush_full_def good_state_def simp del: iter_ok.simps)
qed (use assms in \<open>auto simp: flush_full_def\<close>)

lemma decode_good:
  assumes "good_state conn n R st" "HasNext (ws_it st)"
  shows "\<exists>row. Decode (ws_it st) (ws_row st) = Inr row \<and> row_like n R row"
proof -
  have it: "iter_ok (ws_it st)" "iter_argLen (ws_it st) = n" "row_like n R (ws_row st)" "n \<le> length R"
    using assms(1) by (auto simp: good_state_def)
  obtain r l where l: "iter_left conn (ws_it st) = r # l"
    using rows.has_next_iff [OF it(1), of conn] assms(2) by (cases "iter_left conn (ws_it st)") auto
  have "length (ws_row st) = length R" using it by (auto simp: row_like_def filled_def)
  then obtain row where "decodeFromRows n r (ws_row st) = Inr row"
    using assms(1) l it by (auto simp: decodeFromRows_def good_state_def)
  with decode_row_like [OF it(3)] Decode_spec [OF it(1) assms(2), of _ conn] it l show ?thesis by auto
qed

lemma good_Next:
  assumes "good_state conn n R st" "HasNext (ws_it st)"
  shows "iter_ok (Next conn (ws_it st))" "list_all (\<lambda>r. length r = n) (iter_left conn (Next conn (ws_it st)))"
    "iter_final conn (Next conn (ws_it st)) = None"
  using iter_Next_spec [OF _ assms(2), where conn = conn] assms(1)
  by (cases "iter_left conn (ws_it st)"; auto simp: good_state_def)+

definition left_of :: "connection \<Rightarrow> 's wstate \<Rightarrow> nat" where
  "left_of conn st = length (iter_left conn (ws_it st))"

lemma good_left:
  assumes "good_state conn n R st" "HasNext (ws_it st)"
  shows "length (iter_left conn (Next conn (ws_it st))) < left_of conn st"
  using rows.next_shorter [OF _ assms(2), where conn = conn] assms(1) by (simp add: good_state_def left_of_def)

lemma insert_row_good:
  assumes "never_fails S" "uncancelled env" "good_state conn n R st" "HasNext (ws_it st)"
  shows "\<exists>st' sw. insert_row S conn env cfg meta st = Inr (st', sw) \<and> good_state conn n R st' \<and>
    left_of conn st' < left_of conn st"
proof -
  obtain row bf where r: "(if tm_selectedField meta \<noteq> ''''
       then (case Decode (ws_it st) (ws_row st) of
               Inl e \<Rightarrow> Inl e | Inr row \<Rightarrow> Inr (row, ws_bf st @ WriteToBuffer row (EscapeBackslash cfg)))
       else Inr (ws_row st, ws_bf st @ ''()'')) = Inr (row, bf)" "row_like n R row"
    using decode_good [OF assms(3,4)] assms(3) by (cases "tm_selectedField meta = ''''") (auto simp: good_state_def)
  define p where "p = AddFileSize (of_nat (length bf - length (ws_bf st)) + 2) (ws_pipe st)"
  define sep where "sep = (if HasNext (Next conn (ws_it st)) \<and> \<not> ShouldSwitchStatement p then comma_nl else semi_nl)"
  define st1 where "st1 = st\<lparr>ws_it := Next conn (ws_it st), ws_bf := bf @ sep, ws_row := row, ws_pipe := p,
    ws_counter := ws_counter st + 1\<rparr>"
  have "good_state conn n R st1"
    using assms(3) good_Next [OF assms(3,4)] r(2) by (simp add: good_state_def st1_def p_def del: iter_ok.simps)
  with flush_good [OF assms(1,2)] obtain st' where "flush_full S env st1 = (st', None)" "good_state conn n R st'"
      and it': "ws_it st' = ws_it st1" by (metis surj_pair)
  moreover from this(1) have "insert_row S conn env cfg meta st = Inr (st', ShouldSwitchStatement p)"
    unfolding insert_row_def Let_def r(1) by (simp add: st1_def sep_def p_def split: if_splits)
  moreover have "left_of conn st' < left_of conn st"
    using good_left [OF assms(3,4)] it' by (simp add: left_of_def st1_def)
  ultimately show ?thesis by blast
qed

lemma insert_rows_good:
  assumes "never_fails S" "uncancelled env" "good_state conn n R st"
  shows "\<exists>st'. insert_rows S conn env cfg meta st = Some (Inr st') \<and> good_state conn n R st' \<and>
    (HasNext (ws_it st) \<longrightarrow> left_of conn st' < left_of conn st)"
  using assms(3)
proof (induction "left_of conn st" arbitrary: st rule: less_induct)
  case less
  show ?case
  proof (cases "HasNext (ws_it st)")
    case True
    with insert_row_good [OF assms(1,2) less(2)] obtain st1 sw where st1:
      "insert_row S conn env cfg meta st = Inr (st1, sw)" "good_state conn n R st1" "left_of conn st1 < left_of conn st" by blast
    obtain st2 where st2: "insert_rows S conn env cfg meta st1 = Some (Inr st2)" "good_state conn n R st2"
      "HasNext (ws_it st1) \<Longrightarrow> left_of conn st2 < left_of conn st1" using less(1) [OF st1(3,2)] by blast
    have "insert_rows S conn env cfg meta st = Some (Inr (if sw then st1 else st2))"
      using True st1(1) st2(1) by (subst insert_rows.simps) simp
    moreover have "left_of conn st2 < left_of conn st"
    proof (cases "HasNext (ws_it st1)")
      case False
      then have "st2 = st1" using st2(1) by (simp add: insert_rows.simps)
      then show ?thesis using st1(3) by simp
    qed (use st2(3) st1(3) in simp)
    ultimately show ?thesis using st1 st2 by auto
  next
    case False
    then show ?thesis using less(2) by (subst insert_rows.simps) simp
  qed
qed

lemma begin_stmt_good: "good_state conn n R st \<Longrightarrow> good_state conn n R (begin_stmt cfg meta st)"
  "left_of conn (begin_stmt cfg meta st) = left_of conn st" "ws_it (begin_stmt cfg meta st) = ws_it st"
  by (simp_all add: good_state_def begin_stmt_def left_of_def del: iter_ok.simps)

lemma insert_stmts_good:
  assumes "never_fails S" "uncancelled env" "good_state conn n R st"
  shows "\<exists>st'. insert_stmts S conn env cfg meta st = Some (Inr st') \<and> good_state conn n R st'"
  using assms(3)
proof (induction "left_of conn st" arbitrary: st rule: less_induct)
  case less
  show ?case
  proof (cases "HasNext (ws_it st)")
    case True
    with insert_rows_good [OF assms(1,2) begin_stmt_good(1) [OF less(2)]] begin_stmt_good(2,3) obtain st1 where st1:
      "insert_rows S conn env cfg meta (begin_stmt cfg meta st) = Some (Inr st1)" "good_state conn n R st1"
      "left_of conn st1 < left_of conn st" by metis
    then show ?thesis using less(1) [OF st1(3,2)] True
      by (cases "ShouldSwitchFile (ws_pipe st1)"; subst insert_stmts.simps) simp_all
  next
    case False
    then show ?thesis using less(2) by (subst insert_stmts.simps) simp
  qed
qed

lemma csv_rows_good:
  assumes "never_fails S" "uncancelled env" "good_state conn n R st"
  shows "\<exists>st'. csv_rows S conn env cfg meta st = Some (Inr st') \<and> good_state conn n R st'"
  using assms(3)
proof (induction "left_of conn st" arbitrary: st rule: less_induct)
  case less
  show ?case
  proof (cases "HasNext (ws_it st)")
    case True
    obtain row bf where r: "(if tm_selectedField meta \<noteq> ''''
         then (case Decode (ws_it st) (ws_row st) of
                 Inl e \<Rightarrow> Inl e
               | Inr row \<Rightarrow> Inr (row, ws_bf st @ WriteToBufferInCsv row (EscapeBackslash cfg) (csv_opt cfg)))
         else Inr (ws_row st, ws_bf st)) = Inr (row, bf)" "row_like n R row"
      using decode_good [OF less(2) True] less(2) by (cases "tm_selectedField meta = ''''") (auto simp: good_state_def)
    define st1 where "st1 = st\<lparr>ws_bf := bf @ CsvLineTerminator cfg, ws_row := row,
      ws_pipe := (ws_pipe st)\<lparr>wp_currentFileSize := wp_currentFileSize (ws_pipe st) +
        of_nat (length (bf @ CsvLineTerminator cfg) - length (ws_bf st))\<rparr>, ws_counter := ws_counter st + 1\<rparr>"
    have "good_state conn n R st1"
      using less(2) r(2) by (simp add: good_state_def st1_def del: iter_ok.simps)
    with flush_good [OF assms(1,2)] obtain st2 where st2: "flush_full S env st1 = (st2, None)"
      "good_state conn n R st2" "ws_it st2 = ws_it st1" by (metis surj_pair)
    define st3 where "st3 = st2\<lparr>ws_it := Next conn (ws_it st2)\<rparr>"
    have it2: "ws_it st2 = ws_it st" using st2(3) by (simp add: st1_def)
    have st3: "good_state conn n R st3" "left_of conn st3 < left_of conn st"
      using good_Next [OF st2(2)] st2(2) it2 True good_left [OF less(2) True]
      by (simp_all add: good_state_def st3_def left_of_def del: iter_ok.simps)
    have "csv_rows S conn env cfg meta st =
        (if ShouldSwitchFile (ws_pipe st3) then Some (Inr st3) else csv_rows S conn env cfg meta st3)"
      using True st2(1) by (subst csv_rows.simps) (simp add: r(1) Let_def st1_def st3_def)
    then show ?thesis using less(1) [OF st3(2,1)] st3(1) by simp
  next
    case False
    then show ?thesis using less(2) by (subst csv_rows.simps) simp
  qed
qed

lemma insert_finish_good:
  assumes "never_fails S" "good_state conn n R st"
  shows "\<exists>ws m'. insert_finish S env st = (ws_it st, ws, m', ws_counter st, None)"
proof -
  define p1 where "p1 = (if length (ws_bf st) > 0 then pipe_send S (ws_bf st) (ws_pipe st) else ws_pipe st)"
  have "quiet p1" using assms quiet_send [OF assms(1)] by (auto simp: p1_def good_state_def)
  then have "quiet (pipe_close S p1)" unfolding pipe_close_def by (rule quiet_run [OF assms(1)])
  moreover have "Iter_Error (ws_it st) = None"
    using assms(2) rows.err_more [of "ws_it st"] rows.err_end [of "ws_it st" conn] by (auto simp: good_state_def)
  ultimately show ?thesis
    unfolding insert_finish_def p1_def [symmetric] by (simp add: Let_def pipe_Error_def quiet_def add_rows_def)
qed

lemma format_WriteInsert_good:
  assumes "never_fails S" "uncancelled env" "iter_ok it" "fmt \<noteq> FileFormatUnknown" "iter_final conn it = None"
    and "list_all (\<lambda>r. length r = iter_argLen it) (iter_left conn it)" "iter_argLen it \<le> length (ColumnTypes meta)"
  shows "\<exists>it' ws m' cnt. format_WriteInsert fmt uni S conn env cfg meta it (buildInterceptFileWriter name ct, s) m =
    Some (it', ws, m', cnt, None)"
proof (cases "HasNext it")
  case False
  then have "Iter_Error it = None" using rows.err_end [OF assms(3) False, of conn] assms(5) by simp
  with False assms(4) show ?thesis by (cases fmt) (auto simp: WriteInsert_def WriteInsertInCsv_def)
next
  case True
  have good: "good_state conn (iter_argLen it) (MakeRowReceiver uni (ColumnTypes meta) (conf_Dialect cfg))
      (start_state uni cfg meta it bf (newWriterPipe (buildInterceptFileWriter name ct, s) fl sl m))" for bf fl sl
    using assms by (simp add: good_state_def start_state_def newWriterPipe_def buildInterceptFileWriter_def
        quiet_def row_like_def MakeRowReceiver_def del: iter_ok.simps)
  show ?thesis
  proof (cases fmt)
    case FileFormatSQLText
    obtain st' where st': "insert_stmts S conn env cfg meta (start_state uni cfg meta it (preamble_text meta)
        (newWriterPipe (buildInterceptFileWriter name ct, s) (FileSize cfg) (StatementSize cfg) m)) = Some (Inr st')"
      "good_state conn (iter_argLen it) (MakeRowReceiver uni (ColumnTypes meta) (conf_Dialect cfg)) st'"
      using insert_stmts_good [OF assms(1,2) good] by blast
    with True FileFormatSQLText insert_finish_good [OF assms(1) st'(2), of env] show ?thesis
      by (auto simp: WriteInsert_def)
  next
    case FileFormatCSV
    obtain st' where st': "csv_rows S conn env cfg meta (start_state uni cfg meta it (csv_header cfg meta)
        (newWriterPipe (buildInterceptFileWriter name ct, s) (FileSize cfg) UnspecifiedSize m)) = Some (Inr st')"
      "good_state conn (iter_argLen it) (MakeRowReceiver uni (ColumnTypes meta) (conf_Dialect cfg)) st'"
      using csv_rows_good [OF assms(1,2) good] by blast
    with True FileFormatCSV insert_finish_good [OF assms(1) st'(2), of env] show ?thesis
      by (auto simp: WriteInsertInCsv_def)
  qed (use assms(4) in simp)
qed

section \<open>Properties\<close>

lemma sql_body_nonempty: "groups \<noteq> [] \<Longrightarrow> sql_body (insert_prefix cfg meta) t groups \<noteq> []"
  by (cases groups) simp_all

text \<open>The two specifications, for a call that is known to succeed.\<close>

lemma WriteInsert_success:
  assumes "storage_laws S contents" "iter_ok it"
    and "WriteInsert uni S conn env cfg meta it (buildInterceptFileWriter name ct, s) m = Some (it', ws, m', cnt, None)"
  obtains groups where "iter_left conn it = concat groups @ iter_left conn it'" "list_all (\<lambda>g. g \<noteq> []) groups"
    "groups = [] \<longleftrightarrow> iter_left conn it = []" "cnt = of_nat (length (concat groups))"
    "iter_left conn it' \<noteq> [] \<Longrightarrow> hit (FileSize cfg) (sql_text uni cfg meta (iter_argLen it) groups)"
    "in_limits (FileSize cfg) (StatementSize cfg) (insert_prefix cfg meta)
      (sql_row cfg meta (iter_argLen it) (MakeRowReceiver uni (ColumnTypes meta) (conf_Dialect cfg))) (preamble_text meta) groups"
    "file_written contents (name @ compressFileSuffix ct) s ws
      (if groups = [] then [] else sql_text uni cfg meta (iter_argLen it) groups)"
  using WriteInsert_spec [OF assms(1,2), of uni conn env cfg meta name ct s m]
proof (elim exE conjE, goal_cases)
  case (1 res)
  then have "res = (it', ws, m', cnt, None)" using assms(3) by simp
  from 1(3) [rule_format, OF this] show ?case by (elim exE conjE) (rule 1(1); (assumption | blast))
qed

lemma WriteInsertInCsv_success:
  assumes "storage_laws S contents" "iter_ok it"
    and "WriteInsertInCsv uni S conn env cfg meta it (buildInterceptFileWriter name ct, s) m = Some (it', ws, m', cnt, None)"
  obtains rs where "iter_left conn it = rs @ iter_left conn it'" "rs = [] \<longleftrightarrow> iter_left conn it = []"
    "cnt = of_nat (length rs)"
    "file_written contents (name @ compressFileSuffix ct) s ws
      (if rs = [] then [] else csv_text uni cfg meta (iter_argLen it) rs)"
  using WriteInsertInCsv_spec [OF assms(1,2), of uni conn env cfg meta name ct s m]
proof (elim exE conjE, goal_cases)
  case (1 res)
  then have "res = (it', ws, m', cnt, None)" using assms(3) by simp
  from 1(3) [rule_format, OF this] show ?case by (elim exE conjE) (rule 1(1); assumption)
qed

lemma WriteInsert_no_rows:
  assumes "iter_ok it"
    and "WriteInsert uni S conn env cfg meta it (buildInterceptFileWriter name ct, s) m = Some (it', (w', s'), m', cnt, err)"
    and "iter_left conn it = []"
  shows "s' = s \<and> \<not> iw_open w'"
  using assms rows.has_next_iff [OF assms(1), of conn] by (auto simp: WriteInsert_def buildInterceptFileWriter_def)

lemma WriteInsertInCsv_no_rows:
  assumes "iter_ok it"
    and "WriteInsertInCsv uni S conn env cfg meta it (buildInterceptFileWriter name ct, s) m = Some (it', (w', s'), m', cnt, err)"
    and "iter_left conn it = []"
  shows "s' = s \<and> \<not> iw_open w'"
  using assms rows.has_next_iff [OF assms(1), of conn] by (auto simp: WriteInsertInCsv_def buildInterceptFileWriter_def)

text \<open>C4: A SQL file holds exactly the rows taken from the iterator. When \<open>WriteInsert\<close> returns without an
  error, the file consists of the preamble lines and of INSERT statements of at least one row each, and
  the rows of the statements, in order, are the rows by which the iterator advanced: none is lost,
  repeated or split between statements, whatever the interleaving of the two goroutines. The returned
  count is their number, at least one row is taken if there is one, no file is created otherwise, and no
  other file is touched.\<close>

theorem sql_file_content:
  assumes "storage_laws S contents" "iter_ok it"
    and "WriteInsert uni S conn env cfg meta it (buildInterceptFileWriter name ct, s) m = Some (it', (w', s'), m', cnt, None)"
  shows "\<exists>groups. iter_left conn it = concat groups @ iter_left conn it' \<and> list_all (\<lambda>g. g \<noteq> []) groups \<and>
    (groups = [] \<longleftrightarrow> iter_left conn it = []) \<and> cnt = of_nat (length (concat groups)) \<and>
    (groups \<noteq> [] \<longrightarrow> contents s' (name @ compressFileSuffix ct) = Some (sql_text uni cfg meta (iter_argLen it) groups)) \<and>
    (iw_SomethingIsWritten w' \<longleftrightarrow> groups \<noteq> []) \<and> (groups = [] \<longrightarrow> s' = s \<and> \<not> iw_open w') \<and>
    (\<forall>q. q \<noteq> name @ compressFileSuffix ct \<longrightarrow> contents s' q = contents s q)"
proof -
  from WriteInsert_success [OF assms] obtain groups where
    g: "iter_left conn it = concat groups @ iter_left conn it'" "list_all (\<lambda>g. g \<noteq> []) groups"
    "groups = [] \<longleftrightarrow> iter_left conn it = []" "cnt = of_nat (length (concat groups))"
    "file_written contents (name @ compressFileSuffix ct) s (w', s')
      (if groups = [] then [] else sql_text uni cfg meta (iter_argLen it) groups)"
    by blast
  show ?thesis
    by (rule exI [of _ groups])
       (use g sql_body_nonempty [of groups] WriteInsert_no_rows [OF assms(2,3)] in \<open>simp add: file_written_def\<close>)
qed

text \<open>C12: A CSV file holds exactly the rows taken from the iterator: when \<open>WriteInsertInCsv\<close> returns without
  an error, the file is the header (unless it is suppressed) and one line per row, for the rows by which the
  iterator advanced, in order; the returned count is their number, without rows nothing is created, and no
  other file is touched.\<close>

theorem csv_file_content:
  assumes "storage_laws S contents" "iter_ok it"
    and "WriteInsertInCsv uni S conn env cfg meta it (buildInterceptFileWriter name ct, s) m = Some (it', (w', s'), m', cnt, None)"
  shows "\<exists>rs. iter_left conn it = rs @ iter_left conn it' \<and> (rs = [] \<longleftrightarrow> iter_left conn it = []) \<and>
    cnt = of_nat (length rs) \<and>
    (rs \<noteq> [] \<and> csv_text uni cfg meta (iter_argLen it) rs \<noteq> [] \<longrightarrow>
       contents s' (name @ compressFileSuffix ct) = Some (csv_text uni cfg meta (iter_argLen it) rs)) \<and>
    (rs = [] \<longrightarrow> s' = s \<and> \<not> iw_open w') \<and>
    (\<forall>q. q \<noteq> name @ compressFileSuffix ct \<longrightarrow> contents s' q = contents s q)"
proof -
  from WriteInsertInCsv_success [OF assms] obtain rs where
    rs: "iter_left conn it = rs @ iter_left conn it'" "rs = [] \<longleftrightarrow> iter_left conn it = []" "cnt = of_nat (length rs)"
    "file_written contents (name @ compressFileSuffix ct) s (w', s')
       (if rs = [] then [] else csv_text uni cfg meta (iter_argLen it) rs)"
    by blast
  show ?thesis
    by (rule exI [of _ rs]) (use rs WriteInsertInCsv_no_rows [OF assms(2,3)] in \<open>auto simp: file_written_def\<close>)
qed

text \<open>Writing a file always ends, in both formats, whatever the storage answers, whenever the context is
  cancelled and however the pipe is scheduled.\<close>

theorem write_insert_terminates:
  assumes "storage_laws S contents" "iter_ok it"
  shows "\<exists>res. format_WriteInsert fmt uni S conn env cfg meta it (buildInterceptFileWriter name ct, s) m = Some res"
  using format_WriteInsert_spec [OF assms, of fmt uni conn env cfg meta name ct s m] by (cases fmt) auto

text \<open>C21: A result set that breaks off is never taken for a complete one: if the rows end with an error (a lost
  connection, or a later query of the chunk that fails) and no file size is set, writing reports an error.\<close>

theorem broken_stream_is_an_error:
  assumes "storage_laws S contents" "iter_ok it" "iter_final conn it = Some e" "FileSize cfg = UnspecifiedSize"
    and "format_WriteInsert fmt uni S conn env cfg meta it (buildInterceptFileWriter name ct, s) m = Some (it', ws, m', cnt, err)"
  shows "err \<noteq> None"
proof (cases "fmt = FileFormatUnknown")
  case False
  show ?thesis
  proof
    assume "err = None"
    with format_WriteInsert_spec [OF assms(1,2) False, of uni conn env cfg meta name ct s m] assms(5)
    obtain rs out where "wrote_rows fmt uni conn cfg meta contents (name @ compressFileSuffix ct) s it it' ws cnt rs out"
      by (metis option.inject)
    then show False using assms(3,4) by (auto simp: wrote_rows_def hit_def UnspecifiedSize_def)
  qed
qed (use assms(5) in auto)

text \<open>A file of the limits below: 0 means no limit, sizes are counted in 64 bits.\<close>

lemma stmt_rows_snoc: "stmt_rows t (rs @ [r]) = rows_pre t rs @ t r @ semi_nl"
  by (induction rs) (auto simp: stmt_rows_simps)

lemma sql_body_append [simp]: "sql_body pre t (gs @ hs) = sql_body pre t gs @ sql_body pre t hs"
  by (simp add: sql_body_def)

lemma not_hit_length: "\<not> hit fl x \<Longrightarrow> fl \<noteq> 0 \<Longrightarrow> length x < 2 ^ 64 \<Longrightarrow> length x < unat fl"
  by (auto simp: hit_def not_le word_less_nat_alt unat_of_nat take_bit_eq_mod)

lemma hit_length: "hit fl x \<Longrightarrow> length x < 2 ^ 64 \<Longrightarrow> unat fl \<le> length x"
  by (auto simp: hit_def word_le_nat_alt unat_of_nat take_bit_eq_mod)

lemma in_limits_last:
  assumes "in_limits fl sl pre t out (gs @ [xs @ [r]])" "gs \<noteq> [] \<or> xs \<noteq> []" "fl \<noteq> 0"
    "length (out @ sql_body pre t (gs @ [xs @ [r]])) < 2 ^ 64"
  shows "length (out @ sql_body pre t (gs @ [xs @ [r]])) < unat fl + length pre + length (t r) + 2"
proof (cases "xs = []")
  case True
  with assms have "\<not> hit fl (out @ sql_body pre t gs)" by (auto simp: in_limits_def)
  from not_hit_length [OF this assms(3)] assms(4) True show ?thesis by (simp add: stmt_rows_simps)
next
  case False
  have "\<not> hit fl (out @ sql_body pre t gs @ pre @ rows_pre t (take (length xs) (xs @ [r])))"
    using assms(1) False unfolding in_limits_def by (metis append_Nil2 length_append_singleton length_greater_0_conv lessI)
  from not_hit_length [OF this assms(3)] assms(4) show ?thesis by (simp add: stmt_rows_snoc)
qed

text \<open>C24: The file size limit is kept up to the last row: if a file size is set and a file has more than one
  row, the file is shorter than the limit plus one statement head and its last row; and if rows are left for
  a further file, the file has reached the limit.\<close>

theorem file_size_bound:
  assumes "storage_laws S contents" "iter_ok it" "FileSize cfg \<noteq> UnspecifiedSize"
    and "WriteInsert uni S conn env cfg meta it (buildInterceptFileWriter name ct, s) m = Some (it', (w', s'), m', cnt, None)"
    and "iter_left conn it \<noteq> []"
  shows "\<exists>rs r out. iter_left conn it = rs @ r # iter_left conn it' \<and>
    contents s' (name @ compressFileSuffix ct) = Some out \<and>
    (length out < 2 ^ 64 \<longrightarrow>
      (rs = [] \<or> length out < unat (FileSize cfg) + length (insert_prefix cfg meta) + 2 +
         length (sql_row cfg meta (iter_argLen it) (MakeRowReceiver uni (ColumnTypes meta) (conf_Dialect cfg)) r)) \<and>
      (iter_left conn it' \<noteq> [] \<longrightarrow> unat (FileSize cfg) \<le> length out))"
proof -
  let ?t = "sql_row cfg meta (iter_argLen it) (MakeRowReceiver uni (ColumnTypes meta) (conf_Dialect cfg))"
  from WriteInsert_success [OF assms(1,2,4)] obtain groups where
    g: "iter_left conn it = concat groups @ iter_left conn it'" "list_all (\<lambda>g. g \<noteq> []) groups"
    "groups = [] \<longleftrightarrow> iter_left conn it = []"
    "iter_left conn it' \<noteq> [] \<longrightarrow> hit (FileSize cfg) (sql_text uni cfg meta (iter_argLen it) groups)"
    "in_limits (FileSize cfg) (StatementSize cfg) (insert_prefix cfg meta) ?t (preamble_text meta) groups"
    "file_written contents (name @ compressFileSuffix ct) s (w', s') (if groups = [] then [] else sql_text uni cfg meta (iter_argLen it) groups)"
    by blast
  define out where out: "out = sql_text uni cfg meta (iter_argLen it) groups"
  have "groups \<noteq> []" using g(3) assms(5) by simp
  then have fw: "contents s' (name @ compressFileSuffix ct) = Some out"
    using g(6) sql_body_nonempty [of groups] by (simp add: file_written_def out)
  from \<open>groups \<noteq> []\<close> obtain gs h where gs: "groups = gs @ [h]" by (metis rev_exhaust)
  with g(2) have "h \<noteq> []" by simp
  then obtain xs r where "h = xs @ [r]" by (metis rev_exhaust)
  with gs have h: "groups = gs @ [xs @ [r]]" by simp
  define rs where "rs = concat gs @ xs"
  have "length out < unat (FileSize cfg) + length (insert_prefix cfg meta) + 2 + length (?t r)"
    if "rs \<noteq> []" "length out < 2 ^ 64"
  proof -
    have "gs \<noteq> [] \<or> xs \<noteq> []" using that by (auto simp: rs_def)
    from in_limits_last [OF g(5) [unfolded h] this] assms(3) that show ?thesis
      unfolding out h UnspecifiedSize_def by linarith
  qed
  moreover have "unat (FileSize cfg) \<le> length out" if "iter_left conn it' \<noteq> []" "length out < 2 ^ 64"
    using hit_length [OF g(4) [rule_format, OF that(1)]] that(2) unfolding out .
  moreover have "iter_left conn it = rs @ r # iter_left conn it'" using g(1) h by (simp add: rs_def)
  ultimately show ?thesis using fw by blast
qed

section \<open>Witnesses\<close>

text \<open>A table with two rows, an in-memory storage and a schedule that sends at once.\<close>

definition sample_table :: tableMeta where
  "sample_table =
     \<lparr>tm_database = ''s'', tm_table = ''t'', tm_colTypes = [(''id'', ''int4''), (''v'', ''text'')], tm_selectedField = ''*'',
      tm_selectColumns = '''', tm_selectedLen = 2, tm_specCmts = [''-- c''], tm_showCreateTable = '''',
      tm_showCreateView = '''', tm_avgRowLength = 0, tm_hasImplicitRowID = False\<rparr>"

definition sample_rows :: "raw_bytes list list" where
  "sample_rows = [[Some ''1'', Some ''a''], [Some ''2'', None]]"

definition sample_iter :: "error option \<Rightarrow> SQLRowIter" where
  "sample_iter e = RowIter (newRowIter (open_rows \<lparr>qr_cols = [], qr_rows = sample_rows, qr_err = e\<rparr>) 2)"

definition sample_env :: pipe_env where
  "sample_env = \<lparr>pe_select = (\<lambda>_. (0, inputReady)), pe_cancel = 0\<rparr>"

definition no_metrics :: metrics where
  "no_metrics = \<lparr>finishedSizeGauge = 0, finishedRowsGauge = 0\<rparr>"

abbreviation sample_run :: "FileFormat \<Rightarrow> Config \<Rightarrow> error option \<Rightarrow> (string \<rightharpoonup> bytes) insert_result option" where
  "sample_run fmt cfg e \<equiv> format_WriteInsert fmt (\<lambda>s. s) mem_storage sample_conn sample_env cfg sample_table
     (sample_iter e) (buildInterceptFileWriter ''t'' NoCompression, Map.empty) no_metrics"

lemma sample_facts:
  "never_fails mem_storage" "uncancelled sample_env" "iter_ok (sample_iter e)" "iter_final conn (sample_iter e) = e"
  "iter_left conn (sample_iter e) = sample_rows" "iter_argLen (sample_iter e) = 2"
  "list_all (\<lambda>r. length r = 2) sample_rows" "2 \<le> length (ColumnTypes sample_table)"
  using new_rowIter [where q = "\<lparr>qr_cols = [], qr_rows = sample_rows, qr_err = e\<rparr>" and n = 2]
  by (simp_all add: never_fails_def mem_storage_def uncancelled_def sample_env_def sample_iter_def newRowIter_def
      sample_table_def sample_rows_def ColumnTypes_def split: prod.splits)

lemma sample_run_ok:
  "fmt \<noteq> FileFormatUnknown \<Longrightarrow> \<exists>it' w' s' m' cnt. sample_run fmt cfg None = Some (it', (w', s'), m', cnt, None)"
  using format_WriteInsert_good [OF sample_facts(1-3) _ sample_facts(4) [of sample_conn], of fmt]
  by (simp add: sample_facts)

theorem sql_file_content_witness:
  "\<exists>it' w' s' m' cnt groups. sample_run FileFormatSQLText DefaultConfig None = Some (it', (w', s'), m', cnt, None) \<and>
     concat groups @ iter_left sample_conn it' = sample_rows \<and> groups \<noteq> [] \<and>
     s' ''t'' = Some (sql_text (\<lambda>s. s) DefaultConfig sample_table 2 groups)"
proof -
  obtain it' w' s' m' cnt where r: "sample_run FileFormatSQLText DefaultConfig None = Some (it', (w', s'), m', cnt, None)"
    using sample_run_ok by blast
  from sql_file_content [OF mem_storage_laws sample_facts(3) [of None] r [unfolded format_WriteInsert.simps]]
  show ?thesis using r by (auto simp: sample_facts sample_rows_def)
qed

theorem csv_file_content_witness:
  "\<exists>it' w' s' m' cnt rs. sample_run FileFormatCSV DefaultConfig None = Some (it', (w', s'), m', cnt, None) \<and>
     rs @ iter_left sample_conn it' = sample_rows \<and> rs \<noteq> [] \<and>
     s' ''t'' = Some (csv_text (\<lambda>s. s) DefaultConfig sample_table 2 rs)"
proof -
  obtain it' w' s' m' cnt where r: "sample_run FileFormatCSV DefaultConfig None = Some (it', (w', s'), m', cnt, None)"
    using sample_run_ok by blast
  from csv_file_content [OF mem_storage_laws sample_facts(3) [of None] r [unfolded format_WriteInsert.simps]]
  obtain rs where "sample_rows = rs @ iter_left sample_conn it'" "rs \<noteq> []"
    "csv_text (\<lambda>s. s) DefaultConfig sample_table 2 rs \<noteq> [] \<longrightarrow>
       s' ''t'' = Some (csv_text (\<lambda>s. s) DefaultConfig sample_table 2 rs)"
    by (auto simp: sample_facts sample_rows_def)
  moreover have "csv_header DefaultConfig sample_table \<noteq> []"
    by (simp add: csv_header_def DefaultConfig_def sample_table_def ColumnNames_def ColumnTypes_def)
  ultimately show ?thesis using r by (metis append_is_Nil_conv)
qed

theorem write_insert_terminates_witness:
  "sample_run FileFormatCSV (DefaultConfig\<lparr>FileSize := 1\<rparr>) (Some (External ''lost'')) \<noteq> None"
proof -
  obtain res where "sample_run FileFormatCSV (DefaultConfig\<lparr>FileSize := 1\<rparr>) (Some (External ''lost'')) = Some res"
    using write_insert_terminates [OF mem_storage_laws sample_facts(3)] by blast
  then show ?thesis by simp
qed

theorem broken_stream_is_an_error_witness:
  "\<exists>it' ws m' cnt e. sample_run FileFormatSQLText DefaultConfig (Some (External ''lost'')) = Some (it', ws, m', cnt, Some e)"
proof -
  obtain it' ws m' cnt err where r:
    "sample_run FileFormatSQLText DefaultConfig (Some (External ''lost'')) = Some (it', ws, m', cnt, err)"
    using format_WriteInsert_spec [OF mem_storage_laws sample_facts(3)] by (metis FileFormat.distinct(1) surj_pair)
  from broken_stream_is_an_error [OF mem_storage_laws sample_facts(3,4) _ r]
  have "err \<noteq> None" by (simp add: DefaultConfig_def UnspecifiedSize_def)
  with r show ?thesis by auto
qed

theorem file_size_bound_witness:
  "\<exists>it' w' s' m' cnt rs r out.
     sample_run FileFormatSQLText (DefaultConfig\<lparr>FileSize := 1000\<rparr>) None = Some (it', (w', s'), m', cnt, None) \<and>
     sample_rows = rs @ r # iter_left sample_conn it' \<and> s' ''t'' = Some out \<and>
     (length out < 2 ^ 64 \<and> iter_left sample_conn it' \<noteq> [] \<longrightarrow> 1000 \<le> length out)"
proof -
  let ?c = "DefaultConfig\<lparr>FileSize := 1000\<rparr>"
  obtain it' w' s' m' cnt where r: "sample_run FileFormatSQLText ?c None = Some (it', (w', s'), m', cnt, None)"
    using sample_run_ok by blast
  have "FileSize ?c \<noteq> UnspecifiedSize" "unat (FileSize ?c) = 1000" by (simp_all add: UnspecifiedSize_def)
  with file_size_bound [OF mem_storage_laws sample_facts(3) [of None] _ r [unfolded format_WriteInsert.simps]]
  have "\<exists>rs r out. sample_rows = rs @ r # iter_left sample_conn it' \<and> s' ''t'' = Some out \<and>
     (length out < 2 ^ 64 \<and> iter_left sample_conn it' \<noteq> [] \<longrightarrow> 1000 \<le> length out)"
    by (auto simp: sample_facts(5) sample_rows_def)
  with r show ?thesis by blast
qed

end
