(* ===== verification/Writer_Props.thy ===== *)
theory Writer_Props
  imports Chunk_Files Insert_Props
begin

text \<open>
  Properties of the writers: the files of a chunk are complete also after retries, writing a chunk ends, it
  succeeds when nothing fails, metadata files hold their statement, and a writer works off its tasks in order.
\<close>

section \<open>Chunks\<close>


text \<open>C19: Writing a chunk always comes back, with one of the built-in templates for file names and a known file
  format: for every connection, schedule, cancellation and failure of the storage it ends, after at most three
  attempts (one if connections cannot be rebuilt), with at most one error per attempt.\<close>

theorem chunk_writing_terminates:
  assumes "storage_laws S contents" "wr_fileFmt w \<noteq> FileFormatUnknown" "built_in_template (wr_conf w)"
  shows "\<exists>w' errs. WriteTableData uni tmpl S ans env rebuild cancelled meta ir chunk w = Some (w', errs) \<and>
    length errs \<le> (if canRebuildConn (Consistency (wr_conf w)) (TransactionalConsistency (wr_conf w)) then 3 else 1)"
  using WriteTableData_run [OF assms refl refl, of uni tmpl ans env rebuild chunk meta ir cancelled] by (meson le_trans)

text \<open>Runs without faults.\<close>

lemma write_files_good:
  assumes "storage_laws S contents" "never_fails S" "\<And>i. uncancelled (env i)" "fmt \<noteq> FileFormatUnknown" "built_in_template conf"
    and "td_Rows conn td = Inr (td1, it)" "iter_ok it" "iter_final conn it = None"
    "list_all (\<lambda>r. length r = iter_argLen it) (iter_left conn it)" "iter_argLen it \<le> length (ColumnTypes meta)"
  shows "\<exists>td' s' m' k'. write_files uni tmpl S conn env conf fmt meta k (data_namer conf meta chunk (Suc j))
      (data_name conf fmt meta chunk j) td s m = Some (td', s', m', k', None)"
  using assms(6-)
proof (induction "length (iter_left conn it)" arbitrary: k j td td1 it s m rule: less_induct)
  case less
  let ?name = "data_name conf fmt meta chunk j" and ?path = "data_path conf fmt meta chunk j"
  obtain it' ws m' cnt where w: "format_WriteInsert fmt uni S conn (env k) conf meta it
      (buildInterceptFileWriter ?name (conf_CompressType conf), s) m = Some (it', ws, m', cnt, None)"
    using format_WriteInsert_good [OF assms(2,3) less(3) assms(4) less(4-6)] by blast
  with format_WriteInsert_spec [OF assms(1) less(3) assms(4), of uni conn "env k" conf meta ?name "conf_CompressType conf" s m]
  obtain rs out where wr: "wrote_rows fmt uni conn conf meta contents ?path s it it' ws cnt rs out"
    unfolding data_path_def by (cases ws) auto
  obtain s1 r where td0: "iw_tearDown S ws = (s1, r)" by fastforce
  then have "r = None" by (auto simp: iw_tearDown_def split: prod.splits if_splits dest: never_fails_snd(3) [OF assms(2)])
  with td0 have td: "iw_tearDown S ws = (s1, None)" by simp
  note run = write_files.simps [of uni tmpl S conn env conf fmt meta k _ ?name td s m]
  show ?case
  proof (cases "\<not> iw_SomethingIsWritten (fst ws) \<or> FileSize conf = UnspecifiedSize")
    case True
    then have "write_files uni tmpl S conn env conf fmt meta k (data_namer conf meta chunk (Suc j)) ?name td s m =
        Some (td1\<lparr>td_iter := Some it'\<rparr>, s1, m', k + 1, None)"
      by (subst run) (auto simp: w td less(2) Let_def)
    then show ?thesis by blast
  next
    case False
    have left: "iter_left conn it = rs @ iter_left conn it'" "iter_final conn it' = iter_final conn it"
      "iter_argLen it' = iter_argLen it" "iter_ok it'" "if rs = [] then out = [] else file_holds fmt uni conf meta (iter_argLen it) rs out"
      "iw_SomethingIsWritten (fst ws) = (out \<noteq> [])"
      using wr unfolding wrote_rows_def file_written_def by blast+
    then have "length (iter_left conn it') < length (iter_left conn it)" using False by (auto split: if_splits)
    moreover have "iter_final conn it' = None" "list_all (\<lambda>r. length r = iter_argLen it') (iter_left conn it')"
      "iter_argLen it' \<le> length (ColumnTypes meta)"
      using less(4-6) left(1-3) by simp_all
    ultimately have "\<exists>td' s' m'' k'. write_files uni tmpl S conn env conf fmt meta (k + 1) (data_namer conf meta chunk (Suc (Suc j)))
        (data_name conf fmt meta chunk (Suc j)) (td1\<lparr>td_iter := Some it'\<rparr>) s1 m' = Some (td', s', m'', k', None)"
      by (intro less(1) [OF _ td_Rows_again left(4)])
    then show ?thesis using False NextName_data [OF assms(5), where tmpl = tmpl and fmt = fmt and meta = meta and chunk = chunk and j = "Suc j"]
      by (subst run) (simp add: w td less(2) Let_def)
  qed
qed


lemma query_ok_Start:
  assumes "query_err conn (ir_queries ir) = None" "td_wf ir td"
  shows "\<exists>td1. Start conn td = Inr td1"
  using assms by (cases ir) (auto simp: Start_def td_wf_def Let_def split: sum.splits)

lemma write_attempt_good:
  assumes "storage_laws S contents" "never_fails S" "\<And>i. uncancelled (env i)"
    and "wr_fileFmt w \<noteq> FileFormatUnknown" "built_in_template (wr_conf w)" "td_wf ir td"
    and "query_err (ans (wr_conn w)) (ir_queries ir) = None" "SQL (wr_conf w) = '''' \<or> (\<exists>q n b. ir = tableData q n b)"
    and "list_all (\<lambda>r. length r = ir_width (ans (wr_conn w)) ir) (query_rows (ans (wr_conn w)) (ir_queries ir))"
    and "ir_width (ans (wr_conn w)) ir \<le> length (ColumnTypes (chunk_meta (ans (wr_conn w)) (wr_conf w) meta ir))"
  shows "\<exists>st. write_attempt uni tmpl S ans env chunk (n, meta, td, w) = Some (st, None)"
proof -
  let ?conn = "ans (wr_conn w)"
  let ?meta = "chunk_meta ?conn (wr_conf w) meta ir"
  obtain td1 where st: "Start ?conn td = Inr td1" using query_ok_Start [OF assms(7,6)] by blast
  from Start_Rows [OF st assms(6)] obtain td2 it where it: "td_Rows ?conn td1 = Inr (td2, it)" "iter_ok it"
    "iter_left ?conn it = query_rows ?conn (ir_queries ir)" "iter_final ?conn it = None" "iter_argLen it = ir_width ?conn ir"
    using assms(7) by auto
  have m: "attempt_meta (wr_conf w) td1 meta = (?meta, None)"
    using assms(6-8) st
    by (auto simp: attempt_meta_def chunk_meta_def first_result_def Start_def td_wf_def Let_def Rows_Err_def open_rows_def
        split: sum.splits if_splits option.splits)
  have "\<exists>td' s' m' k'. tryToWriteTableData uni tmpl S ?conn env (wr_conf w) (wr_fileFmt w) ?meta chunk
      (wr_files w) td1 (wr_store w) (wr_metrics w) = Some (td', s', m', k', None)"
    unfolding tryToWriteTableData_files [OF assms(5)]
    by (rule write_files_good [OF assms(1-5) it(1,2,4)]) (use it assms(9,10) in simp_all)
  with st m show ?thesis unfolding write_attempt_def by auto
qed

lemma WriteTableData_good:
  assumes "storage_laws S contents" "never_fails S" "\<And>i. uncancelled (env i)"
    and "wr_fileFmt w \<noteq> FileFormatUnknown" "built_in_template (wr_conf w)"
    and "query_err (ans (wr_conn w)) (ir_queries ir) = None" "SQL (wr_conf w) = '''' \<or> (\<exists>q n b. ir = tableData q n b)"
    and "list_all (\<lambda>r. length r = ir_width (ans (wr_conn w)) ir) (query_rows (ans (wr_conn w)) (ir_queries ir))"
    and "ir_width (ans (wr_conn w)) ir \<le> length (ColumnTypes (chunk_meta (ans (wr_conn w)) (wr_conf w) meta ir))"
  shows "\<exists>w'. WriteTableData uni tmpl S ans env rebuild cancelled meta ir chunk w = Some (w', [])"
proof -
  have "\<exists>st. write_attempt uni tmpl S ans env chunk (1, meta, td_new ir, w) = Some (st, None)"
    by (rule write_attempt_good [where ir = ir]) (use assms in simp_all)
  then obtain n' meta' td' w' where
    a: "write_attempt uni tmpl S ans env chunk (1, meta, td_new ir, w) = Some ((n', meta', td', w'), None)" by (metis surj_pair)
  have "Attempt (newRebuildConnBackOffer b) > 0" for b by (simp add: newRebuildConnBackOffer_def dumpChunkRetryTime_def)
  with a show ?thesis unfolding WriteTableData_def by (subst WithRetry.simps) (simp add: chunk_try_def)
qed

text \<open>C20: Without faults a chunk is written at the first attempt, with one of the built-in templates for file
  names and a known file format: if the storage does not fail, no context is cancelled, the queries of the chunk
  succeed (for \<open>--sql\<close>, the one query it has) and their rows are as wide as the table's columns, then writing
  the chunk reports no error.\<close>

theorem chunk_writing_succeeds:
  assumes "storage_laws S contents" "never_fails S" "\<And>i. uncancelled (env i)"
    and "wr_fileFmt w \<noteq> FileFormatUnknown" "built_in_template (wr_conf w)"
    and "query_err (ans (wr_conn w)) (ir_queries ir) = None" "SQL (wr_conf w) = '''' \<or> (\<exists>q n b. ir = tableData q n b)"
    and "list_all (\<lambda>r. length r = ir_width (ans (wr_conn w)) ir) (query_rows (ans (wr_conn w)) (ir_queries ir))"
    and "ir_width (ans (wr_conn w)) ir \<le> length (ColumnTypes (chunk_meta (ans (wr_conn w)) (wr_conf w) meta ir))"
  shows "\<exists>w'. WriteTableData uni tmpl S ans env rebuild cancelled meta ir chunk w = Some (w', [])"
  using assms by (rule WriteTableData_good)

section \<open>Metadata files\<close>

text \<open>
  The text of a metadata file: the preamble, a line each, and the statement, which ends in a semicolon and a
  line break, added unless it has them.
\<close>

definition meta_text :: "Config \<Rightarrow> string \<Rightarrow> string" where
  "meta_text conf sql =
     concat (map (\<lambda>c. c @ [NL]) (EffectivePreamble conf)) @
     (if \<exists>body. sql = body @ [CHR '';'', NL] then sql else sql @ [CHR '';'', NL])"

lemma MetaSQL_text: "MetaSQL \<lparr>md_target = target, md_metaSQL = sql, md_specCmts = cs\<rparr> =
    (if \<exists>body. sql = body @ [CHR '';'', NL] then sql else sql @ [CHR '';'', NL])"
  by (auto simp: MetaSQL_def has_suffix_iff)

definition sql_path :: "Config \<Rightarrow> template_name \<Rightarrow> outputFileNamer \<Rightarrow> string" where
  "sql_path conf sub namer = (default_template sub namer @ ''.sql'') @ compressFileSuffix (conf_CompressType conf)"

text \<open>The metadata files of a task: their paths and texts.\<close>

fun meta_files :: "Config \<Rightarrow> Task \<Rightarrow> (string \<times> string) list" where
  "meta_files conf (TaskDatabaseMeta db sql) = [(sql_path conf TSchema (plain_namer\<lparr>DB := db\<rparr>), meta_text conf sql)]"
| "meta_files conf (TaskTableMeta db t sql) = [(sql_path conf TTable (plain_namer\<lparr>DB := db, nm_Table := t\<rparr>), meta_text conf sql)]"
| "meta_files conf (TaskViewMeta db v tsql vsql) =
     [(sql_path conf TTable (plain_namer\<lparr>DB := db, nm_Table := v\<rparr>), meta_text conf tsql),
      (sql_path conf TView (plain_namer\<lparr>DB := db, nm_Table := v\<rparr>), meta_text conf vsql)]"
| "meta_files conf (TaskSequenceMeta db q sql) = [(sql_path conf TSequence (plain_namer\<lparr>DB := db, nm_Table := q\<rparr>), meta_text conf sql)]"
| "meta_files conf (TaskPolicyMeta p sql) = [(sql_path conf TPolicy (plain_namer\<lparr>Policy := p\<rparr>), meta_text conf sql)]"
| "meta_files conf (TaskTableData meta ir chunk tot) = []"

fun is_data :: "Task \<Rightarrow> bool" where
  "is_data (TaskTableData meta ir chunk tot) \<longleftrightarrow> True"
| "is_data _ \<longleftrightarrow> False"

lemma write_comments_spec:
  assumes "storage_laws S contents" "contents s path = Some c" "write_comments S path it s = (s', None)"
  shows "contents s' path = Some (c @ concat (map (\<lambda>x. x @ [NL]) (drop (si_idx it) (si_ss it)))) \<and>
    (\<forall>q. q \<noteq> path \<longrightarrow> contents s' q = contents s q)"
  using assms
proof (induction S path it s arbitrary: c rule: write_comments.induct)
  case (1 S path it s)
  show ?case
  proof (cases "stringIter_HasNext it")
    case True
    then have h: "si_idx it < length (si_ss it)" by (simp add: stringIter_HasNext_def)
    obtain s1 r where w: "write_str S path (si_ss it ! si_idx it @ [NL]) s = (s1, r)" by fastforce
    have n: "stringIter_Next it = (it\<lparr>si_idx := si_idx it + 1\<rparr>, si_ss it ! si_idx it)" using h by (simp add: stringIter_Next_def)
    have r: "r = None" and rec: "write_comments S path (it\<lparr>si_idx := si_idx it + 1\<rparr>) s1 = (s', None)"
      using 1(4) True n w by (subst (asm) write_comments.simps, simp split: option.splits)+
    have "contents s1 path = Some (c @ si_ss it ! si_idx it @ [NL])" "\<forall>q. q \<noteq> path \<longrightarrow> contents s1 q = contents s q"
      using storage_write [OF 1(2) _ 1(3)] storage_frame(2) [OF 1(2)] w r by (auto simp: write_str_def)
    with 1(1) [OF True n [symmetric] w [symmetric] r 1(2) _ rec] h show ?thesis
      by (simp add: Cons_nth_drop_Suc [symmetric])
  next
    case False
    then show ?thesis using 1(3,4) by (subst (asm) write_comments.simps) (simp add: stringIter_HasNext_def)
  qed
qed

lemma writeMetaToFile_spec:
  assumes "storage_laws S contents" "writeMetaToFile S conf target sql path s = (s', None)"
  defines "p \<equiv> path @ compressFileSuffix (conf_CompressType conf)"
  shows "contents s' p = Some (meta_text conf sql) \<and> (\<forall>q. q \<noteq> p \<longrightarrow> contents s' q = contents s q)"
proof -
  let ?md = "\<lparr>md_target = target, md_metaSQL = sql, md_specCmts = EffectivePreamble conf\<rparr>"
  from assms(2) obtain s1 s2 s3 where c: "sto_create S (conf_CompressType conf) p s = (s1, None)"
    and w: "write_comments S p (newStringIter (EffectivePreamble conf)) s1 = (s2, None)"
    and t: "sto_write S p (MetaSQL ?md) s2 = (s3, None)" and e: "sto_close S p s3 = (s', None)"
    unfolding p_def by (auto simp: writeMetaToFile_def buildFileWriter_def WriteMeta_def write_str_def Let_def split: prod.splits option.splits sum.splits)
  note wc = write_comments_spec [OF assms(1) storage_create [OF assms(1) c] w]
  then have "contents s3 p = Some (concat (map (\<lambda>x. x @ [NL]) (EffectivePreamble conf)) @ MetaSQL ?md)"
    using storage_write [OF assms(1) t] by (simp add: newStringIter_def)
  then show ?thesis
    using storage_close [OF assms(1) e] wc storage_frame [OF assms(1)] c t e
    by (auto simp: meta_text_def MetaSQL_text)
qed

lemma write_named_spec:
  assumes "storage_laws S contents" "built_in_template conf" "sub \<noteq> TData"
    and "write_named tmpl S conf sub namer target sql s = (s', None)"
  shows "contents s' (sql_path conf sub namer) = Some (meta_text conf sql) \<and>
    (\<forall>q. q \<noteq> sql_path conf sub namer \<longrightarrow> contents s' q = contents s q)"
proof -
  have "render tmpl (OutputFileTemplate conf) sub namer = Inr (default_template sub namer)"
    using assms(2,3) by (auto simp: render_def built_in_template_def)
  with assms(4) have "writeMetaToFile S conf target sql (default_template sub namer @ ''.sql'') s = (s', None)"
    by (simp add: write_named_def)
  from writeMetaToFile_spec [OF assms(1) this] show ?thesis by (simp add: sql_path_def)
qed

lemma WriteViewMeta_named:
  assumes "built_in_template conf"
  shows "WriteViewMeta tmpl S conf db v tsql vsql s =
    (let n = plain_namer\<lparr>DB := db, nm_Table := v\<rparr>
     in case write_named tmpl S conf TTable n db tsql s of
          (s', Some e) \<Rightarrow> (s', Some e)
        | (s', None) \<Rightarrow> write_named tmpl S conf TView n db vsql s')"
  using assms by (auto simp: WriteViewMeta_def write_named_def render_def built_in_template_def Let_def)

lemma on_store_ok: "on_store f w = (w', []) \<Longrightarrow> f (wr_store w) = (wr_store w', None)"
  by (auto simp: on_store_def split: prod.splits option.splits)

lemma view_paths: "sql_path conf TTable n \<noteq> sql_path conf TView n"
  by (simp add: sql_path_def)

text \<open>C13: A metadata task that reports no error has written its files, with one of the built-in templates for
  file names: the preamble lines of the target and then the statement, closed by a semicolon and a line break
  (added unless the statement ends with them), under the names of its schema, table, view, sequence or policy; all
  other files of the storage are as before.\<close>

theorem metadata_task_written:
  assumes "storage_laws S contents" "built_in_template (wr_conf w)" "\<not> is_data task"
    and "handleTask uni tmpl S ans env rebuild cancelled task w = Some (w', [])"
  shows "(\<forall>(p, text) \<in> set (meta_files (wr_conf w) task). contents (wr_store w') p = Some text) \<and>
    (\<forall>q. q \<notin> fst ` set (meta_files (wr_conf w) task) \<longrightarrow> contents (wr_store w') q = contents (wr_store w) q)"
proof (cases task)
  case (TaskViewMeta db v tsql vsql)
  let ?n = "plain_namer\<lparr>DB := db, nm_Table := v\<rparr>"
  from TaskViewMeta assms(4) have "WriteViewMeta tmpl S (wr_conf w) db v tsql vsql (wr_store w) = (wr_store w', None)"
    by (simp add: on_store_ok)
  then obtain s1 where v: "write_named tmpl S (wr_conf w) TTable ?n db tsql (wr_store w) = (s1, None)"
    "write_named tmpl S (wr_conf w) TView ?n db vsql s1 = (wr_store w', None)"
    unfolding WriteViewMeta_named [OF assms(2)] Let_def by (auto split: prod.splits option.splits)
  from write_named_spec [OF assms(1,2) _ v(1)] write_named_spec [OF assms(1,2) _ v(2)] show ?thesis
    using TaskViewMeta view_paths [of "wr_conf w" ?n] by auto
qed (use assms in \<open>auto dest!: on_store_ok write_named_spec [OF assms(1,2), rotated]
  simp: WriteDatabaseMeta_def WriteTableMeta_def WriteSequenceMeta_def WritePolicyMeta_def\<close>)

section \<open>The task loop\<close>

text \<open>C14: A writer works off its tasks in order: if it is given tasks and then the closed stream and reports no
  error, it has finished each of them, in the order received, and counted them. If it reports errors, it
  stopped at one task, finished all before it and none after.\<close>

theorem writer_finishes_tasks:
  assumes "Writer_run uni tmpl S ans env rebuild cancelled (map Received tasks @ [StreamClosed]) w = Some (w', errs)"
  shows "\<exists>ok rest. tasks = ok @ rest \<and> (errs = [] \<longleftrightarrow> rest = []) \<and>
    wr_finishedTasks w' = wr_finishedTasks w @ ok \<and>
    wr_receivedTaskCount w' = wr_receivedTaskCount w + length ok + (if errs = [] then 0 else 1)"
  using assms
proof (induction tasks arbitrary: w)
  case (Cons task tasks)
  define w0 where "w0 = w\<lparr>wr_receivedTaskCount := wr_receivedTaskCount w + 1\<rparr>"
  from Cons(2) obtain w1 es where h: "handleTask uni tmpl S ans env rebuild (cancelled (wr_receivedTaskCount w)) task w0 = Some (w1, es)"
    by (auto simp: w0_def split: option.splits)
  note kept = handleTask_tasks [OF h]
  show ?case
  proof (cases "es = []")
    case True
    with Cons(2) h have "Writer_run uni tmpl S ans env rebuild cancelled (map Received tasks @ [StreamClosed])
        (w1\<lparr>wr_finishedTasks := wr_finishedTasks w1 @ [task]\<rparr>) = Some (w', errs)" by (simp add: w0_def)
    from Cons(1) [OF this] obtain ok rest where "tasks = ok @ rest" "errs = [] \<longleftrightarrow> rest = []"
      "wr_finishedTasks w' = wr_finishedTasks w @ task # ok"
      "wr_receivedTaskCount w' = wr_receivedTaskCount w + Suc (length ok) + (if errs = [] then 0 else 1)"
      using kept by (auto simp: w0_def)
    then show ?thesis by (intro exI [of _ "task # ok"] exI [of _ rest]) auto
  next
    case False
    with Cons(2) h have "w' = w1" "errs = es" by (simp_all add: w0_def)
    with False kept show ?thesis by (intro exI [of _ "[]"] exI [of _ "task # tasks"]) (simp add: w0_def)
  qed
qed simp

section \<open>Witnesses\<close>

lemma write_comments_good:
  "never_fails S \<Longrightarrow> snd (write_comments S p it s) = None"
  by (induction S p it s rule: write_comments.induct, subst write_comments.simps)
     (auto simp: write_str_def dest: never_fails_snd split: prod.splits option.splits)

lemma writeMetaToFile_good:
  assumes "never_fails S"
  shows "snd (writeMetaToFile S conf target sql path s) = None"
proof -
  have "snd (WriteMeta S md p s) = None" for md p s
    using write_comments_good [OF assms] assms
    by (auto simp: WriteMeta_def write_str_def never_fails_def split: prod.splits option.splits) (metis option.discI snd_conv)
  then show ?thesis using assms
    by (auto simp: writeMetaToFile_def buildFileWriter_def Let_def dest: never_fails_snd split: prod.splits option.splits)
       (metis option.discI snd_conv)+
qed

lemma write_named_good:
  assumes "never_fails S" "built_in_template conf" "sub \<noteq> TData"
  shows "snd (write_named tmpl S conf sub namer target sql s) = None"
  using assms(2,3) writeMetaToFile_good [OF assms(1)]
  by (auto simp: write_named_def render_def built_in_template_def)

text \<open>A database whose connection 0 loses its result sets, and a writer on connection \<open>c\<close>.\<close>

definition lossy_ans :: "nat \<Rightarrow> connection" where
  "lossy_ans c q = Inr \<lparr>qr_cols = [], qr_rows = sample_rows, qr_err = (if c = 0 then Some (External ''lost'') else None)\<rparr>"

definition no_template :: template_engine where
  "no_template t sub namer = Inl (External ''template'')"

definition sample_writer :: "nat \<Rightarrow> (nat, nat, string \<rightharpoonup> bytes) Writer" where
  "sample_writer c = NewWriter (\<lambda>s. s) 0 (DefaultConfig\<lparr>FileType := ''sql''\<rparr>) c 0 Map.empty no_metrics"

abbreviation sample_write :: "nat \<Rightarrow> ((nat, nat, string \<rightharpoonup> bytes) Writer \<times> error list) option" where
  "sample_write c \<equiv> WriteTableData (\<lambda>s. s) no_template mem_storage lossy_ans (\<lambda>i. sample_env) (\<lambda>c b w. (w, c + 1, None))
     (\<lambda>_. False) sample_table (tableData ''q'' 2 False) 0 (sample_writer c)"

lemma lower_sql: "ToLower (\<lambda>s. s) ''sql'' = ''sql''"
  by code_simp

lemma sample_writer_facts:
  "wr_fileFmt (sample_writer c) = FileFormatSQLText" "built_in_template (wr_conf (sample_writer c))"
  "SQL (wr_conf (sample_writer c)) = ''''" "wr_conn (sample_writer c) = c" "wr_finishedTasks (sample_writer c) = []"
  "wr_receivedTaskCount (sample_writer c) = 0" "wr_store (sample_writer c) = Map.empty"
  by (simp_all add: sample_writer_def NewWriter_def FileFormatSQLTextString_def lower_sql built_in_template_def DefaultConfig_def)

lemma sample_write_ok: "\<exists>w'. sample_write 1 = Some (w', [])"
  by (rule WriteTableData_good [OF mem_storage_laws sample_facts(1,2)])
     (simp_all add: sample_writer_facts lossy_ans_def ir_width_def sample_facts chunk_meta_def)

text \<open>A chunk that fails on connection 0 and is written by the second attempt.\<close>

lemma sample_retry_ok: "\<exists>w'. sample_write 0 = Some (w', [])"
proof -
  let ?ir = "tableData ''q'' 2 False" and ?w = "sample_writer 0"
  define f where "f = chunk_try (\<lambda>s. s) no_template mem_storage lossy_ans (\<lambda>i. sample_env) (\<lambda>c b w :: nat. (w, c + 1, None)) 0"
  have "wr_fileFmt ?w \<noteq> FileFormatUnknown" "built_in_template (wr_conf ?w)" by (simp_all add: sample_writer_facts)
  from write_attempt_spec [OF mem_storage_laws this td_wf_new [of ?ir], of "\<lambda>s. s" no_template lossy_ans "\<lambda>i. sample_env" 0 1 sample_table]
  obtain meta1 td1 w1 err where a: "write_attempt (\<lambda>s. s) no_template mem_storage lossy_ans (\<lambda>i. sample_env) 0 (1, sample_table, td_new ?ir, ?w) =
      Some ((1, meta1, td1, w1), err)" "td_wf ?ir td1" "meta1 = sample_table"
    "wr_conf w1 = wr_conf ?w" "wr_fileFmt w1 = FileFormatSQLText" "wr_conn w1 = 0"
    "err = None \<longrightarrow> query_err (lossy_ans 0) (ir_queries ?ir) = None"
    unfolding chunk_done_def by (auto simp: sample_writer_facts simp del: query_err.simps query_rows.simps)
  have "err \<noteq> None" using a(7) by (auto simp: lossy_ans_def)
  then obtain e where e: "err = Some e" by blast
  define w2 where "w2 = w1\<lparr>wr_errorCount := wr_errorCount w1 + 1, wr_conn := 1, wr_world := wr_world w1\<rparr>"
  have "\<exists>st. write_attempt (\<lambda>s. s) no_template mem_storage lossy_ans (\<lambda>i. sample_env) 0 (2, sample_table, td1, w2) = Some (st, None)"
    by (rule write_attempt_good [OF mem_storage_laws sample_facts(1,2), where ir = ?ir])
       (use a in \<open>simp_all add: w2_def sample_writer_facts lossy_ans_def ir_width_def sample_facts chunk_meta_def\<close>)
  then obtain n3 meta3 td3 w3 where g: "write_attempt (\<lambda>s. s) no_template mem_storage lossy_ans (\<lambda>i. sample_env) 0 (2, sample_table, td1, w2) =
      Some ((n3, meta3, td3, w3), None)" by (metis surj_pair)
  have f1: "f (Some (0, sample_table, td_new ?ir, ?w)) = (Some (1, sample_table, td1, w1\<lparr>wr_errorCount := wr_errorCount w1 + 1\<rparr>), Some e)"
    using a(1,3) e by (simp add: f_def chunk_try_def)
  have f2: "f (Some (1, sample_table, td1, w1\<lparr>wr_errorCount := wr_errorCount w1 + 1\<rparr>)) = (Some (n3, meta3, td3, w3), None)"
    using g a(6) by (simp add: f_def chunk_try_def w2_def numeral_2_eq_2)
  have "canRebuildConn (Consistency (wr_conf ?w)) (TransactionalConsistency (wr_conf ?w))"
    by (simp add: canRebuildConn_def sample_writer_def NewWriter_def DefaultConfig_def)
  then show ?thesis unfolding WriteTableData_def f_def [symmetric]
    by (simp add: newRebuildConnBackOffer_def dumpChunkRetryTime_def WithRetry.simps [of _ _ _ "[]"] f1 Let_def
        WithRetry.simps [of _ _ _ "[e]"] f2 [simplified])
qed


theorem chunk_writing_terminates_witness:
  "\<exists>w' errs. sample_write 0 = Some (w', errs) \<and> length errs \<le> 3"
proof -
  obtain w' errs where "sample_write 0 = Some (w', errs)"
    "length errs \<le> (if canRebuildConn (Consistency (wr_conf (sample_writer 0))) (TransactionalConsistency (wr_conf (sample_writer 0))) then 3 else 1)"
    using chunk_writing_terminates [OF mem_storage_laws, of "sample_writer 0" "\<lambda>s. s" no_template lossy_ans
        "\<lambda>i. sample_env" "\<lambda>c b w. (w, c + 1, None)" "\<lambda>_. False" sample_table "tableData ''q'' 2 False" 0]
    by (auto simp: sample_writer_facts)
  then show ?thesis by (auto split: if_splits)
qed

theorem chunk_writing_succeeds_witness: "\<exists>w'. sample_write 1 = Some (w', [])"
  by (rule chunk_writing_succeeds [OF mem_storage_laws sample_facts(1,2)])
     (simp_all add: sample_writer_facts lossy_ans_def ir_width_def sample_facts chunk_meta_def)

lemma table_task_ok:
  assumes "built_in_template (wr_conf w)"
  shows "\<exists>w'. handleTask uni tmpl mem_storage ans env rebuild cancelled (TaskTableMeta db t sql) w = Some (w', [])"
  using write_named_good [OF sample_facts(1) assms, of TTable tmpl "plain_namer\<lparr>DB := db, nm_Table := t\<rparr>" db sql "wr_store w"]
  by (auto simp: on_store_def WriteTableMeta_def split: prod.splits)

theorem metadata_task_written_witness:
  "\<exists>w'. handleTask (\<lambda>s. s) no_template mem_storage lossy_ans (\<lambda>i. sample_env) (\<lambda>c b w. (w, c, None)) (\<lambda>_. False)
       (TaskTableMeta ''s'' ''t'' ''CREATE TABLE t ()'') (sample_writer 1) = Some (w', []) \<and>
     wr_store w' (sql_path (wr_conf (sample_writer 1)) TTable (plain_namer\<lparr>DB := ''s'', nm_Table := ''t''\<rparr>)) =
       Some (concat (map (\<lambda>c. c @ [NL]) (EffectivePreamble (wr_conf (sample_writer 1)))) @ ''CREATE TABLE t ()'' @ [CHR '';'', NL])"
proof -
  obtain w' where w: "handleTask (\<lambda>s. s) no_template mem_storage lossy_ans (\<lambda>i. sample_env) (\<lambda>c b w. (w, c, None)) (\<lambda>_. False)
       (TaskTableMeta ''s'' ''t'' ''CREATE TABLE t ()'') (sample_writer 1) = Some (w', [])"
    using table_task_ok sample_writer_facts(2) by blast
  have "\<nexists>body. ''CREATE TABLE t ()'' = body @ [CHR '';'', NL]"
    by (auto dest: arg_cong [where f = last])
  with metadata_task_written [OF mem_storage_laws sample_writer_facts(2) _ w] w show ?thesis by (simp add: meta_text_def)
qed

theorem writer_finishes_tasks_witness:
  "\<exists>w'. Writer_run (\<lambda>s. s) no_template mem_storage lossy_ans (\<lambda>i. sample_env) (\<lambda>c b w. (w, c, None)) (\<lambda>_ _. False)
       [Received (TaskTableMeta ''s'' ''t'' ''CREATE TABLE t ()''), StreamClosed] (sample_writer 1) = Some (w', []) \<and>
     wr_finishedTasks w' = [TaskTableMeta ''s'' ''t'' ''CREATE TABLE t ()'']"
proof -
  have "\<exists>w'. handleTask (\<lambda>s. s) no_template mem_storage lossy_ans (\<lambda>i. sample_env) (\<lambda>c b w. (w, c, None)) (\<lambda>_. False)
       (TaskTableMeta ''s'' ''t'' ''CREATE TABLE t ()'') ((sample_writer 1)\<lparr>wr_receivedTaskCount := 1\<rparr>) = Some (w', [])"
    by (rule table_task_ok) (simp add: sample_writer_facts)
  then obtain w' where "Writer_run (\<lambda>s. s) no_template mem_storage lossy_ans (\<lambda>i. sample_env) (\<lambda>c b w. (w, c, None)) (\<lambda>_ _. False)
       (map Received [TaskTableMeta ''s'' ''t'' ''CREATE TABLE t ()''] @ [StreamClosed]) (sample_writer 1) = Some (w', [])"
    by (auto simp: sample_writer_facts simp del: handleTask.simps)
  from writer_finishes_tasks [OF this] this show ?thesis by (auto simp: sample_writer_facts)
qed

end
