(* ===== verification/Task_Queue.thy ===== *)
theory Task_Queue
  imports Tasks "HOL-Library.Multiset"
begin

text \<open>
  The unbounded channel between the dumper and its writers (\<open>infiniteChan\<close> of \<open>export/util.go\<close>): a goroutine
  that keeps a queue, appends what it reads from the one channel and offers the head on the other, and that
  passes on the rest of the queue when the first channel is closed.

  Both channels are unbuffered, so every transfer is one step of the goroutine together with its partner;
  which step comes next is decided by the select statement and the partners, here by the event.
\<close>

section \<open>The goroutine\<close>

datatype ic_phase = Looping | Draining | Stopped

record 'a infiniteChan =
  ic_q :: "'a list"
  ic_phase :: ic_phase

definition newInfiniteChan :: "'a infiniteChan" where
  "newInfiniteChan = \<lparr>ic_q = [], ic_phase = Looping\<rparr>"

text \<open>Events: an element or the end is read from \<open>in\<close>, an element is sent on \<open>out\<close>, \<open>out\<close> is closed.\<close>

datatype 'a ic_event = In 'a | InClosed | Out 'a | OutClosed

fun ic_run1 :: "'a infiniteChan \<Rightarrow> 'a ic_event \<Rightarrow> 'a infiniteChan option" where
  "ic_run1 c (In e) = (if ic_phase c = Looping then Some (c\<lparr>ic_q := ic_q c @ [e]\<rparr>) else None)"
| "ic_run1 c InClosed = (if ic_phase c = Looping then Some (c\<lparr>ic_phase := Draining\<rparr>) else None)"
| "ic_run1 c (Out e) =
     (if ic_phase c = Stopped then None
      else case ic_q c of
             [] \<Rightarrow> None
           | x # xs \<Rightarrow> if e = x then Some (c\<lparr>ic_q := xs\<rparr>) else None)"
| "ic_run1 c OutClosed =
     (if ic_phase c = Draining \<and> ic_q c = [] then Some (c\<lparr>ic_phase := Stopped\<rparr>) else None)"

text \<open>The same as a step relation, one rule per communication.\<close>

inductive ic_step :: "'a infiniteChan \<Rightarrow> 'a ic_event \<Rightarrow> 'a infiniteChan \<Rightarrow> bool" where
  read: "ic_phase c = Looping \<Longrightarrow> ic_step c (In e) (c\<lparr>ic_q := ic_q c @ [e]\<rparr>)"
| read_end: "ic_phase c = Looping \<Longrightarrow> ic_step c InClosed (c\<lparr>ic_phase := Draining\<rparr>)"
| send: "ic_phase c \<noteq> Stopped \<Longrightarrow> ic_q c = x # xs \<Longrightarrow> ic_step c (Out x) (c\<lparr>ic_q := xs\<rparr>)"
| close: "ic_phase c = Draining \<Longrightarrow> ic_q c = [] \<Longrightarrow> ic_step c OutClosed (c\<lparr>ic_phase := Stopped\<rparr>)"

inductive_cases ic_step_InE: "ic_step c (In e) c'"
inductive_cases ic_step_InClosedE: "ic_step c InClosed c'"
inductive_cases ic_step_OutE: "ic_step c (Out e) c'"
inductive_cases ic_step_OutClosedE: "ic_step c OutClosed c'"

lemmas ic_step_cases = ic_step_InE ic_step_InClosedE ic_step_OutE ic_step_OutClosedE

lemma ic_step_run1: "ic_step c e c' \<longleftrightarrow> ic_run1 c e = Some c'"
  by (cases e) (auto elim!: ic_step_cases intro: ic_step.intros split: if_splits list.splits)

inductive ic_steps :: "'a infiniteChan \<Rightarrow> 'a ic_event list \<Rightarrow> 'a infiniteChan \<Rightarrow> bool" where
  ic_none: "ic_steps c [] c"
| ic_more: "ic_steps c es c' \<Longrightarrow> ic_step c' e c'' \<Longrightarrow> ic_steps c (es @ [e]) c''"

fun ins :: "'a ic_event list \<Rightarrow> 'a list" where
  "ins [] = []"
| "ins (In e # es) = e # ins es"
| "ins (_ # es) = ins es"

fun outs :: "'a ic_event list \<Rightarrow> 'a list" where
  "outs [] = []"
| "outs (Out e # es) = e # outs es"
| "outs (_ # es) = outs es"

lemma ins_append [simp]: "ins (xs @ ys) = ins xs @ ins ys"
  by (induction xs rule: ins.induct) auto

lemma outs_append [simp]: "outs (xs @ ys) = outs xs @ outs ys"
  by (induction xs rule: outs.induct) auto

section \<open>The contract of a channel\<close>

text \<open>
  What the dumper relies on: what is in the channel is what went in and did not come out, an open channel
  takes every element at once, and a channel whose input is closed can always go on until it is closed.
\<close>

locale unbounded_channel =
  fixes init :: 's
    and steps :: "'s \<Rightarrow> 'ev list \<Rightarrow> 's \<Rightarrow> bool"
    and ins :: "'ev list \<Rightarrow> 'a list"
    and outs :: "'ev list \<Rightarrow> 'a list"
    and content :: "'s \<Rightarrow> 'a list"
    and stopped :: "'s \<Rightarrow> bool"
  assumes conserved: "steps init es c \<Longrightarrow> ins es = outs es @ content c"
    and empty_stopped: "steps init es c \<Longrightarrow> stopped c \<Longrightarrow> content c = []"
begin

lemma in_order: "steps init es c \<Longrightarrow> outs es = take (length (outs es)) (ins es)"
  using conserved by (metis append_eq_conv_conj)

lemma nothing_lost: "steps init es c \<Longrightarrow> stopped c \<Longrightarrow> outs es = ins es"
  using conserved empty_stopped by (metis append_Nil2)

lemma nothing_twice: "steps init es c \<Longrightarrow> distinct (ins es) \<Longrightarrow> distinct (outs es)"
  using conserved by (metis distinct_append)

end

lemma ic_conserved: "ic_steps c es c' \<Longrightarrow> ic_q c @ ins es = outs es @ ic_q c'"
  by (induction rule: ic_steps.induct) (auto simp: ic_step.simps)

lemma ic_stopped_empty: "ic_steps c es c' \<Longrightarrow> (ic_phase c = Stopped \<Longrightarrow> ic_q c = []) \<Longrightarrow> ic_phase c' = Stopped \<Longrightarrow> ic_q c' = []"
  by (induction rule: ic_steps.induct) (auto simp: ic_step.simps)

interpretation chan: unbounded_channel newInfiniteChan ic_steps ins outs ic_q "\<lambda>c. ic_phase c = Stopped"
proof
  show "ins es = outs es @ ic_q c" if "ic_steps newInfiniteChan es c" for es and c :: "'a infiniteChan"
    using ic_conserved [OF that] by (simp add: newInfiniteChan_def)
  show "ic_q c = []" if "ic_steps newInfiniteChan es c" "ic_phase c = Stopped" for es and c :: "'a infiniteChan"
    using ic_stopped_empty [OF that(1) _ that(2)] by (simp add: newInfiniteChan_def)
qed

lemma ic_steps_trans: "ic_steps c' es' c'' \<Longrightarrow> ic_steps c es c' \<Longrightarrow> ic_steps c (es @ es') c''"
  by (induction rule: ic_steps.induct) (auto simp: append_assoc [symmetric] simp del: append_assoc intro: ic_steps.ic_more)

lemma drain: "ic_phase c \<noteq> Stopped \<Longrightarrow> ic_steps c (map Out (ic_q c)) (c\<lparr>ic_q := []\<rparr>)"
proof (induction "ic_q c" arbitrary: c)
  case Nil
  then have "c\<lparr>ic_q := []\<rparr> = c" by simp
  then show ?case using Nil(1) ic_steps.ic_none [of c] by (metis list.simps(8))
next
  case (Cons x xs)
  let ?c = "c\<lparr>ic_q := xs\<rparr>"
  have "ic_steps c [Out x] ?c"
    using ic_steps.ic_more [OF ic_steps.ic_none ic_step.send [OF Cons(3) Cons(2) [symmetric]]] by simp
  moreover have "ic_steps ?c (map Out xs) (?c\<lparr>ic_q := []\<rparr>)" using Cons(1) [of ?c] Cons(3) by simp
  ultimately show ?case using ic_steps_trans [of ?c] Cons(2) [symmetric] by fastforce
qed

text \<open>C8: The task channel neither loses, duplicates nor reorders tasks, and never holds up the dumper. In every
  run what came out so far is a prefix of what went in; while its input is open the next element is taken at
  once, whatever the writers do; and once the input is closed the run can be completed, and when the output
  is closed exactly the elements that went in have come out, in their order.\<close>

theorem task_channel_fifo:
  assumes "ic_steps newInfiniteChan es c"
  shows "outs es = take (length (outs es)) (ins es) \<and>
    (ic_phase c = Looping \<longrightarrow> (\<exists>c'. ic_step c (In e) c')) \<and>
    (ic_phase c = Draining \<longrightarrow> (\<exists>c'. ic_steps newInfiniteChan (es @ map Out (ic_q c) @ [OutClosed]) c' \<and> ic_phase c' = Stopped)) \<and>
    (ic_phase c = Stopped \<longrightarrow> outs es = ins es \<and> (\<nexists>ev c'. ic_step c ev c'))"
proof (intro conjI impI)
  show "outs es = take (length (outs es)) (ins es)" by (rule chan.in_order [OF assms])
  show "\<exists>c'. ic_step c (In e) c'" if "ic_phase c = Looping" using that by (auto intro: ic_step.read)
  show "outs es = ins es" if "ic_phase c = Stopped" using chan.nothing_lost [OF assms that] .
  show "\<nexists>ev c'. ic_step c ev c'" if "ic_phase c = Stopped" using that by (auto simp: ic_step.simps)
  assume d: "ic_phase c = Draining"
  then have "ic_steps newInfiniteChan (es @ map Out (ic_q c)) (c\<lparr>ic_q := []\<rparr>)"
    using ic_steps_trans [OF drain assms] by simp
  then have "ic_steps newInfiniteChan ((es @ map Out (ic_q c)) @ [OutClosed]) (c\<lparr>ic_q := [], ic_phase := Stopped\<rparr>)"
    by (rule ic_steps.ic_more) (use ic_step.close [of "c\<lparr>ic_q := []\<rparr>"] d in simp)
  then show "\<exists>c'. ic_steps newInfiniteChan (es @ map Out (ic_q c) @ [OutClosed]) c' \<and> ic_phase c' = Stopped" by force
qed

theorem task_channel_fifo_witness:
  "\<exists>c. ic_steps newInfiniteChan [In 1, In (2 :: nat), Out 1, InClosed, Out 2, OutClosed] c \<and>
     outs [In 1, In (2 :: nat), Out 1, InClosed, Out 2, OutClosed] = [1, 2] \<and> (\<nexists>ev c'. ic_step c ev c')"
proof -
  have "ic_steps newInfiniteChan ([] @ [In 1] @ [In (2 :: nat)] @ [Out 1] @ [InClosed] @ [Out 2] @ [OutClosed]) \<lparr>ic_q = [], ic_phase = Stopped\<rparr>"
    unfolding append_assoc [symmetric]
    by (rule ic_steps.ic_more ic_steps.ic_none | simp add: ic_step_run1 newInfiniteChan_def)+
  from task_channel_fifo [OF this] this show ?thesis by auto
qed

end
