(* ===== verification/Dumper.thy ===== *)
theory Dumper
  imports Dump_Tasks Consistency Writer_Props Task_Queue
begin

text \<open>
  The dump as a whole (\<open>Dump\<close> and the steps of \<open>NewDumper\<close> in \<open>export/dump.go\<close>) and the file \<open>metadata\<close>
  that marks a finished dump (\<open>export/metadata.go\<close>).

  \<open>Dump\<close> is cut where the tasks start to flow: \<open>dump_prepare\<close> sets up the snapshot, the table list and the
  connections, \<open>dump_run\<close> produces the tasks, waits for the writers and cleans up. What the group of writers
  does with the tasks is the parameter \<open>wait\<close>, any function of the tasks, the metadata, which a writer that
  rebuilds its connection extends, and the state; the times are given as formatted texts.
\<close>

section \<open>The metadata file\<close>

record globalMetadata =
  gm_buffer :: string
  gm_afterConnBuffer :: string
  gm_snapshot :: string
  gm_cdcSlot :: "cdcSlotInfo option"

definition metadataPath :: string where "metadataPath = ''metadata''"

definition newGlobalMetadata :: "string \<Rightarrow> globalMetadata" where
  "newGlobalMetadata snapshot = \<lparr>gm_buffer = '''', gm_afterConnBuffer = '''', gm_snapshot = snapshot, gm_cdcSlot = None\<rparr>"

definition recordStartTime :: "string \<Rightarrow> globalMetadata \<Rightarrow> globalMetadata" where
  "recordStartTime t m = m\<lparr>gm_buffer := gm_buffer m @ ''Started dump at: '' @ t @ [NL]\<rparr>"

definition recordFinishTime :: "string \<Rightarrow> globalMetadata \<Rightarrow> globalMetadata" where
  "recordFinishTime t m = m\<lparr>gm_buffer := gm_buffer m @ gm_afterConnBuffer m @ ''Finished dump at: '' @ t @ [NL]\<rparr>"

definition slot_text :: "cdcSlotInfo option \<Rightarrow> string" where
  "slot_text slot =
     (case slot of
        None \<Rightarrow> ''''
      | Some i \<Rightarrow>
          ''CDC Slot: '' @ SlotName i @ [NL] @ ''CDC Plugin: '' @ OutputPlugin i @ [NL] @
          ''CDC Consistent Point: '' @ ConsistentPoint i @ [NL] @ ''CDC Snapshot Name: '' @ SnapshotName i @ [NL])"

definition recordGlobalMetaData :: "globalMetadata \<Rightarrow> globalMetadata" where
  "recordGlobalMetaData m = m\<lparr>gm_buffer := gm_buffer m @ slot_text (gm_cdcSlot m)\<rparr>"

definition writeGlobalMetaData :: "'s ext_storage \<Rightarrow> globalMetadata \<Rightarrow> 's \<Rightarrow> 's \<times> error option" where
  "writeGlobalMetaData S m s =
     (case buildFileWriter S metadataPath NoCompression s of
        (s1, Inl e) \<Rightarrow> (s1, Some e)
      | (s1, Inr p) \<Rightarrow>
          (case write_str S p (gm_buffer m) s1 of
             (s2, err) \<Rightarrow>
               (case sto_close S p s2 of
                  (s3, tearDownErr) \<Rightarrow> (s3, case err of None \<Rightarrow> tearDownErr | Some e \<Rightarrow> Some e))))"

section \<open>Steps of the initialisation\<close>

fun runSteps :: "('d \<Rightarrow> 'd \<times> error option) list \<Rightarrow> 'd \<Rightarrow> 'd \<times> error option" where
  "runSteps [] d = (d, None)"
| "runSteps (st # sts) d = (case st d of (d', None) \<Rightarrow> runSteps sts d' | (d', Some e) \<Rightarrow> (d', Some e))"

definition resolveAutoConsistency :: "Config \<Rightarrow> Config \<times> error option" where
  "resolveAutoConsistency conf =
     (if Consistency conf = ConsistencyTypeAuto then conf\<lparr>Consistency := ConsistencyTypeSnapshot\<rparr> else conf, None)"

definition validateResolveAutoConsistency :: "Config \<Rightarrow> Config \<times> error option" where
  "validateResolveAutoConsistency conf =
     (conf, if Consistency conf \<noteq> ConsistencyTypeSnapshot \<and> Snapshot conf \<noteq> ''''
            then Some (Errorf ''can't specify --snapshot when --consistency isn't snapshot, resolved consistency: %s''
                         [Consistency conf])
            else None)"

text \<open>
  \<open>resetDBWithSessionParams\<close>: the \<open>SET\<close> statements are run on the old pool, which is then closed; a pool is
  a number here, \<open>exec\<close> runs a statement on a pool, \<open>open\<close> opens the next one and \<open>ping\<close> tries it. A failed ping
  closes the new pool, which is returned all the same.
\<close>

datatype pool_event = PoolExec nat string string | PoolClose nat | PoolOpen nat | PoolPing nat

fun set_params ::
  "(pool_event list \<Rightarrow> error option) \<Rightarrow> nat \<Rightarrow> (string \<times> string) list \<Rightarrow> pool_event list \<Rightarrow> pool_event list \<times> error option" where
  "set_params exec pool [] t = (t, None)"
| "set_params exec pool ((k, v) # ps) t =
     (let t' = t @ [PoolExec pool (''SET SESSION '' @ k @ '' = $1'') v]
      in case exec t' of
           None \<Rightarrow> set_params exec pool ps t'
         | Some e \<Rightarrow>
             if contains_str ''unrecognized configuration parameter'' (error_text e) \<or>
                contains_str ''Unknown system variable'' (error_text e)
             then set_params exec pool ps t' else (t', Some e))"

definition resetDBWithSessionParams ::
  "(pool_event list \<Rightarrow> error option) \<Rightarrow> (pool_event list \<Rightarrow> error option) \<Rightarrow> (pool_event list \<Rightarrow> error option) \<Rightarrow> nat
    \<Rightarrow> (string \<times> string) list \<Rightarrow> pool_event list \<Rightarrow> pool_event list \<times> (error + nat)" where
  "resetDBWithSessionParams exec opn ping pool params t =
     (case set_params exec pool params t of
        (t1, Some e) \<Rightarrow> (t1, Inl e)
      | (t1, None) \<Rightarrow>
          let newDB = pool + 1; t2 = t1 @ [PoolClose pool, PoolOpen newDB]
          in case opn t2 of
               Some e \<Rightarrow> (t2, Inl e)
             | None \<Rightarrow>
                 let t3 = t2 @ [PoolPing newDB]
                 in (case ping t3 of None \<Rightarrow> t3 | Some e \<Rightarrow> t3 @ [PoolClose newDB], Inr newDB))"

section \<open>New connections during the dump\<close>

type_synonym dump_world = "ConsistencyController \<times> globalMetadata \<times> dump_state"

definition rebuildMetaConn :: "db_env \<Rightarrow> bool \<Rightarrow> (nat, dump_world) rebuild" where
  "rebuildMetaConn env repeatableRead conn updateMeta dw =
     (case dw of (ctl, m, w) \<Rightarrow>
        (case createConnWithConsistency env repeatableRead (call (CloseConn conn) w) of
           (w1, Inl e) \<Rightarrow> ((ctl, m, w1), conn, Some e)
         | (w1, Inr newConn) \<Rightarrow>
             ((ctl, if updateMeta \<and> PosAfterConnect (ds_conf w1) then recordGlobalMetaData m else m, w1), newConn, None)))"

definition rebuildConn :: "db_env \<Rightarrow> bool \<Rightarrow> (nat, dump_world) rebuild" where
  "rebuildConn env repeatableRead conn updateMeta dw =
     (case dw of (ctl, m, w) \<Rightarrow>
        (case ctrl_Ping env ctl w of
           (w1, Some e) \<Rightarrow> ((ctl, m, w1), conn, Some e)
         | (w1, None) \<Rightarrow> rebuildMetaConn env repeatableRead conn updateMeta (ctl, m, w1)))"

section \<open>The dump\<close>

fun error_cause :: "error \<Rightarrow> error" where
  "error_cause (Annotatef e f args) = error_cause e"
| "error_cause e = e"

definition is_canceled :: "error \<Rightarrow> bool" where
  "is_canceled e \<longleftrightarrow> error_text (error_cause e) = ''context canceled''"

definition close_conns :: "nat list \<Rightarrow> dump_state \<Rightarrow> dump_state" where
  "close_conns cs w = fold (\<lambda>c. call (CloseConn c)) cs w"

text \<open>The deferred function that releases the controller: it looks at the variable \<open>err\<close> of \<open>Dump\<close>.\<close>

definition release :: "db_env \<Rightarrow> ConsistencyController \<Rightarrow> error option \<Rightarrow> dump_state \<Rightarrow> dump_state" where
  "release env ctl err w =
     (case ctrl_TearDown env ctl w of
        (w1, ctl1, tdErr) \<Rightarrow> if err \<noteq> None then fst (ctrl_OnFailure env ctl1 w1) else w1)"

text \<open>The state of a prepared dump: controller, metadata, connection for metadata, connections of the writers.\<close>

record prepared =
  pr_ctl :: ConsistencyController
  pr_meta :: globalMetadata
  pr_metaConn :: nat
  pr_workers :: "nat list"

definition dump_prepare ::
  "db_env \<Rightarrow> (nat \<Rightarrow> Config \<Rightarrow> dump_state \<Rightarrow> dump_state \<times> Config \<times> error option) \<Rightarrow> string \<Rightarrow> dump_state
    \<Rightarrow> dump_state \<times> (error + prepared)" where
  "dump_prepare env prep startTime w =
     (let m = newGlobalMetadata (Snapshot (ds_conf w)); repeatableRead = needRepeatableRead (Consistency (ds_conf w))
      in case NewConsistencyController env w of
        (w1, Inl e) \<Rightarrow> (w1, Inl e)
      | (w1, Inr ctl) \<Rightarrow>
     (case ctrl_Setup env ctl w1 of
        (w2, ctl2, Some e) \<Rightarrow> (w2, Inl e)
      | (w2, ctl2, None) \<Rightarrow>
     (case createConnWithConsistency env repeatableRead w2 of
        (w3, Inl e) \<Rightarrow> (release env ctl2 (Some e) w3, Inl e)
      | (w3, Inr metaConn) \<Rightarrow>
          let m2 = recordGlobalMetaData (recordStartTime startTime (m\<lparr>gm_cdcSlot := conf_cdcSlotInfo (ds_conf w2)\<rparr>));
              failed = (\<lambda>w ctl e. (release env ctl (Some e) (call (CloseConn metaConn) w), Inl e))
          in case prep metaConn (ds_conf w3) w3 of
               (w4, conf4, Some e) \<Rightarrow> failed (w4\<lparr>ds_conf := conf4\<rparr>) ctl2 e
             | (w4, conf4, None) \<Rightarrow>
                 (case open_workers env (nat (Threads conf4)) (w4\<lparr>ds_conf := conf4\<rparr>) of
                    (w5, Inl e) \<Rightarrow> failed w5 ctl2 e
                  | (w5, Inr workers) \<Rightarrow>
                      (case (if TransactionalConsistency conf4 then ctrl_TearDown env ctl2 w5 else (w5, ctl2, None)) of
                         (w6, ctl3, Some e) \<Rightarrow> failed (close_conns workers w6) ctl3 e
                       | (w6, ctl3, None) \<Rightarrow>
                           (w6, Inr \<lparr>pr_ctl = ctl3,
                                     pr_meta = (if PosAfterConnect conf4 then recordGlobalMetaData m2 else m2),
                                     pr_metaConn = metaConn, pr_workers = workers\<rparr>))))))"

text \<open>
  From the production of the tasks on. \<open>perr\<close> is what stays in \<open>err\<close>: the error of \<open>dumpDatabases\<close>, which is
  not fatal when the context was cancelled. The error of the writers is a variable of its own.
\<close>

definition fatal :: "error option \<Rightarrow> bool" where
  "fatal perr \<longleftrightarrow> (case perr of None \<Rightarrow> False | Some e \<Rightarrow> \<not> is_canceled e)"

type_synonym 's writers =
  "Task list \<Rightarrow> globalMetadata \<times> dump_state \<times> 's \<Rightarrow> (globalMetadata \<times> dump_state \<times> 's) \<times> error option"

definition dump_run ::
  "db_env \<Rightarrow> 's ext_storage \<Rightarrow> 's writers \<Rightarrow> string
    \<Rightarrow> sender \<Rightarrow> error option \<Rightarrow> prepared \<Rightarrow> dump_state \<times> 's \<Rightarrow> (dump_state \<times> 's) \<times> error option" where
  "dump_run env S wait finishTime produced perr pr ws0 =
     (let deferred = (\<lambda>w. release env (pr_ctl pr) perr (call (CloseConn (pr_metaConn pr)) (close_conns (pr_workers pr) w)))
      in if fatal perr then ((deferred (fst ws0), snd ws0), perr)
         else case wait (sent produced) (pr_meta pr, call (CloseConn (pr_metaConn pr)) (fst ws0), snd ws0) of
                ((m, w, s), Some werr) \<Rightarrow> ((deferred w, s), Some werr)
              | ((m, w, s), None) \<Rightarrow>
                  ((deferred w, fst (writeGlobalMetaData S (recordFinishTime finishTime m) s)), None))"

definition Dump ::
  "db_env \<Rightarrow> 's ext_storage \<Rightarrow> (nat \<Rightarrow> Config \<Rightarrow> dump_state \<Rightarrow> dump_state \<times> Config \<times> error option)
    \<Rightarrow> (nat \<Rightarrow> bool) \<Rightarrow> error \<Rightarrow> catalog \<Rightarrow> column_types \<Rightarrow> show_schema
    \<Rightarrow> 's writers \<Rightarrow> string \<Rightarrow> string \<Rightarrow> dump_state \<times> 's
    \<Rightarrow> ((dump_state \<times> 's) \<times> error option) option" where
  "Dump env S prep cancelled ctxErr db coltypes run wait startTime finishTime ws =
     (case dump_prepare env prep startTime (fst ws) of
        (w, Inl e) \<Rightarrow> Some ((w, snd ws), Some e)
      | (w, Inr pr) \<Rightarrow>
          if SQL (ds_conf w) = ''''
          then map_option (\<lambda>(produced, perr). dump_run env S wait finishTime produced perr pr (w, snd ws))
                 (dumpDatabases cancelled ctxErr db coltypes run (ds_conf w) no_tasks)
          else Some (dump_run env S wait finishTime (dumpSQL cancelled (ds_conf w) no_tasks) None pr (w, snd ws)))"

section \<open>Histories grow\<close>

definition grows :: "dump_state \<Rightarrow> dump_state \<Rightarrow> bool" where
  "grows w w' \<longleftrightarrow> (\<exists>evs. ds_trace w' = ds_trace w @ evs)"

lemma grows_refl [simp]: "grows w w"
  by (simp add: grows_def)

lemma grows_trans [trans]: "grows a b \<Longrightarrow> grows b c \<Longrightarrow> grows a c"
  by (auto simp: grows_def)

lemma grows_mem: "grows w w' \<Longrightarrow> ev \<in> set (ds_trace w) \<Longrightarrow> ev \<in> set (ds_trace w')"
  by (auto simp: grows_def)

lemma grows_call [simp]: "grows w (call ev w)"
  by (simp add: grows_def call_def)

lemma grows_conf [simp]: "grows w (w\<lparr>ds_conf := conf\<rparr>)" "grows (w\<lparr>ds_conf := conf\<rparr>) w' = grows w w'"
  by (simp_all add: grows_def)

lemma grows_close [simp]: "grows w (close_conns cs w)"
  by (induction cs arbitrary: w) (auto simp: close_conns_def intro: grows_trans [OF grows_call])

lemma grows_createConn: "createConnWithConsistency env rr w = (w', r) \<Longrightarrow> grows w w'"
  by (auto simp: createConnWithConsistency_def world_defs grows_def split: option.splits if_splits)

lemma grows_workers: "open_workers env n w = (w', r) \<Longrightarrow> grows w w'"
proof (induction n arbitrary: w w' r)
  case (Suc n)
  obtain w1 r1 where one: "createConnWithConsistency env (needRepeatableRead (Consistency (ds_conf w))) w = (w1, r1)" by fastforce
  obtain w2 r2 where rest: "open_workers env n w1 = (w2, r2)" by fastforce
  from Suc(1) [OF rest] grows_createConn [OF one] Suc(2) one rest show ?case
    by (auto split: sum.splits intro: grows_trans)
qed simp

lemma grows_drop: "dropCDCSlot env dsn name w = (w', r) \<Longrightarrow> grows w w'"
  by (auto simp: dropCDCSlot_def openReplicationConn_def call_def grows_def Let_def split: option.splits prod.splits sum.splits if_splits)

lemma grows_OnFailure: "grows w (fst (ctrl_OnFailure env ctl w))"
proof (cases ctl)
  case (ConsistencySnapshot c)
  then show ?thesis
    by (auto simp: ctrl_OnFailure_def snapshot_OnFailure_def Let_def split: option.splits prod.splits
        intro: grows_trans [OF grows_call] dest!: grows_drop)
qed (simp add: ctrl_OnFailure_def)

lemma TearDown_spec:
  assumes "ctrl_TearDown env (ConsistencySnapshot c) w = (w', ctl', r)"
  shows "grows w w' \<and> (\<exists>c'. ctl' = ConsistencySnapshot c' \<and> cs_conn c' = None \<and> cs_cdcConn c' = None \<and> cs_cdcSlot c' = cs_cdcSlot c) \<and>
    ds_conf w' = ds_conf w"
  using assms by (auto simp: ctrl_TearDown_def snapshot_TearDown_def world_defs grows_def split: option.splits)

section \<open>The snapshot connection\<close>

text \<open>The calls made on a connection, but for the pings.\<close>

definition tx_calls :: "nat \<Rightarrow> db_event list \<Rightarrow> db_event list" where
  "tx_calls h t = filter (\<lambda>ev. ev \<noteq> Ping h) (conn_calls h t)"

lemma tx_calls_append [simp]: "tx_calls h (s @ t) = tx_calls h s @ tx_calls h t"
  by (simp add: tx_calls_def)

lemma tx_calls_Nil [simp]: "tx_calls h [] = []"
  by (simp add: tx_calls_def)

lemma tx_calls_Cons [simp]: "tx_calls h (ev # t) = (if ev_conn ev = Some h \<and> ev \<noteq> Ping h then ev # tx_calls h t else tx_calls h t)"
  by (simp add: tx_calls_def)

text \<open>From one state to the other, a connection opened before is at most pinged.\<close>

definition spares :: "nat \<Rightarrow> dump_state \<Rightarrow> dump_state \<Rightarrow> bool" where
  "spares h w w' \<longleftrightarrow> (h < length (ds_trace w) \<longrightarrow> (\<exists>evs. ds_trace w' = ds_trace w @ evs \<and> tx_calls h evs = []))"

lemma spares_refl [simp]: "spares h w w"
  by (simp add: spares_def)

lemma spares_trans [trans]: "spares h a b \<Longrightarrow> spares h b c \<Longrightarrow> spares h a c"
  by (fastforce simp: spares_def)

lemma spares_conf [simp]: "spares h w (w'\<lparr>ds_conf := conf\<rparr>) = spares h w w'" "spares h (w\<lparr>ds_conf := conf\<rparr>) w' = spares h w w'"
  by (simp_all add: spares_def)

lemma spares_call: "ev_conn ev \<noteq> Some h \<Longrightarrow> spares h w (call ev w)"
  by (simp add: spares_def call_def)

lemma spares_close: "h \<notin> set cs \<Longrightarrow> spares h w (close_conns cs w)"
proof (induction cs arbitrary: w)
  case (Cons c cs)
  then have "spares h w (call (CloseConn c) w)" by (simp add: spares_call)
  then show ?case using Cons spares_trans by (fastforce simp: close_conns_def)
qed (simp add: close_conns_def)

lemma spares_createConn: "createConnWithConsistency env rr w = (w', r) \<Longrightarrow> spares h w w'"
  by (auto simp: createConnWithConsistency_def world_defs spares_def split: option.splits if_splits)

lemma fresh_conn: "createConnWithConsistency env rr w = (w', Inr c) \<Longrightarrow> h < length (ds_trace w) \<Longrightarrow> c \<noteq> h"
  by (auto simp: createConnWithConsistency_def world_defs split: option.splits if_splits)

lemma spares_length: "spares h w w' \<Longrightarrow> h < length (ds_trace w) \<Longrightarrow> h < length (ds_trace w')"
  by (auto simp: spares_def)

lemma spares_workers:
  "open_workers env n w = (w', r) \<Longrightarrow> spares h w w' \<and> (\<forall>cs. r = Inr cs \<and> h < length (ds_trace w) \<longrightarrow> h \<notin> set cs)"
proof (induction n arbitrary: w w' r)
  case (Suc n)
  obtain w1 r1 where one: "createConnWithConsistency env (needRepeatableRead (Consistency (ds_conf w))) w = (w1, r1)" by fastforce
  obtain w2 r2 where rest: "open_workers env n w1 = (w2, r2)" by fastforce
  note s1 = spares_createConn [OF one, of h]
  have "h < length (ds_trace w) \<Longrightarrow> r1 = Inr c \<Longrightarrow> c \<noteq> h" for c using fresh_conn one by blast
  with Suc(1) [OF rest] s1 spares_length [OF s1] Suc(2) one rest show ?case
    by (auto split: sum.splits intro: spares_trans)
qed simp

lemma spares_drop: "dropCDCSlot env dsn name w = (w', r) \<Longrightarrow> spares h w w'"
  by (auto simp: dropCDCSlot_def openReplicationConn_def call_def spares_def Let_def split: option.splits prod.splits sum.splits if_splits)

lemma spares_OnFailure: "spares h w (fst (ctrl_OnFailure env ctl w))"
proof (cases ctl)
  case (ConsistencySnapshot c)
  have "spares h v (call (CloseRepl rc) v)" for rc v by (simp add: spares_call)
  then show ?thesis using ConsistencySnapshot spares_drop spares_trans
    by (fastforce simp: ctrl_OnFailure_def snapshot_OnFailure_def Let_def split: option.splits prod.splits)
qed (simp add: ctrl_OnFailure_def)

text \<open>The calls on the snapshot connection of a controller: the transaction is open, or it was ended once and the
  connection closed after that.\<close>

definition ended :: "nat \<Rightarrow> db_event list" where
  "ended h = [Exec h ''COMMIT'', CloseConn h]"

definition snapshot_at :: "nat \<Rightarrow> db_event list \<Rightarrow> ConsistencyController \<Rightarrow> dump_state \<Rightarrow> bool" where
  "snapshot_at h started ctl w \<longleftrightarrow> h < length (ds_trace w) \<and>
     (\<exists>c. ctl = ConsistencySnapshot c \<and>
       (cs_conn c = Some h \<and> tx_calls h (ds_trace w) = started \<or>
        cs_conn c = None \<and> tx_calls h (ds_trace w) = started @ ended h))"

lemma snapshot_at_spares: "snapshot_at h started ctl w \<Longrightarrow> spares h w w' \<Longrightarrow> snapshot_at h started ctl w'"
  by (auto simp: snapshot_at_def spares_def)

lemma TearDown_ends:
  assumes "snapshot_at h started ctl w" "ctrl_TearDown env ctl w = (w', ctl', r)"
  shows "snapshot_at h started ctl' w' \<and> tx_calls h (ds_trace w') = started @ ended h"
  using assms
  by (auto simp: snapshot_at_def ended_def ctrl_TearDown_def snapshot_TearDown_def world_defs split: option.splits)

lemma release_ends:
  assumes "snapshot_at h started ctl w"
  shows "tx_calls h (ds_trace (release env ctl err w)) = started @ ended h"
proof -
  obtain w1 ctl1 r where t: "ctrl_TearDown env ctl w = (w1, ctl1, r)" by (metis surj_pair)
  note e = TearDown_ends [OF assms t]
  have "spares h w1 (release env ctl err w)" using spares_OnFailure [of h w1 env ctl1] by (simp add: release_def t)
  then show ?thesis using e by (auto simp: spares_def snapshot_at_def)
qed

text \<open>After a successful set-up, a dump that cannot be prepared has ended the snapshot transaction, and a prepared
  one still holds it or has ended it.\<close>

lemma prepare_releases:
  assumes "NewConsistencyController env w = (w1, Inr ctl)" "ctrl_Setup env ctl w1 = (w2, ctl2, None)"
    and "snapshot_at h started ctl2 w2" "\<And>mc conf v. mc \<noteq> h \<Longrightarrow> spares h v (fst (prep mc conf v))"
    and "dump_prepare env prep t w = (w6, r)"
  shows "case r of Inl e \<Rightarrow> tx_calls h (ds_trace w6) = started @ ended h
    | Inr pr \<Rightarrow> snapshot_at h started (pr_ctl pr) w6 \<and> pr_metaConn pr \<noteq> h \<and> h \<notin> set (pr_workers pr)"
proof -
  have len: "h < length (ds_trace w2)" using assms(3) by (simp add: snapshot_at_def)
  obtain w3 r3 where mc: "createConnWithConsistency env (needRepeatableRead (Consistency (ds_conf w))) w2 = (w3, r3)" by fastforce
  note s3 = spares_createConn [OF mc, of h]
  note at3 = snapshot_at_spares [OF assms(3) s3]
  show ?thesis
  proof (cases r3)
    case (Inl e)
    then show ?thesis using assms(1,2,5) mc release_ends [OF at3] by (auto simp: dump_prepare_def Let_def)
  next
    case mcn: (Inr metaConn)
    have mch: "metaConn \<noteq> h" using fresh_conn [OF mc [unfolded mcn] len] .
    obtain w4 conf4 r4 where p: "prep metaConn (ds_conf w3) w3 = (w4, conf4, r4)" by (metis surj_pair)
    have at4: "snapshot_at h started ctl2 (w4\<lparr>ds_conf := conf4\<rparr>)"
      using snapshot_at_spares [OF at3] assms(4) [OF mch, of w3 "ds_conf w3"] p by simp
    obtain w5 r5 where o: "open_workers env (nat (Threads conf4)) (w4\<lparr>ds_conf := conf4\<rparr>) = (w5, r5)" by fastforce
    have s5: "spares h (w4\<lparr>ds_conf := conf4\<rparr>) w5" "\<And>cs. r5 = Inr cs \<Longrightarrow> h \<notin> set cs"
      using spares_workers [OF o, of h] at4 by (auto simp: snapshot_at_def)
    note at5 = snapshot_at_spares [OF at4 s5(1)]
    obtain w7 ctl7 r7 where t: "ctrl_TearDown env ctl2 w5 = (w7, ctl7, r7)" by (metis surj_pair)
    note at7 = conjunct1 [OF TearDown_ends [OF at5 t]]
    have fin: "tx_calls h (ds_trace (release env ctl' err (call (CloseConn metaConn) (close_conns cs v)))) = started @ ended h"
      if "snapshot_at h started ctl' v" "h \<notin> set cs" for ctl' err cs v
    proof (rule release_ends, rule snapshot_at_spares [OF that(1)])
      show "spares h v (call (CloseConn metaConn) (close_conns cs v))"
        by (rule spares_trans [OF spares_close [OF that(2)] spares_call]) (use mch in simp)
    qed
    from fin [OF at4, of "[]"] fin [OF at5, of "[]"] fin [OF at7] at5 at7 s5(2) mch
    show ?thesis using assms(1,2,5) mc mcn p o t
      by (auto simp: dump_prepare_def Let_def close_conns_def split: option.splits sum.splits if_splits)
  qed
qed

lemma run_releases:
  assumes "snapshot_at h started (pr_ctl pr) w" "pr_metaConn pr \<noteq> h" "h \<notin> set (pr_workers pr)"
    and "\<And>ts m v u. spares h v (fst (snd (fst (wait ts (m, v, u)))))"
    and "dump_run env S wait t produced perr pr (w, s) = ((w', s'), r)"
  shows "tx_calls h (ds_trace w') = started @ ended h"
proof -
  define fin where "fin v = release env (pr_ctl pr) perr (call (CloseConn (pr_metaConn pr)) (close_conns (pr_workers pr) v))" for v
  have close: "spares h v (call (CloseConn (pr_metaConn pr)) v)" for v using assms(2) by (simp add: spares_call)
  have "spares h v (call (CloseConn (pr_metaConn pr)) (close_conns (pr_workers pr) v))" for v
    using spares_close [OF assms(3)] close spares_trans by blast
  then have fin: "spares h w v \<Longrightarrow> tx_calls h (ds_trace (fin v)) = started @ ended h" for v
    unfolding fin_def by (intro release_ends snapshot_at_spares [OF assms(1)]) (rule spares_trans)
  obtain m8 w8 s8 werr where wt: "wait (sent produced) (pr_meta pr, call (CloseConn (pr_metaConn pr)) w, s) = ((m8, w8, s8), werr)"
    by (metis surj_pair)
  have "spares h w w8" using spares_trans [OF close assms(4) [of _ "sent produced" "pr_meta pr" s]] wt by (metis fst_conv snd_conv)
  with fin have "tx_calls h (ds_trace (fin w8)) = started @ ended h" "tx_calls h (ds_trace (fin w)) = started @ ended h" by simp_all
  then show ?thesis using assms(5) wt unfolding dump_run_def Let_def fin_def by (auto split: if_splits option.splits)
qed

section \<open>Properties of the dump\<close>


text \<open>C17: What happens to the replication slot is decided by the producer, not by the writers. Once the tasks flow,
  \<open>Dump\<close> returns the error of the writers; but if the producer ended without an error, no replication command is
  issued any more, so a slot made for the dump stays behind although the writers failed and clean-up on failure
  is on. If the producer was cancelled and the writers report nothing, \<open>Dump\<close> returns success, and yet drops
  the slot.\<close>

theorem slot_cleanup_follows_producer:
  assumes "wait (sent produced) (pr_meta pr, call (CloseConn (pr_metaConn pr)) w, s) = ((m8, w8, s8), werr)" "\<not> fatal perr"
    and "dump_run env S wait t produced perr pr (w, s) = ((w', s'), r)" "pr_ctl pr = ConsistencySnapshot c"
  shows "r = werr \<and> (\<exists>evs. ds_trace w' = ds_trace w8 @ evs \<and>
    (perr = None \<longrightarrow> (\<forall>dsn ps rc q. OpenRepl dsn ps \<notin> set evs \<and> ReplExec rc q \<notin> set evs)) \<and>
    (\<forall>slot. perr \<noteq> None \<and> cs_cdcSlot c = Some slot \<and> CDCCleanupOnFailure (ds_conf w8) \<and>
       ValidateCDCName ''--cdc-slot'' (SlotName slot) = None \<and> env_ParseConfig env (GetDSN (ds_conf w8) '''') = None \<and>
       (\<forall>h. env_Connect env h = None) \<longrightarrow> (\<exists>rc. ReplExec rc (dropSlotStmt (SlotName slot)) \<in> set evs)))"
proof -
  have r: "r = werr" "w' = release env (ConsistencySnapshot c) perr (call (CloseConn (pr_metaConn pr)) (close_conns (pr_workers pr) w8))"
    using assms by (auto simp: dump_run_def Let_def split: option.splits)
  have closes: "ds_trace (close_conns cs v) = ds_trace v @ map CloseConn cs \<and> ds_conf (close_conns cs v) = ds_conf v" for cs v
    by (induction cs arbitrary: v) (auto simp: close_conns_def call_def)
  define v where "v = call (CloseConn (pr_metaConn pr)) (close_conns (pr_workers pr) w8)"
  have v: "ds_trace v = ds_trace w8 @ map CloseConn (pr_workers pr @ [pr_metaConn pr])" "ds_conf v = ds_conf w8"
    by (simp_all add: v_def call_def closes)
  obtain v1 ctl1 tdr where td: "ctrl_TearDown env (ConsistencySnapshot c) v = (v1, ctl1, tdr)" by (metis surj_pair)
  have v1: "\<exists>evs. ds_trace v1 = ds_trace v @ evs \<and> (\<forall>dsn ps rc q. OpenRepl dsn ps \<notin> set evs \<and> ReplExec rc q \<notin> set evs)"
    using td by (auto simp: ctrl_TearDown_def snapshot_TearDown_def world_defs split: option.splits)
  then obtain evs where evs: "ds_trace v1 = ds_trace v @ evs" "\<forall>dsn ps rc q. OpenRepl dsn ps \<notin> set evs \<and> ReplExec rc q \<notin> set evs" by blast
  have w': "w' = (if perr = None then v1 else fst (ctrl_OnFailure env ctl1 v1))" using r(2) td by (simp add: release_def v_def)
  show ?thesis
  proof (cases perr)
    case None
    then show ?thesis using r w' evs v by (auto intro!: exI [of _ "map CloseConn (pr_workers pr @ [pr_metaConn pr]) @ evs"])
  next
    case (Some e)
    from TearDown_spec [OF td] v(2) obtain c1 where c1: "ctl1 = ConsistencySnapshot c1" "cs_cdcConn c1 = None" "cs_cdcSlot c1 = cs_cdcSlot c"
      "ds_conf v1 = ds_conf w8" by auto
    obtain more where more: "ds_trace w' = ds_trace v1 @ more" using grows_OnFailure [of v1 env ctl1] w' Some by (auto simp: grows_def)
    have "\<exists>rc. ReplExec rc (dropSlotStmt (SlotName slot)) \<in> set more"
      if "cs_cdcSlot c = Some slot" "CDCCleanupOnFailure (ds_conf w8)" "ValidateCDCName ''--cdc-slot'' (SlotName slot) = None"
        "env_ParseConfig env (GetDSN (ds_conf w8) '''') = None" "\<forall>h. env_Connect env h = None" for slot
      using more w' Some c1 that
      by (auto simp: ctrl_OnFailure_def snapshot_OnFailure_def dropCDCSlot_def openReplicationConn_def call_def Let_def split: sum.splits if_splits)
    then show ?thesis using r(1) Some evs(1) v(1) more
      by (intro conjI exI [of _ "map CloseConn (pr_workers pr @ [pr_metaConn pr]) @ evs @ more"]) auto
  qed
qed

lemma writeGlobalMetaData_spec:
  assumes "storage_laws S contents" "never_fails S"
  shows "contents (fst (writeGlobalMetaData S m s)) metadataPath = Some (gm_buffer m)"
proof -
  obtain s1 r1 where c: "sto_create S NoCompression metadataPath s = (s1, r1)" by fastforce
  obtain s2 r2 where w: "sto_write S metadataPath (gm_buffer m) s1 = (s2, r2)" by fastforce
  obtain s3 r3 where e: "sto_close S metadataPath s2 = (s3, r3)" by fastforce
  have n: "r1 = None" "r2 = None" "r3 = None" using never_fails_snd [OF assms(2)] c w e by blast+
  have "contents s3 metadataPath = Some (gm_buffer m)"
    using storage_create [OF assms(1) c [unfolded n]] storage_write [OF assms(1) w [unfolded n]]
      storage_close [OF assms(1) e [unfolded n]] by simp
  then show ?thesis using c w e n by (simp add: writeGlobalMetaData_def buildFileWriter_def write_str_def)
qed

text \<open>Metadata to which the slot was added \<open>k\<close> more times, none unless positions are recorded after connecting.\<close>

definition meta_extended :: "Config \<Rightarrow> globalMetadata \<Rightarrow> globalMetadata \<Rightarrow> bool" where
  "meta_extended conf m m' \<longleftrightarrow> (\<exists>k. m' = (recordGlobalMetaData ^^ k) m \<and> (PosAfterConnect conf \<or> k = 0))"

lemma meta_extended_refl [simp]: "meta_extended conf m m"
  unfolding meta_extended_def by (rule exI [of _ 0]) simp

lemma meta_extended_record: "meta_extended conf m m' \<Longrightarrow> PosAfterConnect conf \<Longrightarrow> meta_extended conf m (recordGlobalMetaData m')"
  unfolding meta_extended_def by (metis comp_apply funpow.simps(2))

lemma records_buffer:
  "gm_buffer ((recordGlobalMetaData ^^ k) m) = gm_buffer m @ concat (replicate k (slot_text (gm_cdcSlot m))) \<and>
   gm_afterConnBuffer ((recordGlobalMetaData ^^ k) m) = gm_afterConnBuffer m \<and> gm_cdcSlot ((recordGlobalMetaData ^^ k) m) = gm_cdcSlot m"
proof (induction k)
  case (Suc k)
  have "concat (replicate (Suc k) t) = concat (replicate k t) @ t" for t :: string by (induction k) simp_all
  then show ?case using Suc by (simp add: recordGlobalMetaData_def del: replicate_Suc)
qed simp

lemma createConn_conf: "createConnWithConsistency env rr w = (w', r) \<Longrightarrow> ds_conf w' = ds_conf w"
  by (auto simp: createConnWithConsistency_def world_defs split: option.splits if_splits)

lemma workers_conf: "open_workers env n w = (w', r) \<Longrightarrow> ds_conf w' = ds_conf w"
  by (induction n arbitrary: w w' r) (fastforce dest: createConn_conf split: prod.splits sum.splits)+

lemma Setup_pos:
  assumes "ctrl_Setup env ctl w = (w', ctl', r)"
  shows "PosAfterConnect (ds_conf w') = PosAfterConnect (ds_conf w)"
proof (cases ctl)
  case (ConsistencySnapshot c)
  obtain w1 c1 r1 where s: "setup_slot env c w = (w1, c1, r1)" by (metis surj_pair)
  have "PosAfterConnect (ds_conf w1) = PosAfterConnect (ds_conf w)"
    using s createCDCSlot_trace by (fastforce simp: setup_slot_def Let_def split: if_splits prod.splits sum.splits)
  then show ?thesis using assms s ConsistencySnapshot
    by (auto simp: ctrl_Setup_def snapshot_Setup_def world_defs split: option.splits prod.splits sum.splits if_splits)
qed (use assms in \<open>auto simp: ctrl_Setup_def\<close>)

lemma prepare_meta:
  assumes "dump_prepare env prep t w = (w6, Inr pr)" "\<And>mc conf v. PosAfterConnect (fst (snd (prep mc conf v))) = PosAfterConnect conf"
  shows "\<exists>w1 ctl w2 ctl2. NewConsistencyController env w = (w1, Inr ctl) \<and> ctrl_Setup env ctl w1 = (w2, ctl2, None) \<and>
    pr_meta pr = (recordGlobalMetaData ^^ (if PosAfterConnect (ds_conf w) then 2 else 1))
      (recordStartTime t ((newGlobalMetadata (Snapshot (ds_conf w)))\<lparr>gm_cdcSlot := conf_cdcSlotInfo (ds_conf w2)\<rparr>)) \<and>
    PosAfterConnect (ds_conf w6) = PosAfterConnect (ds_conf w)"
proof -
  from assms(1) obtain w1 ctl w2 ctl2 w3 mc w4 conf4 w5 ws ctl3 where
    s: "NewConsistencyController env w = (w1, Inr ctl)" "ctrl_Setup env ctl w1 = (w2, ctl2, None)"
    and c: "createConnWithConsistency env (needRepeatableRead (Consistency (ds_conf w))) w2 = (w3, Inr mc)"
    and p: "prep mc (ds_conf w3) w3 = (w4, conf4, None)"
    and o: "open_workers env (nat (Threads conf4)) (w4\<lparr>ds_conf := conf4\<rparr>) = (w5, Inr ws)"
    and t: "(if TransactionalConsistency conf4 then ctrl_TearDown env ctl2 w5 else (w5, ctl2, None)) = (w6, ctl3, None)"
    and m: "pr_meta pr = (let m2 = recordGlobalMetaData (recordStartTime t ((newGlobalMetadata (Snapshot (ds_conf w)))\<lparr>gm_cdcSlot := conf_cdcSlotInfo (ds_conf w2)\<rparr>))
      in if PosAfterConnect conf4 then recordGlobalMetaData m2 else m2)"
    by (auto simp: dump_prepare_def Let_def split: prod.splits sum.splits option.splits if_splits)
  have "ds_conf w1 = ds_conf w"
    using s(1) by (auto simp: NewConsistencyController_def world_defs split: option.splits if_splits)
  then have "PosAfterConnect (ds_conf w3) = PosAfterConnect (ds_conf w)"
    using Setup_pos [OF s(2)] createConn_conf [OF c] by simp
  then have pos: "PosAfterConnect conf4 = PosAfterConnect (ds_conf w)" using assms(2) [of mc "ds_conf w3" w3] p by simp
  have "ds_conf w6 = ds_conf w5" using t TearDown_spec by (cases ctl2) (auto simp: ctrl_TearDown_def split: if_splits)
  then have "ds_conf w6 = conf4" using workers_conf [OF o] by simp
  then show ?thesis using s m pos by (auto simp: Let_def numeral_2_eq_2)
qed


section \<open>What a writer does with the metadata and the snapshot connection\<close>

text \<open>A property of a writer's connection and world that is kept when the connection is rebuilt is kept by a whole run.\<close>

lemma chunk_try_inv:
  assumes "\<And>c x x' c' e. Q c x \<Longrightarrow> rebuild c True x = (x', c', e) \<Longrightarrow> Q c' x'"
    and "case st of None \<Rightarrow> True | Some (n, meta, td, w) \<Rightarrow> Q (wr_conn w) (wr_world w)"
  shows "case fst (chunk_try uni tmpl S ans env rebuild chunk st) of None \<Rightarrow> True | Some (n, meta, td, w) \<Rightarrow> Q (wr_conn w) (wr_world w)"
proof (cases st)
  case (Some a)
  obtain n meta td w where st: "st = Some (n, meta, td, w)" using Some by (cases a) auto
  have at: "wr_conn w'' = wr_conn w' \<and> wr_world w'' = wr_world w'"
    if "write_attempt uni tmpl S ans env chunk (n', meta, td, w') = Some ((n'', meta'', td'', w''), err)" for n' w' n'' meta'' td'' w'' err
    using that by (auto simp: write_attempt_def split: sum.splits prod.splits option.splits)
  obtain x c e where r: "rebuild (wr_conn w) True (wr_world w) = (x, c, e)" by (metis surj_pair)
  have "Q (wr_conn w) (wr_world w)" "Q c x" using assms(2) st assms(1) [OF _ r] by auto
  then show ?thesis using st r
    by (cases e) (auto simp: chunk_try_def Let_def split: prod.split option.split dest!: at)
qed (simp add: chunk_try_def)

lemma WriteTableData_inv:
  assumes "\<And>c x x' c' e. Q c x \<Longrightarrow> rebuild c True x = (x', c', e) \<Longrightarrow> Q c' x'"
    and "WriteTableData uni tmpl S ans env rebuild cancelled meta ir chunk w = Some (w', errs)" "Q (wr_conn w) (wr_world w)"
  shows "Q (wr_conn w') (wr_world w')"
proof -
  let ?P = "\<lambda>st. case st of None \<Rightarrow> True | Some (n, meta, td, w) \<Rightarrow> Q (wr_conn w) (wr_world w)"
  have "?P (fst (WithRetry cancelled (chunk_try uni tmpl S ans env rebuild chunk) b [] (Some (0, meta, td_new ir, w))))" for b
    by (rule WithRetry_inv) (use assms(3) chunk_try_inv [of Q, OF assms(1)] in auto)
  note this [of "newRebuildConnBackOffer (canRebuildConn (Consistency (wr_conf w)) (TransactionalConsistency (wr_conf w)))"]
  then show ?thesis using assms(2) by (auto simp: WriteTableData_def split: prod.splits option.splits)
qed

lemma Writer_run_inv:
  assumes "\<And>c x x' c' e. Q c x \<Longrightarrow> rebuild c True x = (x', c', e) \<Longrightarrow> Q c' x'"
    and "Writer_run uni tmpl S ans env rebuild cancelled es w = Some (w', errs)" "Q (wr_conn w) (wr_world w)"
  shows "Q (wr_conn w') (wr_world w')"
  using assms(2,3)
proof (induction es arbitrary: w)
  case (Cons ev es)
  show ?case
  proof (cases ev)
    case (Received task)
    let ?w = "w\<lparr>wr_receivedTaskCount := wr_receivedTaskCount w + 1\<rparr>"
    obtain w1 errs1 where h: "handleTask uni tmpl S ans env rebuild (cancelled (wr_receivedTaskCount w)) task ?w = Some (w1, errs1)"
      using Cons(2) Received by (auto split: option.splits)
    have "Q (wr_conn v') (wr_world v')"
      if "WriteTableData uni tmpl S ans env rebuild cncl meta ir chunk v = Some (v', es')" "Q (wr_conn v) (wr_world v)"
      for cncl meta ir chunk v v' es'
      by (rule WriteTableData_inv [where Q = Q, OF _ that]) (rule assms(1))
    then have "Q (wr_conn w1) (wr_world w1)"
      using h Cons(3) by (cases task) (fastforce simp: on_store_def split: prod.splits if_splits)+
    then show ?thesis using Cons(1) [of "w1\<lparr>wr_finishedTasks := wr_finishedTasks w1 @ [task]\<rparr>"] Cons(2) h Received
      by (auto split: if_splits)
  qed (use Cons in auto)
qed simp

lemma rebuildConn_spec:
  assumes "rebuildConn env rr c u (ctl, m, v) = (x', c', e)"
  shows "\<exists>m' v'. x' = (ctl, m', v') \<and> (m' = m \<or> PosAfterConnect (ds_conf v) \<and> m' = recordGlobalMetaData m) \<and>
    ds_conf v' = ds_conf v \<and> (\<forall>h. c \<noteq> h \<and> h < length (ds_trace v) \<longrightarrow> c' \<noteq> h \<and> spares h v v')"
proof -
  obtain v1 p where p: "ctrl_Ping env ctl v = (v1, p)" by fastforce
  have v1: "ds_conf v1 = ds_conf v" "spares h v v1" for h
    using p by (cases ctl; auto simp: snapshot_Ping_def call_def spares_def Let_def split: option.splits)+
  define v2 where "v2 = call (CloseConn c) v1"
  obtain v3 r where r: "createConnWithConsistency env rr v2 = (v3, r)" by fastforce
  have v3: "ds_conf v3 = ds_conf v"
    using r v1 by (auto simp: v2_def createConnWithConsistency_def world_defs split: option.splits if_splits)
  have sp: "spares h v v3" if "c \<noteq> h" for h
    using spares_trans [OF spares_trans [OF v1(2) spares_call [of "CloseConn c" h v1]]] spares_createConn [OF r] that by (simp add: v2_def)
  have "c'' \<noteq> h" if "r = Inr c''" "c \<noteq> h" "h < length (ds_trace v)" for c'' h
    using fresh_conn [OF r [unfolded that(1)]] spares_length [OF v1(2) that(3)] by (auto simp: v2_def call_def)
  then show ?thesis using assms p r v1 v3 sp
    by (auto simp: rebuildConn_def rebuildMetaConn_def v2_def [symmetric] split: option.splits sum.splits)
qed

text \<open>A writer of the dump keeps what is assumed of \<open>wait\<close> above: it adds the slot to the metadata only when positions
  are recorded after connecting, and it pings the snapshot connection and calls nothing else on it.\<close>

lemma writer_spares_snapshot:
  assumes "Writer_run uni tmpl S ans env (rebuildConn dbenv rr) cancelled es w = Some (w', errs)"
    and "wr_world w = (ctl, m, v)" "wr_conn w \<noteq> h" "h < length (ds_trace v)"
  shows "\<exists>m' v'. wr_world w' = (ctl, m', v') \<and> meta_extended (ds_conf v) m m' \<and> spares h v v'"
proof -
  let ?Q = "\<lambda>c x. c \<noteq> h \<and> (\<exists>m' v'. x = (ctl, m', v') \<and> meta_extended (ds_conf v) m m' \<and> spares h v v' \<and> ds_conf v' = ds_conf v)"
  have "?Q (wr_conn w') (wr_world w')"
  proof (rule Writer_run_inv [OF _ assms(1)])
    fix c x x' c' e assume Q: "?Q c x" and r: "rebuildConn dbenv rr c True x = (x', c', e)"
    from Q obtain m1 v1 where x: "x = (ctl, m1, v1)" "meta_extended (ds_conf v) m m1" "spares h v v1" "ds_conf v1 = ds_conf v" by blast
    show "?Q c' x'" using rebuildConn_spec [OF r [unfolded x(1)]] Q x meta_extended_record spares_trans spares_length [OF x(3) assms(4)]
      by metis
  qed (use assms in auto)
  then show ?thesis by blast
qed

text \<open>Attempts that fail, whatever the state.\<close>

lemma WithRetry_fails:
  assumes "P s" "\<And>s. P s \<Longrightarrow> P (fst (f s)) \<and> snd (f s) \<noteq> None" "errs \<noteq> []"
  shows "P (fst (WithRetry cancelled f b errs s)) \<and> (\<exists>es. fst (snd (snd (WithRetry cancelled f b errs s))) = errs @ es)"
  using assms
proof (induction cancelled f b errs s rule: WithRetry.induct)
  case (1 cancelled f b errs s)
  obtain s' e where f: "f s = (s', Some e)" "P s'" using 1(2,3) by (metis not_None_eq prod.collapse)
  obtain b' wait where nb: "NextBackoff b = (b', wait)" by fastforce
  show ?case
  proof (cases "Attempt b > 0 \<and> \<not> cancelled (length (errs @ [e]))")
    case True
    have "P (fst (WithRetry cancelled f b' (errs @ [e]) s')) \<and>
        (\<exists>es. fst (snd (snd (WithRetry cancelled f b' (errs @ [e]) s'))) = (errs @ [e]) @ es)"
      by (rule 1(1)) (use True f nb 1(3) in auto)
    then show ?thesis using True f nb by (subst (1 2) WithRetry.simps) (auto simp: Let_def split: prod.splits)
  next
    case False
    then show ?thesis using f nb 1(2) by (subst (1 2) WithRetry.simps) (auto simp: Let_def)
  qed
qed

text \<open>C18: Chunks are not retried once the snapshot connection was given up early, as it is with transactional
  consistency. If the first attempt at a chunk fails then, the chunk fails with that error: every further attempt
  asks for a new connection, and that request fails because the controller's connection is closed.\<close>

theorem no_retry_after_teardown:
  assumes "wr_world w = (ConsistencySnapshot c, m, ds)" "cs_conn c = None"
    and "write_attempt uni tmpl S ans env chunk (1, meta, td_new ir, w) = Some ((n1, meta1, td1, w1), Some e)"
    and "canRebuildConn (Consistency (wr_conf w)) (TransactionalConsistency (wr_conf w))"
  shows "\<exists>w' errs. WriteTableData uni tmpl S ans env (rebuildConn dbenv rr) cancelled meta ir chunk w = Some (w', e # errs)"
proof -
  let ?f = "chunk_try uni tmpl S ans env (rebuildConn dbenv rr) chunk"
  let ?P = "\<lambda>st. case st of None \<Rightarrow> False | Some (n, meta, td, w) \<Rightarrow> n \<ge> 1 \<and> (\<exists>m ds. wr_world w = (ConsistencySnapshot c, m, ds))"
  have w1: "n1 = 1" "wr_world w1 = wr_world w"
    using assms(3) by (auto simp: write_attempt_def split: sum.splits option.splits prod.splits if_splits)
  obtain st1 where first: "?f (Some (0, meta, td_new ir, w)) = (st1, Some e)" and P: "?P st1"
    using assms(1,3) w1 by (auto simp: chunk_try_def Let_def)
  have step: "?P (fst (?f s)) \<and> snd (?f s) \<noteq> None" if "?P s" for s
    using that assms(2) by (auto simp: chunk_try_def rebuildConn_def snapshot_Ping_def Let_def split: option.splits)
  obtain b' wt where nb: "NextBackoff (newRebuildConnBackOffer True) = (b', wt)" by fastforce
  have a: "Attempt (newRebuildConnBackOffer True) > 0" by (simp add: newRebuildConnBackOffer_def dumpChunkRetryTime_def)
  have "?P (fst (WithRetry cancelled ?f (newRebuildConnBackOffer True) [] (Some (0, meta, td_new ir, w)))) \<and>
    (\<exists>es. fst (snd (snd (WithRetry cancelled ?f (newRebuildConnBackOffer True) [] (Some (0, meta, td_new ir, w))))) = e # es)"
    using WithRetry_fails [of ?P st1 ?f "[e]" cancelled b', OF P step] P a nb first
    by (subst (1 2) WithRetry.simps) (auto simp: Let_def split: prod.splits)
  then show ?thesis using assms(4) unfolding WriteTableData_def by (auto split: prod.splits option.splits)
qed

section \<open>Witnesses\<close>

definition one_query :: Config where
  "one_query = DefaultConfig\<lparr>Consistency := ConsistencyTypeSnapshot, SQL := ''SELECT 1'', Threads := 2,
     CDCSlot := ''slot'', CDCPlugin := ''pgoutput'', PosAfterConnect := True\<rparr>"

text \<open>A dump of one query whose writers rebuild one connection and end with the given error.\<close>

definition rebuilding :: "error option \<Rightarrow> (string \<rightharpoonup> bytes) writers" where
  "rebuilding werr ts x =
     (case x of (m, v, u) \<Rightarrow>
        (case rebuildMetaConn (good_env ''tok'') True 7 True (ConsistencyNone, m, v) of ((ctl, m', v'), c, r) \<Rightarrow> ((m', v', u), werr)))"

definition query_dump :: "error option \<Rightarrow> ((dump_state \<times> (string \<rightharpoonup> bytes)) \<times> error option) option" where
  "query_dump werr = Dump (good_env ''tok'') mem_storage (\<lambda>mc conf v. (v, conf, None)) never (External '''') view_catalog
     (\<lambda>_. Inr None) view_ddl (rebuilding werr) ''t0'' ''t1'' (fresh_state one_query, Map.empty)"

lemma rebuilding_ok:
  "spares 0 v (fst (snd (fst (rebuilding werr ts (m, v, u)))))"
  "snd (snd (fst (rebuilding werr ts (m, v, u)))) = u"
  "meta_extended (ds_conf v) m (fst (fst (rebuilding werr ts (m, v, u))))"
proof -
  obtain v3 r where r: "createConnWithConsistency (good_env ''tok'') True (call (CloseConn 7) v) = (v3, r)" by fastforce
  have "spares 0 v v3" using spares_trans [OF spares_call spares_createConn [OF r]] by simp
  moreover have "ds_conf v3 = ds_conf v" using createConn_conf [OF r] by (simp add: call_def)
  moreover have "PosAfterConnect conf \<Longrightarrow> meta_extended conf m (recordGlobalMetaData m)" for conf
    by (simp add: meta_extended_record)
  ultimately show "spares 0 v (fst (snd (fst (rebuilding werr ts (m, v, u)))))"
    "snd (snd (fst (rebuilding werr ts (m, v, u)))) = u"
    "meta_extended (ds_conf v) m (fst (fst (rebuilding werr ts (m, v, u))))"
    using r by (cases r; simp add: rebuilding_def rebuildMetaConn_def)+
qed

abbreviation first_ctrl :: snapshot_ctrl where
  "first_ctrl \<equiv> \<lparr>cs_conn = Some 0, cs_snapshotName = '''', cs_cdcConn = None, cs_cdcSlot = None\<rparr>"

lemma good_calls [simp]:
  "env_Conn (good_env t) h = None" "env_Exec (good_env t) h = None" "env_ParseConfig (good_env t) dsn = None"
  "env_Connect (good_env t) h = None" "env_ReplExec (good_env t) h = Inr [[[''slot'', ''0/16B'', t, ''pgoutput'']]]"
  by (simp_all add: good_env_def)

lemma slot_names [simp]: "ValidateCDCName ''--cdc-slot'' ''slot'' = None" "ValidateCDCName ''--cdc-plugin'' ''pgoutput'' = None"
  by code_simp+

lemma query_dump_new:
  "NewConsistencyController (good_env ''tok'') (fresh_state one_query) =
     (call OpenConn (fresh_state one_query), Inr (ConsistencySnapshot first_ctrl))"
  by (simp add: NewConsistencyController_def db_Conn_def fresh_state_def one_query_def call_def)

lemma query_dump_setup:
  "\<exists>w2 c2 slot. snapshot_Setup (good_env ''tok'') first_ctrl (call OpenConn (fresh_state one_query)) = (w2, c2, None) \<and>
     ds_conf w2 = one_query\<lparr>conf_cdcSlotInfo := Some slot, Snapshot := ''tok''\<rparr> \<and> SlotName slot = ''slot'' \<and>
     pgSnapshotToken w2 = ''tok''"
proof -
  let ?w = "call OpenConn (fresh_state one_query)"
  have conf: "ds_conf ?w = one_query" "CDCSlot one_query = ''slot''" "Snapshot one_query = ''''" "CDCPlugin one_query = ''pgoutput''"
    by (simp_all add: one_query_def fresh_state_def call_def DefaultConfig_def)
  obtain w1 c1 slot where s: "setup_slot (good_env ''tok'') first_ctrl ?w = (w1, c1, None)" "cs_conn c1 = Some 0"
    "ds_conf w1 = one_query\<lparr>conf_cdcSlotInfo := Some slot, Snapshot := SnapshotName slot\<rparr>" "SlotName slot = ''slot''" "SnapshotName slot = ''tok''"
    by (simp add: setup_slot_def createCDCSlot_def openReplicationConn_def conf Let_def)
  then show ?thesis
    by (simp add: snapshot_Setup_def world_defs) (rule exI [of _ slot], rule conjI [OF refl], assumption)
qed

lemma query_dump_runs: "map_option snd (query_dump werr) = Some werr"
proof -
  obtain w2 c2 slot where s: "snapshot_Setup (good_env ''tok'') first_ctrl (call OpenConn (fresh_state one_query)) = (w2, c2, None)"
    and c: "ds_conf w2 = one_query\<lparr>conf_cdcSlotInfo := Some slot, Snapshot := ''tok''\<rparr>" and t: "pgSnapshotToken w2 = ''tok''"
    using query_dump_setup by blast
  have conn: "createConnWithConsistency (good_env ''tok'') rr w = (w', r) \<Longrightarrow> \<exists>c. r = Inr c" for rr w w' r
    by (auto simp: createConnWithConsistency_def world_defs split: if_splits)
  have workers: "open_workers (good_env ''tok'') n w = (w', r) \<Longrightarrow> \<exists>cs. r = Inr cs" for n w w' r
    by (induction n arbitrary: w w' r) (fastforce dest: conn split: prod.splits sum.splits)+
  have q: "SQL one_query \<noteq> ''''" by (simp add: one_query_def)
  obtain w3 mc where mc: "createConnWithConsistency (good_env ''tok'') (needRepeatableRead (Consistency (ds_conf (fresh_state one_query)))) w2 = (w3, Inr mc)"
    using conn by (metis surj_pair)
  have c3: "ds_conf w3 = ds_conf w2" using createConn_conf [OF mc] .
  obtain w5 ws where ws: "open_workers (good_env ''tok'') (nat (Threads (ds_conf w3))) w3 = (w5, Inr ws)"
    using workers by (metis surj_pair)
  obtain w6 ctl3 where td: "ctrl_TearDown (good_env ''tok'') (ConsistencySnapshot c2) w5 = (w6, ctl3, None)"
    by (cases "cs_conn c2") (auto simp: ctrl_TearDown_def snapshot_TearDown_def ExecContext_def Let_def)
  define w7 where "w7 = (if TransactionalConsistency one_query then w6 else w5)"
  have "\<exists>pr. dump_prepare (good_env ''tok'') (\<lambda>mc conf v. (v, conf, None)) ''t0'' (fresh_state one_query) = (w7, Inr pr)"
    using s c c3 mc ws td by (simp add: dump_prepare_def query_dump_new ctrl_Setup_def w7_def Let_def)
  moreover have "SQL (ds_conf w7) \<noteq> ''''" using workers_conf [OF ws] TearDown_spec [OF td] c c3 q by (simp add: w7_def)
  moreover have "snd (rebuilding werr ts x) = werr" for ts x by (simp add: rebuilding_def split: prod.splits)
  ultimately show ?thesis
    by (auto simp: query_dump_def Dump_def dump_run_def fatal_def Let_def split: prod.splits option.splits) (metis snd_conv)+
qed



text \<open>A dump with a slot, whose snapshot connection is closed already.\<close>

definition slot_conf :: Config where
  "slot_conf = DefaultConfig\<lparr>Consistency := ConsistencyTypeSnapshot, CDCSlot := ''slot'', CDCCleanupOnFailure := True\<rparr>"

definition slot_ctrl :: snapshot_ctrl where
  "slot_ctrl = \<lparr>cs_conn = None, cs_snapshotName = ''tok'', cs_cdcConn = None,
     cs_cdcSlot = Some \<lparr>SlotName = ''slot'', ConsistentPoint = ''0/16B'', SnapshotName = ''tok'', OutputPlugin = ''pgoutput''\<rparr>\<rparr>"

definition slot_dump :: prepared where
  "slot_dump = \<lparr>pr_ctl = ConsistencySnapshot slot_ctrl, pr_meta = newGlobalMetadata ''tok'', pr_metaConn = 0, pr_workers = [1]\<rparr>"

abbreviation slot_run :: "error option \<Rightarrow> error option \<Rightarrow> (dump_state \<times> (string \<rightharpoonup> bytes)) \<times> error option" where
  "slot_run perr werr \<equiv> dump_run (good_env ''tok'') mem_storage (\<lambda>ts v. (v, werr)) ''t1'' no_tasks perr slot_dump
     (fresh_state slot_conf, Map.empty)"

theorem slot_cleanup_follows_producer_witness:
  "(\<exists>w' s'. slot_run None (Some (External ''disk full'')) = ((w', s'), Some (External ''disk full'')) \<and>
      (\<forall>rc q. ReplExec rc q \<notin> set (ds_trace w'))) \<and>
   (\<exists>w' s' rc. slot_run (Some (External ''context canceled'')) None = ((w', s'), None) \<and>
      ReplExec rc (dropSlotStmt ''slot'') \<in> set (ds_trace w'))"
proof -
  have ctl: "pr_ctl slot_dump = ConsistencySnapshot slot_ctrl" by (simp add: slot_dump_def)
  have w8: "ds_trace (call (CloseConn (pr_metaConn slot_dump)) (fresh_state slot_conf)) = [CloseConn 0]"
    "CDCCleanupOnFailure (ds_conf (call (CloseConn (pr_metaConn slot_dump)) (fresh_state slot_conf)))"
    by (simp_all add: call_def fresh_state_def slot_dump_def slot_conf_def)
  have ok: "\<not> fatal None" "\<not> fatal (Some (External ''context canceled''))" "ValidateCDCName ''--cdc-slot'' ''slot'' = None"
    by code_simp+
  obtain w1 s1 r1 where r1: "slot_run None (Some (External ''disk full'')) = ((w1, s1), r1)" by (metis surj_pair)
  obtain w2 s2 r2 where r2: "slot_run (Some (External ''context canceled'')) None = ((w2, s2), r2)" by (metis surj_pair)
  have "r1 = Some (External ''disk full'')" "ReplExec rc q \<notin> set (ds_trace w1)" for rc q
    using slot_cleanup_follows_producer [OF refl ok(1) r1 ctl] w8(1) by auto
  moreover have "r2 = None" "\<exists>rc. ReplExec rc (dropSlotStmt ''slot'') \<in> set (ds_trace w2)"
    using slot_cleanup_follows_producer [OF refl ok(2) r2 ctl] w8 ok(3)
    by (auto simp: slot_ctrl_def good_env_def)
  ultimately show ?thesis using r1 r2 by blast
qed

definition torn_writer :: "(nat, dump_world, string \<rightharpoonup> bytes) Writer" where
  "torn_writer = NewWriter (\<lambda>s. s) 0 (DefaultConfig\<lparr>FileType := ''sql'', Consistency := ConsistencyTypeSnapshot\<rparr>) 0
     (ConsistencySnapshot slot_ctrl, newGlobalMetadata ''tok'', fresh_state slot_conf) Map.empty no_metrics"

theorem no_retry_after_teardown_witness:
  "\<exists>w' errs. WriteTableData (\<lambda>s. s) no_template mem_storage (\<lambda>c q. if c = 0 then Inl (External ''lost'') else lossy_ans c q)
     (\<lambda>i. sample_env) (rebuildConn (good_env ''tok'') True) (\<lambda>_. False) sample_table (tableData ''q'' 2 False) 0 torn_writer =
       Some (w', Annotatef (External ''lost'') ''sql: %s'' [''q''] # errs)"
proof -
  let ?ans = "\<lambda>c q. if c = 0 then Inl (External ''lost'') else lossy_ans c q"
  have w: "wr_world torn_writer = (ConsistencySnapshot slot_ctrl, newGlobalMetadata ''tok'', fresh_state slot_conf)"
    "wr_conn torn_writer = 0" "cs_conn slot_ctrl = None" "Consistency (wr_conf torn_writer) = ConsistencyTypeSnapshot"
    by (simp_all add: torn_writer_def NewWriter_def slot_ctrl_def)
  have a: "write_attempt (\<lambda>s. s) no_template mem_storage ?ans (\<lambda>i. sample_env) 0 (1, sample_table, td_new (tableData ''q'' 2 False), torn_writer) =
      Some ((1, sample_table, td_new (tableData ''q'' 2 False), torn_writer), Some (Annotatef (External ''lost'') ''sql: %s'' [''q'']))"
    by (simp add: write_attempt_def w Start_def td_new_def)
  show ?thesis by (rule no_retry_after_teardown [OF w(1,3) a]) (simp add: canRebuildConn_def w)
qed

end
