(* ===== verification/Spec2Isabelle.thy ===== *)
theory Spec2Isabelle
  imports Dumper
begin

text \<open>
  A verification library for pg-dumpling, a logical backup tool for PostgreSQL written in Go.

  \<^bold>\<open>The program.\<close> A run parses the command line (\<open>export/config.go\<close>), takes a snapshot of the database
  (\<open>export/consistency.go\<close>, with a replication slot by \<open>export/cdc.go\<close>), lists and filters the tables
  (\<open>export/sql.go\<close>, \<open>export/block_allow_list.go\<close>, \<open>internal/table-filter\<close>), and makes a stream of tasks, one
  for the definition of every schema and table and one for every chunk of table data (\<open>export/dump.go\<close>). The
  tasks go through an unbounded channel (\<open>export/util.go\<close>) to writers (\<open>export/writer.go\<close>), which read the rows
  of a chunk from a connection of their own (\<open>export/ir_impl.go\<close>), turn them into SQL statements or CSV lines
  (\<open>export/sql_type.go\<close>, \<open>export/dialect.go\<close>, \<open>export/writer_util.go\<close>) and put them into files of an external
  storage, retrying a chunk on a new connection after a failure (\<open>export/retry.go\<close>, \<open>export/conn.go\<close>). At the end
  the file \<open>metadata\<close> is written (\<open>export/metadata.go\<close>).

  \<^bold>\<open>The theories\<close>, in the order of their imports:

  \<^item> \<open>Prelude\<close>: bytes, errors as values, the functions of Go's \<open>strings\<close>, \<open>strconv\<close> and \<open>fmt\<close> that are used,
    64-bit arithmetic, and lemmas about them. \<open>Codec\<close>: the locale \<open>token_codec\<close>, an encoding whose values can be
    read back from the front of a text, with unique reading and separated lists as its consequences.
  \<^item> \<open>Dialect\<close> (\<open>dialect.go\<close>): quoting of names and binary literals, preambles. \<open>Row_Receiver\<close> (\<open>sql_type.go\<close>):
    which receiver a column gets and the text of a row. Both interpret \<open>token_codec\<close>: names, binary literals,
    string cells, rows and CSV cells are read back by the lexical rules of the loading system.
  \<^item> \<open>Table_Filter\<close> (\<open>internal/table-filter\<close>): matchers, the rule parser, and every kind of filter; the locale
    \<open>table_selector\<close> is what the dumper relies on and is interpreted on the filter type.
  \<^item> \<open>Table_Info\<close> (\<open>prepare.go\<close>), \<open>Config\<close> (\<open>config.go\<close>), \<open>Sql_Build\<close> and \<open>Tasks\<close> (\<open>sql.go\<close>, \<open>task.go\<close>,
    \<open>ir.go\<close>): tables and their kinds, the configuration, the queries, the tasks.
  \<^item> \<open>Chunking\<close> (\<open>dump.go\<close>): whole-table dumps and the splits by an integer key and by physical pages. The
    conditions of the chunk queries are read as SQL reads them; the locale \<open>chunk_plan\<close> (every row is selected by
    exactly one condition) is interpreted on both splits.
  \<^item> \<open>File_Naming\<close> (\<open>prepare.go\<close>, \<open>writer_util.go\<close>): escaping, templates, the numbering of files.
  \<^item> \<open>Row_Iter\<close> (\<open>ir_impl.go\<close>): iterators over the rows of one or several queries, the locale \<open>row_stream\<close>.
    \<open>File_Writer\<close> and \<open>Writer_Pipe\<close> (\<open>writer_util.go\<close>): files of the storage and the pipe between the
    formatting and the writing goroutine, the locale \<open>byte_pipe\<close>.
  \<^item> \<open>Write_Insert\<close> (\<open>writer_util.go\<close>): the loops that write rows, with their size limits, flushes, error paths
    and gauges; \<open>Insert_Correct\<close> and \<open>Insert_Props\<close> hold their correctness.
  \<^item> \<open>Retry\<close> (\<open>retry.go\<close>, \<open>conn.go\<close>): the retry loop and retried queries. \<open>Writer\<close> (\<open>writer.go\<close>): writers, with
    \<open>Writer_Correct\<close> and \<open>Writer_Props\<close>.
  \<^item> \<open>Catalog\<close>: the table list. \<open>Task_Queue\<close> (\<open>util.go\<close>): the channel as a step relation with the locale
    \<open>unbounded_channel\<close>. \<open>Consistency\<close> (\<open>consistency.go\<close>, \<open>cdc.go\<close>): snapshots, slots and worker connections.
    \<open>Dump_Tasks\<close>: the task stream. \<open>Dumper\<close>: \<open>Dump\<close> from setup to clean-up, and the metadata file.

  Structures are records, interfaces with a fixed set of implementations are datatypes, and definitions have the
  names of the functions they translate (with a suffix or prefix where HOL or another type has the name). A pair
  of value and error is a sum with the error on the left; a function that changes state returns the new state with
  an optional error. Where the code panics the model has the error \<open>Panic\<close>.

  \<^bold>\<open>What is shown.\<close>

  \<^item> Completeness of the data. The chunks of a split select every row once (\<open>Chunking\<close>); the iterator delivers the
    rows of the chunk's queries in order (\<open>Row_Iter\<close>); a file has the text of exactly the rows taken for it, for
    every interleaving of the two goroutines and every behaviour of the storage (\<open>Insert_Props\<close>); and if writing
    a chunk reports no error, after whatever failed attempts, its files together have all rows of its queries
    (\<open>Writer_Props\<close>). A result set that breaks off is reported.
  \<^item> Readability of the output. From the text of a row the cells can be read back, NULL told from text; the paths
    of different tables, chunks and kinds of files are different.
  \<^item> Selection and order. The tables dumped are the visible ones that the filter accepts; the task stream has
    each schema and table once, its definition before its data; the channel loses, adds and reorders nothing, and
    a writer handles what it receives in order.
  \<^item> One snapshot. All connections that read data have adopted the same exported snapshot before anything else is
    run on them, and the snapshot is released on every path. The metadata file is written by successful runs only.
  \<^item> Termination and bounds. Loops end, the number of attempts is bounded, a file exceeds its size limit by
    at most one statement prefix and row.
  \<^item> Behaviour that may surprise: a split that never ends, numbers of chunks that are announced too high, sizes
    that wrap, an option without effect, retries that cannot succeed, and slots that are kept or dropped
    independently of the result.

  \<^bold>\<open>Loops.\<close> Structural recursion and \<open>function\<close> with a measure where the source's loop has one: the retry loop
  by its remaining attempts, scanners by the rest of the text. Loops that may not end are \<open>partial_function\<close> into
  an option, so that \<^const>\<open>None\<close> means not returning: the two split loops, the loops over rows and the loop over
  the files of a chunk. That they return is a theorem of its own in each case (the row loops by the rows that are
  left, the file loop because every file but an empty first one takes a row, the splits by the number of steps to
  the upper bound), and \<open>key_split_diverges\<close> is the case in which one does not. No fuel is used.

  \<^bold>\<open>Parameters.\<close> Code outside the repository is an argument: the storage with \<open>storage_laws\<close> (a write appends, other
  files stay), the database, as answers to queries in \<open>Sql_Build\<close> and as a function of the whole history of
  calls in \<open>Consistency\<close>, \<open>pg_dump\<close>, the regular expression and template engines, the flag library, the Unicode
  tables, the file system. Cancellation and the schedules of goroutines are arguments too, and the theorems hold for
  all of them. The laws are satisfied by concrete instances in the witness theorems, the storage by one in memory.

  \<^bold>\<open>What is not modelled.\<close> Logging, prometheus registration, the HTTP status service, progress figures (floating
  point and wall-clock time), signal handling and the version text: nothing that is dumped depends on them. Opening
  the storage, the connection pool and the log in \<open>NewDumper\<close> are library calls. In \<open>Dump\<close> the group of writers is
  the parameter \<open>wait\<close>, a function of the tasks and the state: each writer and the channel have their own model and
  theorems, while their joint run is left open, with what \<open>Dump\<close> needs of it as a hypothesis (the history of calls
  only grows, the metadata file is not touched).
\<close>

end
